(* ===== verification/Go_Prelude.thy ===== *)
theory Go_Prelude
  imports Main "HOL-Library.Sublist" "HOL-Library.Monad_Syntax"
begin

text \<open>
  What the Go sources use of the language and of its standard library, shared by
  every component of the development:
  strings (package strings: Contains, HasPrefix, TrimSuffix, TrimSpace, TrimRight,
  ToLower, EqualFold, Split, Join), number parsing (strconv.Atoi, strconv.ParseInt),
  formatting (package fmt: the verbs %s %d %v %q %w, and the printed form of a
  time.Duration) and errors (errors.New, fmt.Errorf with %w, errors.Join, errors.Is).

  Conventions. A Go string is a sequence of bytes, so it is a HOL \<open>string\<close>
  (a list of 8-bit characters); case folding, white space and quoting are written for
  ASCII, where they agree with Go. A nil-able pointer is an \<open>option\<close>. A function that
  returns \<open>error\<close> returns \<open>go_error option\<close> (\<open>None\<close> is nil), one that returns
  \<open>(T, error)\<close> returns \<open>go_error + 'a\<close>. A Duration is its number of nanoseconds.
\<close>

named_theorems go_simps \<open>defining equations of the modelled library functions\<close>

section \<open>Strings\<close>

definition nl :: string where
  "nl = [CHR 0x0A]"

fun contains :: "string \<Rightarrow> string \<Rightarrow> bool" where
  "contains [] sub = (sub = [])"
| "contains (c # cs) sub = (prefix sub (c # cs) \<or> contains cs sub)"

definition has_prefix :: "string \<Rightarrow> string \<Rightarrow> bool" where
  [go_simps]: "has_prefix s p = prefix p s"

definition has_suffix :: "string \<Rightarrow> string \<Rightarrow> bool" where
  [go_simps]: "has_suffix s p = (length p \<le> length s \<and> drop (length s - length p) s = p)"

definition trim_suffix :: "string \<Rightarrow> string \<Rightarrow> string" where
  [go_simps]: "trim_suffix s p = (if has_suffix s p then take (length s - length p) s else s)"

definition is_space :: "char \<Rightarrow> bool" where
  [go_simps]: "is_space c = (c \<in> {CHR 0x09, CHR 0x0A, CHR 0x0B, CHR 0x0C, CHR 0x0D, CHR 0x20})"

definition trim_space :: "string \<Rightarrow> string" where
  [go_simps]: "trim_space s = rev (dropWhile is_space (rev (dropWhile is_space s)))"

definition trim_right :: "string \<Rightarrow> char \<Rightarrow> string" where
  [go_simps]: "trim_right s c = rev (dropWhile (\<lambda>x. x = c) (rev s))"

definition is_digit :: "char \<Rightarrow> bool" where
  [go_simps]: "is_digit c = (48 \<le> (of_char c :: nat) \<and> (of_char c :: nat) \<le> 57)"

definition lower_char :: "char \<Rightarrow> char" where
  [go_simps]: "lower_char c =
     (if 65 \<le> (of_char c :: nat) \<and> (of_char c :: nat) \<le> 90
      then char_of ((of_char c :: nat) + 32) else c)"

definition to_lower :: "string \<Rightarrow> string" where
  [go_simps]: "to_lower s = map lower_char s"

definition equal_fold :: "string \<Rightarrow> string \<Rightarrow> bool" where
  [go_simps]: "equal_fold s t = (to_lower s = to_lower t)"

fun split_on :: "char \<Rightarrow> string \<Rightarrow> string list" where
  "split_on c [] = [[]]"
| "split_on c (x # xs) =
     (if x = c then [] # split_on c xs
      else (case split_on c xs of [] \<Rightarrow> [[x]] | p # ps \<Rightarrow> (x # p) # ps))"

fun str_join :: "string \<Rightarrow> string list \<Rightarrow> string" where
  "str_join sep [] = []"
| "str_join sep [x] = x"
| "str_join sep (x # y # xs) = x @ sep @ str_join sep (y # xs)"

section \<open>Numbers and durations as text\<close>

definition digit_char :: "nat \<Rightarrow> char" where
  "digit_char d = char_of (48 + d)"

fun show_nat :: "nat \<Rightarrow> string" where
  "show_nat n = (if n < 10 then [digit_char n] else show_nat (n div 10) @ [digit_char (n mod 10)])"

declare show_nat.simps [simp del]

definition show_int :: "int \<Rightarrow> string" where
  "show_int i = (if i < 0 then CHR ''-'' # show_nat (nat (- i)) else show_nat (nat i))"

definition digit_val :: "char \<Rightarrow> nat" where
  "digit_val c = (of_char c :: nat) - 48"

definition nat_of_digits :: "string \<Rightarrow> nat" where
  "nat_of_digits s = foldl (\<lambda>n c. 10 * n + digit_val c) 0 s"

definition frac_text :: "nat \<Rightarrow> nat \<Rightarrow> string" where
  "frac_text prec u =
     (let ds = show_nat (u mod 10 ^ prec);
          padded = replicate (prec - length ds) (CHR ''0'') @ ds;
          t = rev (dropWhile (\<lambda>c. c = CHR ''0'') (rev padded))
      in if prec = 0 \<or> t = [] then [] else CHR ''.'' # t)"

definition second :: int where "second = 1000000000"
definition minute :: int where "minute = 60 * second"

definition duration_text :: "int \<Rightarrow> string" where
  "duration_text d =
     (let u = nat \<bar>d\<bar>;
          body =
            (if u < 1000000000 then
               (if u = 0 then ''0s''
                else if u < 1000 then show_nat u @ ''ns''
                else if u < 1000000 then show_nat (u div 1000) @ frac_text 3 u @ [CHR 0xC2, CHR 0xB5] @ ''s''
                else show_nat (u div 1000000) @ frac_text 6 u @ ''ms'')
             else
               (let secs = u div 1000000000; mins = secs div 60; hours = mins div 60;
                    s_part = show_nat (secs mod 60) @ frac_text 9 u @ ''s''
                in if mins = 0 then s_part
                   else if hours = 0 then show_nat (mins mod 60) @ ''m'' @ s_part
                   else show_nat hours @ ''h'' @ show_nat (mins mod 60) @ ''m'' @ s_part))
      in if d < 0 then CHR ''-'' # body else body)"

section \<open>Formatting and errors\<close>

text \<open>
  An error keeps the call that made it: \<open>Errorf\<close> has the format string and the
  arguments as the source passes them, an \<open>FErr\<close> argument is the error wrapped by %w.
  \<open>External reason text cause\<close> is an error value made by code outside the repository
  (an AWS, Kubernetes or OCM client, the operating system): a reason code, its message and
  the error it wraps, if any. \<open>DeadlineExceeded\<close> and \<open>Canceled\<close> are the two errors of
  package context. \<open>FNil\<close> is a nil error passed to a verb, \<open>FOpaque\<close> a value of a
  type outside the repository given by its printed form.
\<close>

datatype fmt_arg = FStr string | FInt int | FDur int | FStrs "string list"
  | FOpaque string | FNil | FErr go_error
and go_error = ErrorsNew string | Errorf string "fmt_arg list" | ErrorsJoin "go_error list"
  | External string string "go_error option" | DeadlineExceeded | Canceled

definition hex_digit :: "nat \<Rightarrow> char" where
  "hex_digit d = (if d < 10 then char_of (48 + d) else char_of (87 + d))"

definition quote_char :: "char \<Rightarrow> string" where
  "quote_char c =
     (if c = CHR 0x22 then [CHR 0x5C, CHR 0x22]
      else if c = CHR 0x5C then [CHR 0x5C, CHR 0x5C]
      else if c = CHR 0x07 then [CHR 0x5C, CHR ''a'']
      else if c = CHR 0x08 then [CHR 0x5C, CHR ''b'']
      else if c = CHR 0x0C then [CHR 0x5C, CHR ''f'']
      else if c = CHR 0x0A then [CHR 0x5C, CHR ''n'']
      else if c = CHR 0x0D then [CHR 0x5C, CHR ''r'']
      else if c = CHR 0x09 then [CHR 0x5C, CHR ''t'']
      else if c = CHR 0x0B then [CHR 0x5C, CHR ''v'']
      else if (of_char c :: nat) < 32 \<or> (of_char c :: nat) = 127
      then [CHR 0x5C, CHR ''x'', hex_digit (of_char c div 16), hex_digit (of_char c mod 16)]
      else [c])"

definition quote :: "string \<Rightarrow> string" where
  "quote s = CHR 0x22 # concat (map quote_char s) @ [CHR 0x22]"

fun sprintf :: "string \<Rightarrow> (char \<Rightarrow> string) list \<Rightarrow> string" where
  "sprintf [] as = []"
| "sprintf [c] as = [c]"
| "sprintf (c # v # f) as =
     (if c \<noteq> CHR ''%'' then c # sprintf (v # f) as
      else if v = CHR ''%'' then CHR ''%'' # sprintf f as
      else (case as of
              [] \<Rightarrow> ''%!'' @ [v] @ ''(MISSING)'' @ sprintf f []
            | a # as' \<Rightarrow> a v @ sprintf f as'))"

fun error_text :: "go_error \<Rightarrow> string"
  and arg_text :: "fmt_arg \<Rightarrow> char \<Rightarrow> string" where
  "error_text (ErrorsNew s) = s"
| "error_text (Errorf f as) = sprintf f (map arg_text as)"
| "error_text (ErrorsJoin es) = str_join nl (map error_text es)"
| "error_text (External r t c) = t"
| "error_text DeadlineExceeded = ''context deadline exceeded''"
| "error_text Canceled = ''context canceled''"
| "arg_text (FStr s) v = (if v = CHR ''q'' then quote s else s)"
| "arg_text (FInt i) v = show_int i"
| "arg_text (FDur d) v = duration_text d"
| "arg_text (FStrs ss) v = CHR ''['' # str_join '' '' (if v = CHR ''q'' then map quote ss else ss) @ '']''"
| "arg_text (FOpaque s) v = s"
| "arg_text FNil v = (if v = CHR ''v'' then ''<nil>'' else ''%!'' @ [v] @ ''(<nil>)'')"
| "arg_text (FErr e) v = (if v = CHR ''q'' then quote (error_text e) else error_text e)"

definition fmt_Sprintf :: "string \<Rightarrow> fmt_arg list \<Rightarrow> string" where
  "fmt_Sprintf f as = sprintf f (map arg_text as)"

fun errors_is :: "go_error \<Rightarrow> go_error \<Rightarrow> bool"
  and arg_is :: "fmt_arg \<Rightarrow> go_error \<Rightarrow> bool" where
  "errors_is (Errorf f as) t = (Errorf f as = t \<or> list_ex (\<lambda>a. arg_is a t) as)"
| "errors_is (ErrorsJoin es) t = (ErrorsJoin es = t \<or> list_ex (\<lambda>e. errors_is e t) es)"
| "errors_is (External r x (Some c)) t = (External r x (Some c) = t \<or> errors_is c t)"
| "errors_is e t = (e = t)"
| "arg_is (FErr e) t = errors_is e t"
| "arg_is a t = False"

text \<open>errors.Join: nil when every error is nil.\<close>

definition errors_Join :: "go_error list \<Rightarrow> go_error option" where
  "errors_Join es = (if es = [] then None else Some (ErrorsJoin es))"

section \<open>strconv\<close>

definition num_error :: "string \<Rightarrow> string \<Rightarrow> string \<Rightarrow> go_error" where
  "num_error fn s why = ErrorsNew (''strconv.'' @ fn @ '': parsing '' @ quote s @ '': '' @ why)"

definition int64_min :: int where "int64_min = - (2 ^ 63)"
definition int64_max :: int where "int64_max = 2 ^ 63 - 1"

text \<open>strconv.ParseInt(s, 10, 64), and Atoi on a 64-bit platform, which is the same parse.\<close>

definition parse_int64 :: "string \<Rightarrow> string \<Rightarrow> go_error + int" where
  "parse_int64 fn s =
     (let neg = (s \<noteq> [] \<and> hd s = CHR ''-'');
          ds = (if s \<noteq> [] \<and> (hd s = CHR ''-'' \<or> hd s = CHR ''+'') then tl s else s)
      in if ds = [] \<or> \<not> list_all is_digit ds then Inl (num_error fn s ''invalid syntax'')
         else let v = (if neg then - int (nat_of_digits ds) else int (nat_of_digits ds))
              in if v < int64_min \<or> int64_max < v then Inl (num_error fn s ''value out of range'')
                 else Inr v)"

definition strconv_Atoi :: "string \<Rightarrow> go_error + int" where
  "strconv_Atoi s = parse_int64 ''Atoi'' s"

definition strconv_ParseInt :: "string \<Rightarrow> go_error + int" where
  "strconv_ParseInt s = parse_int64 ''ParseInt'' s"

section \<open>Time and contexts\<close>

text \<open>
  The clock and the scheduler are the environment's, so they are operations on the
  state \<open>'w\<close> of the outside world: \<open>time_now\<close> is time.Now(), and
  \<open>select_done\<close> is \<open>select { case <-ctx.Done(): ... case <-time.After(d): ... }\<close>, which yields
  \<open>Some\<close> of ctx.Err() when the context is done and \<open>None\<close> when the timer fired.
  \<open>clock_ok\<close> is what package time documents: the timer fires after at least the
  duration has passed.
\<close>

record 'w go_runtime =
  time_now :: "'w \<Rightarrow> int"
  select_done :: "int \<Rightarrow> 'w \<Rightarrow> go_error option \<times> 'w"

definition clock_ok :: "'w go_runtime \<Rightarrow> bool" where
  "clock_ok rt \<longleftrightarrow>
     (\<forall>d w w'. select_done rt d w = (None, w') \<longrightarrow> time_now rt w + d \<le> time_now rt w')"

text \<open>
  A time.Time by the calendar fields of its location, and its printed forms: Format with the layouts
  time.RFC3339 and 0102, and String, for a time in UTC (the location in which the AWS SDK decodes times).
\<close>

record go_time =
  t_year :: nat
  t_month :: nat
  t_day :: nat
  t_hour :: nat
  t_min :: nat
  t_sec :: nat
  t_nsec :: nat

definition pad :: "nat \<Rightarrow> nat \<Rightarrow> string" where
  "pad k n = (let t = show_nat n in replicate (k - length t) (CHR ''0'') @ t)"

definition date_text :: "go_time \<Rightarrow> string" where
  "date_text t = pad 4 (t_year t) @ ''-'' @ pad 2 (t_month t) @ ''-'' @ pad 2 (t_day t)"

definition clock_text :: "go_time \<Rightarrow> string" where
  "clock_text t = pad 2 (t_hour t) @ '':'' @ pad 2 (t_min t) @ '':'' @ pad 2 (t_sec t)"

definition format_RFC3339 :: "go_time \<Rightarrow> string" where
  "format_RFC3339 t = date_text t @ ''T'' @ clock_text t @ ''Z''"

definition time_String :: "go_time \<Rightarrow> string" where
  "time_String t = date_text t @ '' '' @ clock_text t @ frac_text 9 (t_nsec t) @ '' +0000 UTC''"

definition format_0102 :: "go_time \<Rightarrow> string" where
  "format_0102 t = pad 2 (t_month t) @ pad 2 (t_day t)"

text \<open>
  Does time.Parse(time.RFC3339, s) succeed? As in package time, the hour may have one digit, a
  fraction of a second is accepted though the layout has none, and the offset of a zone
  may be up to 24 hours and 60 minutes.
\<close>

definition getnum :: "bool \<Rightarrow> string \<Rightarrow> (nat \<times> string) option" where
  "getnum fixed s =
     (case s of
        c # d # r \<Rightarrow>
          if \<not> is_digit c then None
          else if is_digit d then Some (10 * digit_val c + digit_val d, r)
          else if fixed then None else Some (digit_val c, d # r)
      | [c] \<Rightarrow> if is_digit c \<and> \<not> fixed then Some (digit_val c, []) else None
      | [] \<Rightarrow> None)"

fun skip_char :: "char \<Rightarrow> string \<Rightarrow> string option" where
  "skip_char c [] = None"
| "skip_char c (x # xs) = (if x = c then Some xs else None)"

definition days_in :: "nat \<Rightarrow> nat \<Rightarrow> nat" where
  "days_in month year =
     (if month = 2 then (if year mod 4 = 0 \<and> (year mod 100 \<noteq> 0 \<or> year mod 400 = 0) then 29 else 28)
      else if month \<in> {4, 6, 9, 11} then 30 else 31)"

definition drop_fraction :: "string \<Rightarrow> string" where
  "drop_fraction s =
     (case s of c # d # r \<Rightarrow> if (c = CHR ''.'' \<or> c = CHR '','') \<and> is_digit d then dropWhile is_digit r else s | _ \<Rightarrow> s)"

definition zone_ok :: "string \<Rightarrow> bool" where
  "zone_ok s \<longleftrightarrow> s = ''Z'' \<or>
     (length s = 6 \<and> (s ! 0 = CHR ''+'' \<or> s ! 0 = CHR ''-'') \<and> s ! 3 = CHR '':''
      \<and> list_all is_digit [s ! 1, s ! 2, s ! 4, s ! 5]
      \<and> nat_of_digits [s ! 1, s ! 2] \<le> 24 \<and> nat_of_digits [s ! 4, s ! 5] \<le> 60)"

definition rfc3339_ok :: "string \<Rightarrow> bool" where
  "rfc3339_ok s =
     (4 \<le> length s \<and> list_all is_digit (take 4 s) \<and>
      (case do {
         s \<leftarrow> skip_char (CHR ''-'') (drop 4 s);
         (month, s) \<leftarrow> getnum True s;
         s \<leftarrow> skip_char (CHR ''-'') s;
         (day, s) \<leftarrow> getnum True s;
         s \<leftarrow> skip_char (CHR ''T'') s;
         (hour, s) \<leftarrow> getnum False s;
         s \<leftarrow> skip_char (CHR '':'') s;
         (mins, s) \<leftarrow> getnum True s;
         s \<leftarrow> skip_char (CHR '':'') s;
         (sec, s) \<leftarrow> getnum True s;
         Some (month, day, hour, mins, sec, drop_fraction s)
       } of
         None \<Rightarrow> False
       | Some (month, day, hour, mins, sec, zone) \<Rightarrow>
           1 \<le> month \<and> month \<le> 12 \<and> 1 \<le> day \<and> day \<le> days_in month (nat_of_digits (take 4 s))
           \<and> hour < 24 \<and> mins < 60 \<and> sec < 60 \<and> zone_ok zone))"

section \<open>Paths\<close>

text \<open>filepath.Clean and filepath.Join of two elements, on Unix.\<close>

definition clean_step :: "bool \<Rightarrow> string list \<Rightarrow> string \<Rightarrow> string list" where
  "clean_step rooted acc c =
     (if c = [] \<or> c = ''.'' then acc
      else if c = ''..'' then
        (if acc \<noteq> [] \<and> last acc \<noteq> ''..'' then butlast acc
         else if rooted then acc else acc @ [c])
      else acc @ [c])"

definition path_clean :: "string \<Rightarrow> string" where
  "path_clean s =
     (let rooted = (s \<noteq> [] \<and> hd s = CHR ''/'');
          out = str_join ''/'' (foldl (clean_step rooted) [] (split_on (CHR ''/'') s))
      in if rooted then CHR ''/'' # out else if out = [] then ''.'' else out)"

definition path_join :: "string \<Rightarrow> string \<Rightarrow> string" where
  "path_join a b =
     (if a = [] then (if b = [] then [] else path_clean b) else path_clean (a @ ''/'' @ b))"

section \<open>Lemmas on the library functions\<close>

lemma contains_iff_sublist: "contains s sub \<longleftrightarrow> sublist sub s"
  by (induction s) (auto simp: sublist_Cons_right)

lemma contains_append [simp]: "contains (xs @ s @ ys) s"
  by (auto simp: contains_iff_sublist sublist_def)

lemma contains_refl [simp]: "contains s s"
  by (simp add: contains_iff_sublist)

lemma contains_trans: "contains s t \<Longrightarrow> contains t u \<Longrightarrow> contains s u"
  unfolding contains_iff_sublist by (rule sublist_order.order.trans)

lemma contains_appendR: "contains s t \<Longrightarrow> contains (xs @ s) t"
  by (rule contains_trans [of _ s]) (simp_all add: contains_iff_sublist)

lemma contains_appendL: "contains s t \<Longrightarrow> contains (s @ xs) t"
  by (rule contains_trans [of _ s]) (simp_all add: contains_iff_sublist)

lemmas contains_intros = contains_refl contains_appendR contains_appendL

lemma contains_join: "x \<in> set xs \<Longrightarrow> contains (str_join sep xs) x"
proof (induction sep xs rule: str_join.induct)
  case (3 sep a b xs)
  then show ?case
    by (cases "x = a") (auto intro: contains_intros)
qed (auto intro: contains_intros)

lemma has_suffix_iff: "has_suffix s p \<longleftrightarrow> (\<exists>q. s = q @ p)"
  by (auto simp: has_suffix_def intro: exI [of _ "take (length s - length p) s"])
     (metis append_take_drop_id)

lemma trim_suffix_append [simp]: "trim_suffix (s @ p) p = s"
  by (simp add: trim_suffix_def has_suffix_def)

lemma trim_suffix_id: "\<not> has_suffix s p \<Longrightarrow> trim_suffix s p = s"
  by (simp add: trim_suffix_def)

lemma split_on_nonempty [simp]: "split_on c s \<noteq> []"
  by (induction s) (auto split: list.splits)

lemma split_on_no_sep: "p \<in> set (split_on c s) \<Longrightarrow> c \<notin> set p"
proof (induction s arbitrary: p)
  case Nil
  then show ?case by simp
next
  case (Cons x s)
  then show ?case by (cases "split_on c s") (auto split: if_splits)
qed

lemma join_split_on [simp]: "str_join [c] (split_on c s) = s"
proof (induction s)
  case Nil
  then show ?case by simp
next
  case (Cons x s)
  then show ?case
    by (cases "split_on c s" rule: list.exhaust; cases "tl (split_on c s)") auto
qed

lemma dropWhile_not_hd: "dropWhile P xs \<noteq> [] \<Longrightarrow> \<not> P (hd (dropWhile P xs))"
  by (rule hd_dropWhile) (use dropWhile_eq_Nil_conv in blast)

lemma show_nat_digits: "list_all is_digit (show_nat n) \<and> show_nat n \<noteq> []"
proof (induction n rule: show_nat.induct)
  case (1 n)
  have d: "k < 10 \<Longrightarrow> is_digit (digit_char k)" for k
    by (simp add: is_digit_def digit_char_def)
  show ?case
    using 1 by (cases "n < 10") (simp_all add: show_nat.simps [of n] d)
qed

lemma digit_val_char [simp]: "d < 10 \<Longrightarrow> digit_val (digit_char d) = d"
  by (simp add: digit_val_def digit_char_def)

lemma nat_of_digits_snoc: "nat_of_digits (s @ [c]) = 10 * nat_of_digits s + digit_val c"
  by (simp add: nat_of_digits_def)

lemma nat_of_digits_show [simp]: "nat_of_digits (show_nat n) = n"
proof (induction n rule: show_nat.induct)
  case (1 n)
  show ?case
  proof (cases "n < 10")
    case True
    then show ?thesis by (simp add: show_nat.simps [of n] nat_of_digits_def)
  next
    case False
    with 1 show ?thesis by (simp add: show_nat.simps [of n] nat_of_digits_snoc)
  qed
qed

lemma digit_val_le: "is_digit c \<Longrightarrow> digit_val c \<le> 9"
  unfolding is_digit_def digit_val_def by linarith

lemma nat_of_digits_bound: "list_all is_digit s \<Longrightarrow> nat_of_digits s < 10 ^ length s"
proof (induction s rule: rev_induct)
  case Nil
  then show ?case by (simp add: nat_of_digits_def)
next
  case (snoc c s)
  then have "nat_of_digits s < 10 ^ length s" and "digit_val c \<le> 9"
    by (simp_all add: digit_val_le)
  then show ?case by (simp add: nat_of_digits_snoc)
qed

lemma parse_int64_range:
  "parse_int64 fn s = Inr v \<Longrightarrow> int64_min \<le> v \<and> v \<le> int64_max"
  by (auto simp: parse_int64_def Let_def split: if_splits)

lemma parse_int64_digits:
  assumes "s \<noteq> []" and "list_all is_digit s"
  shows "parse_int64 fn s =
    (if int64_max < int (nat_of_digits s) then Inl (num_error fn s ''value out of range'')
     else Inr (int (nat_of_digits s)))"
proof -
  obtain c cs where s: "s = c # cs" using assms(1) by (cases s) auto
  have "is_digit c" using assms(2) s by simp
  then have "c \<noteq> CHR ''-''" and "c \<noteq> CHR ''+''" by (auto simp: is_digit_def)
  moreover have "\<not> int n < int64_min" for n by (simp add: int64_min_def)
  ultimately show ?thesis using assms s by (auto simp: parse_int64_def Let_def)
qed

lemma errors_is_refl [simp]: "errors_is e e"
proof (cases e)
  case (External r x c)
  then show ?thesis by (cases c) simp_all
qed simp_all

lemma errors_is_wrapped: "FErr e \<in> set as \<Longrightarrow> errors_is e t \<Longrightarrow> errors_is (Errorf f as) t"
  by (auto simp: list_ex_iff intro!: bexI [of _ "FErr e"])

lemma errors_Join_None_iff [simp]: "errors_Join es = None \<longleftrightarrow> es = []"
  by (simp add: errors_Join_def)

text \<open>
  The verbs of a format string in order. An argument that meets a verb is printed, so its
  text is part of the result: this is how the theorems below find the name of a resource or
  the message of a wrapped error in the text of the error that is returned.
\<close>

fun fmt_verbs :: "string \<Rightarrow> char list" where
  "fmt_verbs [] = []"
| "fmt_verbs [c] = []"
| "fmt_verbs (c # v # f) =
     (if c \<noteq> CHR ''%'' then fmt_verbs (v # f)
      else if v = CHR ''%'' then fmt_verbs f
      else v # fmt_verbs f)"

lemma contains_Cons: "contains t s \<Longrightarrow> contains (c # t) s"
  by simp

lemma sprintf_contains:
  "i < length as \<Longrightarrow> i < length (fmt_verbs f) \<Longrightarrow> contains (sprintf f as) ((as ! i) (fmt_verbs f ! i))"
proof (induction f as arbitrary: i rule: sprintf.induct)
  case (3 c v f as)
  show ?case
  proof (cases "c = CHR ''%'' \<and> v \<noteq> CHR ''%''")
    case True
    obtain a as' where as: "as = a # as'" using 3(5) by (cases as) auto
    show ?thesis
    proof (cases i)
      case 0
      then show ?thesis using True as by (auto intro: contains_intros)
    next
      case (Suc j)
      then have "contains (sprintf f as') ((as' ! j) (fmt_verbs f ! j))"
        using 3(5,6) True as by (intro 3(4)) auto
      then show ?thesis using True as Suc by (auto intro: contains_appendR)
    qed
  next
    case False
    then show ?thesis using 3(1,2,5,6) by (auto simp del: contains.simps intro!: contains_Cons)
  qed
qed auto

lemma Sprintf_contains_str:
  assumes "i < length as" and "i < length (fmt_verbs f)" and "as ! i = FStr s" and "fmt_verbs f ! i \<noteq> CHR ''q''"
  shows "contains (fmt_Sprintf f as) s"
  using sprintf_contains [of i "map arg_text as" f] assms by (simp add: fmt_Sprintf_def)

lemma Errorf_contains_str:
  assumes "i < length as" and "i < length (fmt_verbs f)" and "as ! i = FStr s" and "fmt_verbs f ! i \<noteq> CHR ''q''"
  shows "contains (error_text (Errorf f as)) s"
  using Sprintf_contains_str [OF assms] by (simp add: fmt_Sprintf_def)

lemma Errorf_contains_err:
  assumes "i < length as" and "i < length (fmt_verbs f)" and "as ! i = FErr e" and "fmt_verbs f ! i \<noteq> CHR ''q''"
  shows "contains (error_text (Errorf f as)) (error_text e)"
  using sprintf_contains [of i "map arg_text as" f] assms by simp

lemma Errorf_contains_strs:
  assumes "i < length as" and "i < length (fmt_verbs f)" and "as ! i = FStrs ss" and "fmt_verbs f ! i \<noteq> CHR ''q''"
    and "s \<in> set ss"
  shows "contains (error_text (Errorf f as)) s"
proof -
  have "contains (CHR ''['' # str_join '' '' ss @ '']'') s"
    by (intro contains_Cons contains_appendL contains_join assms(5))
  moreover have "contains (error_text (Errorf f as)) (CHR ''['' # str_join '' '' ss @ '']'')"
    using sprintf_contains [of i "map arg_text as" f] assms by simp
  ultimately show ?thesis by (rule contains_trans [rotated])
qed

end
