(* ===== verification/Vpc_Cleanup.thy ===== *)
theory Vpc_Cleanup
  imports Go_Prelude
begin

text \<open>
  pkg/framework/vpc_cleanup.go: the cascade deletion of the network interfaces, the
  security groups and the subnets of a VPC.

  The EC2 client is an interface of the source (EC2VPCClient) implemented outside the
  repository; it is the record \<open>ec2_api\<close>, a parameter of every function, whose operations
  act on the state \<open>'w\<close> of the outside world. The state of a run (\<open>vpc_state\<close>) holds
  that world, the text written to the log writer, and the history of the client calls
  with their responses, in order. The history only records what the code does: nothing
  of the model reads it, and the theorems are stated over it.
\<close>

section \<open>Data of the EC2 client\<close>

type_synonym ip_permission = string

record network_interface =
  ni_NetworkInterfaceId :: "string option"
  ni_Attachment :: "string option option" \<comment> \<open>Attachment, and its AttachmentId\<close>
  ni_Status :: string

record security_group =
  sg_GroupId :: "string option"
  sg_GroupName :: "string option"
  sg_IpPermissions :: "ip_permission list"
  sg_IpPermissionsEgress :: "ip_permission list"

record subnet =
  sn_SubnetId :: "string option"

record ('p, 'w, 'x) pager =
  new_pager :: "string \<Rightarrow> 'p"
  has_more_pages :: "'p \<Rightarrow> bool"
  next_page :: "'p \<Rightarrow> 'w \<Rightarrow> (go_error + 'x list) \<times> 'p \<times> 'w"

record ('p, 'w) ec2_api =
  eni_pager :: "('p, 'w, network_interface) pager"
  sg_pager :: "('p, 'w, security_group) pager"
  subnet_pager :: "('p, 'w, subnet) pager"
  api_DescribeNetworkInterfaces :: "string \<Rightarrow> 'w \<Rightarrow> (go_error + network_interface list) \<times> 'w"
  api_DetachNetworkInterface :: "string option \<Rightarrow> bool \<Rightarrow> 'w \<Rightarrow> go_error option \<times> 'w"
  api_DeleteNetworkInterface :: "string \<Rightarrow> 'w \<Rightarrow> go_error option \<times> 'w"
  api_RevokeIngress :: "string option \<Rightarrow> ip_permission list \<Rightarrow> 'w \<Rightarrow> go_error option \<times> 'w"
  api_RevokeEgress :: "string option \<Rightarrow> ip_permission list \<Rightarrow> 'w \<Rightarrow> go_error option \<times> 'w"
  api_DeleteSecurityGroup :: "string option \<Rightarrow> 'w \<Rightarrow> go_error option \<times> 'w"
  api_DeleteSubnet :: "string option \<Rightarrow> 'w \<Rightarrow> go_error option \<times> 'w"
  aws_ToString :: "string option \<Rightarrow> string"

record vpc_timing =
  eniDetachTimeout :: int
  eniDetachPollInterval :: int
  eniDeleteMaxRetries :: int
  eniDeleteRetryDelay :: int

definition default_timing :: vpc_timing where
  "default_timing = \<lparr>eniDetachTimeout = 2 * minute, eniDetachPollInterval = 5 * second,
     eniDeleteMaxRetries = 5, eniDeleteRetryDelay = 3 * second\<rparr>"

section \<open>The state of a run\<close>

datatype ec2_event =
    EniPage "go_error + network_interface list"
  | DetachEni "string option" "go_error option"
  | DescribeEni string "go_error + network_interface list"
  | DeleteEni string "go_error option"
  | SgPage "go_error + security_group list"
  | RevokeIngress "string option" "ip_permission list" "go_error option"
  | RevokeEgress "string option" "ip_permission list" "go_error option"
  | DeleteSg "string option" "go_error option"
  | SubnetPage "go_error + subnet list"
  | DeleteSubnet "string option" "go_error option"

record 'w vpc_state =
  vs_events :: "ec2_event list"
  vs_log :: "string list"
  vs_world :: 'w

definition api_call :: "('r \<Rightarrow> ec2_event) \<Rightarrow> ('w \<Rightarrow> 'r \<times> 'w) \<Rightarrow> 'w vpc_state \<Rightarrow> 'r \<times> 'w vpc_state" where
  "api_call ev f s =
     (let (r, w) = f (vs_world s) in (r, s\<lparr>vs_events := vs_events s @ [ev r], vs_world := w\<rparr>))"

definition logf :: "string \<Rightarrow> fmt_arg list \<Rightarrow> 'w vpc_state \<Rightarrow> 'w vpc_state" where
  "logf f as s = s\<lparr>vs_log := vs_log s @ [fmt_Sprintf f as]\<rparr>"

section \<open>Paging\<close>

text \<open>The three \<open>for paginator.HasMorePages()\<close> loops; \<open>keep\<close> is the filter of the loop body.\<close>

partial_function (option) collect_pages ::
  "('p, 'w, 'x) pager \<Rightarrow> ((go_error + 'x list) \<Rightarrow> ec2_event) \<Rightarrow> ('x \<Rightarrow> bool) \<Rightarrow> 'p \<Rightarrow> 'x list
   \<Rightarrow> 'w vpc_state \<Rightarrow> ((go_error + 'x list) \<times> 'w vpc_state) option" where
  "collect_pages pg ev keep p acc s =
     (if \<not> has_more_pages pg p then Some (Inr acc, s)
      else (case next_page pg p (vs_world s) of (r, p', w) \<Rightarrow>
        (let s' = s\<lparr>vs_events := vs_events s @ [ev r], vs_world := w\<rparr> in
         case r of
           Inl err \<Rightarrow> Some (Inl err, s')
         | Inr xs \<Rightarrow> collect_pages pg ev keep p' (acc @ filter keep xs) s')))"

section \<open>Network interfaces\<close>

partial_function (option) wait_eni_loop ::
  "('p, 'w) ec2_api \<Rightarrow> 'w go_runtime \<Rightarrow> vpc_timing \<Rightarrow> string \<Rightarrow> int
   \<Rightarrow> 'w vpc_state \<Rightarrow> (go_error option \<times> 'w vpc_state) option" where
  "wait_eni_loop api rt tm eniID deadline s =
     (if deadline < time_now rt (vs_world s)
      then Some (Some (Errorf ''timed out after %v waiting for ENI %s to reach available state''
                   [FDur (eniDetachTimeout tm), FStr eniID]), s)
      else (case api_call (DescribeEni eniID) (api_DescribeNetworkInterfaces api eniID) s of
        (r, s1) \<Rightarrow> (case r of
          Inl err \<Rightarrow>
            if contains (error_text err) ''InvalidNetworkInterfaceID'' then Some (None, s1)
            else Some (Some (Errorf ''describing ENI %s: %w'' [FStr eniID, FErr err]), s1)
        | Inr nis \<Rightarrow> (case nis of
            [] \<Rightarrow> Some (None, s1)
          | ni # _ \<Rightarrow>
              if ni_Status ni = ''available'' then Some (None, s1)
              else (case select_done rt (eniDetachPollInterval tm) (vs_world s1) of
                (done, w) \<Rightarrow> (let s2 = s1\<lparr>vs_world := w\<rparr> in
                  case done of
                    Some e \<Rightarrow> Some (Some e, s2)
                  | None \<Rightarrow> wait_eni_loop api rt tm eniID deadline s2))))))"

definition waitForENIAvailable ::
  "('p, 'w) ec2_api \<Rightarrow> 'w go_runtime \<Rightarrow> vpc_timing \<Rightarrow> string
   \<Rightarrow> 'w vpc_state \<Rightarrow> (go_error option \<times> 'w vpc_state) option" where
  "waitForENIAvailable api rt tm eniID s =
     wait_eni_loop api rt tm eniID (time_now rt (vs_world s) + eniDetachTimeout tm) s"

text \<open>
  \<open>delete_eni_attempts n\<close> is the loop of deleteENIWithRetry with \<open>n\<close> attempts left, so the
  guard \<open>attempt < eniDeleteMaxRetries-1\<close> is that another attempt follows.
\<close>

fun delete_eni_attempts ::
  "('p, 'w) ec2_api \<Rightarrow> 'w go_runtime \<Rightarrow> vpc_timing \<Rightarrow> string \<Rightarrow> nat \<Rightarrow> go_error option
   \<Rightarrow> 'w vpc_state \<Rightarrow> (bool \<times> go_error option) \<times> 'w vpc_state" where
  "delete_eni_attempts api rt tm eniID 0 lastErr s =
     ((False, Some (Errorf ''after %d attempts: %w''
         [FInt (eniDeleteMaxRetries tm), (case lastErr of None \<Rightarrow> FNil | Some e \<Rightarrow> FErr e)])), s)"
| "delete_eni_attempts api rt tm eniID (Suc n) lastErr s =
     (case api_call (DeleteEni eniID) (api_DeleteNetworkInterface api eniID) s of
        (None, s1) \<Rightarrow> ((False, None), s1)
      | (Some err, s1) \<Rightarrow>
          if contains (error_text err) ''InvalidNetworkInterfaceID'' then ((True, None), s1)
          else if 0 < n then
            (case select_done rt (eniDeleteRetryDelay tm) (vs_world s1) of
               (Some e, w) \<Rightarrow> ((False, Some e), s1\<lparr>vs_world := w\<rparr>)
             | (None, w) \<Rightarrow> delete_eni_attempts api rt tm eniID n (Some err) (s1\<lparr>vs_world := w\<rparr>))
          else delete_eni_attempts api rt tm eniID n (Some err) s1)"

definition deleteENIWithRetry ::
  "('p, 'w) ec2_api \<Rightarrow> 'w go_runtime \<Rightarrow> vpc_timing \<Rightarrow> string
   \<Rightarrow> 'w vpc_state \<Rightarrow> (bool \<times> go_error option) \<times> 'w vpc_state" where
  "deleteENIWithRetry api rt tm eniID s =
     delete_eni_attempts api rt tm eniID (nat (eniDeleteMaxRetries tm)) None s"

text \<open>The body of the loop of cleanupENIs for one interface, up to the deletion.\<close>

definition detach_eni ::
  "('p, 'w) ec2_api \<Rightarrow> 'w go_runtime \<Rightarrow> vpc_timing \<Rightarrow> network_interface
   \<Rightarrow> 'w vpc_state \<Rightarrow> (go_error option \<times> 'w vpc_state) option" where
  "detach_eni api rt tm eni s =
     (let eniID = aws_ToString api (ni_NetworkInterfaceId eni) in
      case ni_Attachment eni of
        Some (Some attID) \<Rightarrow>
          (let s1 = logf (''Detaching ENI %s (attachment: %s)'' @ nl)
                      [FStr eniID, FStr (aws_ToString api (Some attID))] s
           in case api_call (DetachEni (Some attID))
                     (api_DetachNetworkInterface api (Some attID) True) s1 of
                (Some err, s2) \<Rightarrow>
                  Some (Some (Errorf ''detaching ENI %s (attachment %s): %w''
                    [FStr eniID, FStr (aws_ToString api (Some attID)), FErr err]), s2)
              | (None, s2) \<Rightarrow> do {
                  (r, s3) \<leftarrow> waitForENIAvailable api rt tm eniID s2;
                  Some (case r of
                      Some err \<Rightarrow> (Some (Errorf ''waiting for ENI %s to detach: %w''
                                      [FStr eniID, FErr err]), s3)
                    | None \<Rightarrow> (None, s3)) })
      | _ \<Rightarrow> Some (None, s))"

definition cleanup_eni ::
  "('p, 'w) ec2_api \<Rightarrow> 'w go_runtime \<Rightarrow> vpc_timing \<Rightarrow> network_interface
   \<Rightarrow> 'w vpc_state \<Rightarrow> (go_error option \<times> 'w vpc_state) option" where
  "cleanup_eni api rt tm eni s =
     (let eniID = aws_ToString api (ni_NetworkInterfaceId eni) in do {
        (r, s1) \<leftarrow> detach_eni api rt tm eni s;
        (case r of
           Some e \<Rightarrow> Some (Some e, s1)
         | None \<Rightarrow> (case deleteENIWithRetry api rt tm eniID s1 of
             ((gone, Some err), s2) \<Rightarrow>
               Some (Some (Errorf ''deleting ENI %s: %w'' [FStr eniID, FErr err]), s2)
           | ((gone, None), s2) \<Rightarrow>
               Some (None, if gone then logf (''ENI %s already gone'' @ nl) [FStr eniID] s2
                           else logf (''Deleted ENI %s'' @ nl) [FStr eniID] s2)))
      })"

fun cleanup_eni_list ::
  "('p, 'w) ec2_api \<Rightarrow> 'w go_runtime \<Rightarrow> vpc_timing \<Rightarrow> network_interface list
   \<Rightarrow> 'w vpc_state \<Rightarrow> (go_error option \<times> 'w vpc_state) option" where
  "cleanup_eni_list api rt tm [] s = Some (None, s)"
| "cleanup_eni_list api rt tm (eni # enis) s = do {
     (r, s1) \<leftarrow> cleanup_eni api rt tm eni s;
     (case r of
        Some e \<Rightarrow> Some (Some e, s1)
      | None \<Rightarrow> cleanup_eni_list api rt tm enis s1) }"

definition cleanupENIs ::
  "('p, 'w) ec2_api \<Rightarrow> 'w go_runtime \<Rightarrow> vpc_timing \<Rightarrow> string
   \<Rightarrow> 'w vpc_state \<Rightarrow> (go_error option \<times> 'w vpc_state) option" where
  "cleanupENIs api rt tm vpcID s = do {
     (r, s1) \<leftarrow> collect_pages (eni_pager api) EniPage (\<lambda>_. True)
                 (new_pager (eni_pager api) vpcID) [] s;
     (case r of
        Inl err \<Rightarrow> Some (Some (Errorf ''describing network interfaces: %w'' [FErr err]), s1)
      | Inr enis \<Rightarrow>
          if enis = [] then Some (None, s1)
          else cleanup_eni_list api rt tm enis
                 (logf (''Found %d ENIs in VPC %s'' @ nl) [FInt (int (length enis)), FStr vpcID] s1)) }"

section \<open>Security groups\<close>

definition revoke_sg ::
  "('p, 'w) ec2_api \<Rightarrow> security_group \<Rightarrow> string list \<times> 'w vpc_state \<Rightarrow> string list \<times> 'w vpc_state" where
  "revoke_sg api sg st =
     (let sgID = aws_ToString api (sg_GroupId sg); (errs, s) = st;
          (errs1, s1) =
            (if sg_IpPermissions sg = [] then (errs, s)
             else case api_call (RevokeIngress (sg_GroupId sg) (sg_IpPermissions sg))
                         (api_RevokeIngress api (sg_GroupId sg) (sg_IpPermissions sg)) s of
                    (None, s') \<Rightarrow> (errs, s')
                  | (Some err, s') \<Rightarrow>
                      (errs @ [fmt_Sprintf ''ingress for SG %s: %v'' [FStr sgID, FErr err]], s'))
      in if sg_IpPermissionsEgress sg = [] then (errs1, s1)
         else case api_call (RevokeEgress (sg_GroupId sg) (sg_IpPermissionsEgress sg))
                     (api_RevokeEgress api (sg_GroupId sg) (sg_IpPermissionsEgress sg)) s1 of
                (None, s') \<Rightarrow> (errs1, s')
              | (Some err, s') \<Rightarrow>
                  (errs1 @ [fmt_Sprintf ''egress for SG %s: %v'' [FStr sgID, FErr err]], s'))"

definition delete_sg ::
  "('p, 'w) ec2_api \<Rightarrow> security_group \<Rightarrow> string list \<times> 'w vpc_state \<Rightarrow> string list \<times> 'w vpc_state" where
  "delete_sg api sg st =
     (let sgID = aws_ToString api (sg_GroupId sg); sgName = aws_ToString api (sg_GroupName sg);
          (errs, s) = st
      in case api_call (DeleteSg (sg_GroupId sg)) (api_DeleteSecurityGroup api (sg_GroupId sg)) s of
           (Some err, s') \<Rightarrow>
             (errs @ [fmt_Sprintf ''SG %s (%s): %v'' [FStr sgID, FStr sgName, FErr err]], s')
         | (None, s') \<Rightarrow>
             (errs, logf (''Deleted security group %s (%s)'' @ nl) [FStr sgID, FStr sgName] s'))"

text \<open>All rules are revoked before the first deletion; errors of both loops are collected.\<close>

definition sweep_security_groups ::
  "('p, 'w) ec2_api \<Rightarrow> security_group list \<Rightarrow> 'w vpc_state \<Rightarrow> go_error option \<times> 'w vpc_state" where
  "sweep_security_groups api sgs s =
     (let (revokeErrors, s1) = fold (revoke_sg api) sgs ([], s);
          (deleteErrors, s2) = fold (delete_sg api) sgs ([], s1);
          allErrors = revokeErrors @ deleteErrors
      in if allErrors = [] then (None, s2)
         else (Some (Errorf (''failed to clean up %d security group issues:'' @ nl @ ''%s'')
                 [FInt (int (length allErrors)), FStr (str_join nl allErrors)]), s2))"

definition cleanupSecurityGroups ::
  "('p, 'w) ec2_api \<Rightarrow> string \<Rightarrow> 'w vpc_state \<Rightarrow> (go_error option \<times> 'w vpc_state) option" where
  "cleanupSecurityGroups api vpcID s = do {
     (r, s1) \<leftarrow> collect_pages (sg_pager api) SgPage
                 (\<lambda>sg. aws_ToString api (sg_GroupName sg) \<noteq> ''default'')
                 (new_pager (sg_pager api) vpcID) [] s;
     Some (case r of
       Inl err \<Rightarrow> (Some (Errorf ''describing security groups: %w'' [FErr err]), s1)
     | Inr sgs \<Rightarrow>
         if sgs = [] then (None, s1)
         else sweep_security_groups api sgs
                (logf (''Found %d non-default security groups in VPC %s'' @ nl)
                   [FInt (int (length sgs)), FStr vpcID] s1)) }"

section \<open>Subnets\<close>

definition delete_subnet ::
  "('p, 'w) ec2_api \<Rightarrow> subnet \<Rightarrow> string list \<times> 'w vpc_state \<Rightarrow> string list \<times> 'w vpc_state" where
  "delete_subnet api sn st =
     (let subnetID = aws_ToString api (sn_SubnetId sn); (errs, s) = st
      in case api_call (DeleteSubnet (sn_SubnetId sn)) (api_DeleteSubnet api (sn_SubnetId sn)) s of
           (Some err, s') \<Rightarrow> (errs @ [fmt_Sprintf ''subnet %s: %v'' [FStr subnetID, FErr err]], s')
         | (None, s') \<Rightarrow> (errs, logf (''Deleted subnet %s'' @ nl) [FStr subnetID] s'))"

definition sweep_subnets ::
  "('p, 'w) ec2_api \<Rightarrow> subnet list \<Rightarrow> 'w vpc_state \<Rightarrow> go_error option \<times> 'w vpc_state" where
  "sweep_subnets api subnets s =
     (let (deleteErrors, s1) = fold (delete_subnet api) subnets ([], s)
      in if deleteErrors = [] then (None, s1)
         else (Some (Errorf (''failed to delete %d subnets:'' @ nl @ ''%s'')
                 [FInt (int (length deleteErrors)), FStr (str_join nl deleteErrors)]), s1))"

definition cleanupSubnets ::
  "('p, 'w) ec2_api \<Rightarrow> string \<Rightarrow> 'w vpc_state \<Rightarrow> (go_error option \<times> 'w vpc_state) option" where
  "cleanupSubnets api vpcID s = do {
     (r, s1) \<leftarrow> collect_pages (subnet_pager api) SubnetPage (\<lambda>_. True)
                 (new_pager (subnet_pager api) vpcID) [] s;
     Some (case r of
       Inl err \<Rightarrow> (Some (Errorf ''describing subnets: %w'' [FErr err]), s1)
     | Inr subnets \<Rightarrow>
         if subnets = [] then (None, s1)
         else sweep_subnets api subnets
                (logf (''Found %d subnets in VPC %s'' @ nl)
                   [FInt (int (length subnets)), FStr vpcID] s1)) }"

section \<open>The whole cascade\<close>

definition CleanupVPCResources ::
  "('p, 'w) ec2_api \<Rightarrow> 'w go_runtime \<Rightarrow> vpc_timing \<Rightarrow> string
   \<Rightarrow> 'w vpc_state \<Rightarrow> (go_error option \<times> 'w vpc_state) option" where
  "CleanupVPCResources api rt tm vpcID s = do {
     (r1, s1) \<leftarrow> cleanupENIs api rt tm vpcID s;
     (case r1 of
        Some err \<Rightarrow> Some (Some (Errorf ''cleaning up ENIs in VPC %s: %w'' [FStr vpcID, FErr err]), s1)
      | None \<Rightarrow> do {
          (r2, s2) \<leftarrow> cleanupSecurityGroups api vpcID s1;
          (case r2 of
             Some err \<Rightarrow> Some (Some (Errorf ''cleaning up security groups in VPC %s: %w''
                                 [FStr vpcID, FErr err]), s2)
           | None \<Rightarrow> do {
               (r3, s3) \<leftarrow> cleanupSubnets api vpcID s2;
               (case r3 of
                  Some err \<Rightarrow> Some (Some (Errorf ''cleaning up subnets in VPC %s: %w''
                                      [FStr vpcID, FErr err]), s3)
                | None \<Rightarrow> Some (None, logf (''VPC %s resource cleanup complete'' @ nl) [FStr vpcID] s3)) }) }) }"

section \<open>What a run adds to the history\<close>

definition gone :: "go_error option \<Rightarrow> bool" where
  "gone r \<longleftrightarrow> (case r of None \<Rightarrow> True | Some e \<Rightarrow> contains (error_text e) ''InvalidNetworkInterfaceID'')"

definition emits :: "(ec2_event \<Rightarrow> bool) \<Rightarrow> 'w vpc_state \<Rightarrow> 'w vpc_state \<Rightarrow> bool" where
  "emits P s s' \<longleftrightarrow> (\<exists>es. vs_events s' = vs_events s @ es \<and> list_all P es)"

fun is_eni_op :: "ec2_event \<Rightarrow> bool" where
  "is_eni_op (DetachEni _ _) = True"
| "is_eni_op (DescribeEni _ _) = True"
| "is_eni_op (DeleteEni _ _) = True"
| "is_eni_op _ = False"

fun is_revoke :: "ec2_event \<Rightarrow> bool" where
  "is_revoke (RevokeIngress _ _ _) = True"
| "is_revoke (RevokeEgress _ _ _) = True"
| "is_revoke _ = False"

fun is_sg_page :: "ec2_event \<Rightarrow> bool" where
  "is_sg_page (SgPage _) = True"
| "is_sg_page _ = False"

fun is_sg_delete :: "ec2_event \<Rightarrow> bool" where
  "is_sg_delete (DeleteSg _ _) = True"
| "is_sg_delete _ = False"

fun is_subnet_event :: "ec2_event \<Rightarrow> bool" where
  "is_subnet_event (SubnetPage _) = True"
| "is_subnet_event (DeleteSubnet _ _) = True"
| "is_subnet_event _ = False"

lemma emits_refl [simp]: "emits P s s"
  by (simp add: emits_def)

lemma emits_trans: "emits P s s1 \<Longrightarrow> emits P s1 s2 \<Longrightarrow> emits P s s2"
  unfolding emits_def by (metis append_assoc list_all_append)

lemma emits_call: "api_call ev f s = (r, s') \<Longrightarrow> vs_events s' = vs_events s @ [ev r]"
  by (auto simp: api_call_def split: prod.splits)

lemma logf_events [simp]: "vs_events (logf f as s) = vs_events s"
  by (simp add: logf_def)

lemma logf_world [simp]: "vs_world (logf f as s) = vs_world s"
  by (simp add: logf_def)

lemma emits_same_events: "vs_events s' = vs_events s \<Longrightarrow> emits P s s'"
  by (simp add: emits_def)

lemma emits_one: "vs_events s' = vs_events s @ [e] \<Longrightarrow> P e \<Longrightarrow> emits P s s'"
  by (auto simp: emits_def)

subsection \<open>Paging\<close>

lemma collect_pages_spec:
  assumes ret: "collect_pages pg ev keep p acc s = Some (r, s')"
  shows "\<exists>pages. vs_events s' = vs_events s @ map (\<lambda>xs. ev (Inr xs)) pages
             @ (case r of Inl e \<Rightarrow> [ev (Inl e)] | Inr _ \<Rightarrow> [])
           \<and> (\<forall>xs. r = Inr xs \<longrightarrow> xs = acc @ filter keep (concat pages))"
proof (rule collect_pages.raw_induct [where
      P = "\<lambda>pg ev keep p acc s y. case y of (r, s') \<Rightarrow> \<exists>pages. vs_events s' = vs_events s
             @ map (\<lambda>xs. ev (Inr xs)) pages @ (case r of Inl e \<Rightarrow> [ev (Inl e)] | Inr _ \<Rightarrow> [])
           \<and> (\<forall>xs. r = Inr xs \<longrightarrow> xs = acc @ filter keep (concat pages))",
      OF _ ret, unfolded split_conv], goal_cases)
  case (1 f pg ev keep p acc s y)
  obtain r s' where y: "y = (r, s')" by (cases y)
  obtain q p' w where np: "next_page pg p (vs_world s) = (q, p', w)" by (cases "next_page pg p (vs_world s)")
  let ?s = "s\<lparr>vs_events := vs_events s @ [ev q], vs_world := w\<rparr>"
  show ?case
  proof (cases "has_more_pages pg p")
    case False
    with 1(2) y show ?thesis by (auto intro: exI [of _ "[]"])
  next
    case more: True
    show ?thesis
    proof (cases q)
      case (Inl e)
      with 1(2) y more np show ?thesis by (auto intro!: exI [of _ "[]"])
    next
      case (Inr xs)
      with 1(2) y more np have "f pg ev keep p' (acc @ filter keep xs) ?s = Some (r, s')"
        by simp
      from 1(1) [OF this] obtain pages where
        "vs_events s' = vs_events s @ [ev (Inr xs)] @ map (\<lambda>xs. ev (Inr xs)) pages
           @ (case r of Inl e \<Rightarrow> [ev (Inl e)] | Inr _ \<Rightarrow> [])"
        "\<forall>ys. r = Inr ys \<longrightarrow> ys = acc @ filter keep xs @ filter keep (concat pages)"
        using Inr by auto
      then show ?thesis unfolding y by (auto intro!: exI [of _ "xs # pages"])
    qed
  qed
qed

lemma collect_pages_emits:
  assumes "collect_pages pg ev keep p acc s = Some (r, s')" and "\<And>x. P (ev x)"
  shows "emits P s s'"
  using collect_pages_spec [OF assms(1)] assms(2)
  by (auto simp: emits_def list_all_iff split: sum.splits)

subsection \<open>Deleting one interface\<close>

lemma delete_eni_attempts_spec:
  "delete_eni_attempts api rt tm i n le s = ((g, r), s') \<Longrightarrow>
   \<exists>os. vs_events s' = vs_events s @ map (DeleteEni i) os \<and> length os \<le> n
      \<and> (\<forall>q \<in> set (butlast os). \<not> gone q)
      \<and> (r = None \<longleftrightarrow> os \<noteq> [] \<and> gone (last os))
      \<and> (g \<longleftrightarrow> os \<noteq> [] \<and> gone (last os) \<and> last os \<noteq> None)"
proof (induction n arbitrary: le s)
  case 0
  then show ?case by (auto intro: exI [of _ "[]"])
next
  case (Suc n)
  obtain q s1 where c: "api_call (DeleteEni i) (api_DeleteNetworkInterface api i) s = (q, s1)"
    by (cases "api_call (DeleteEni i) (api_DeleteNetworkInterface api i) s")
  note ev = emits_call [OF c]
  show ?case
  proof (cases "gone q")
    case True
    with Suc.prems c ev show ?thesis
      by (auto simp: gone_def split: option.splits if_splits intro!: exI [of _ "[q]"])
  next
    case False
    then obtain err where q: "q = Some err"
      and ne: "\<not> contains (error_text err) ''InvalidNetworkInterfaceID''"
      by (auto simp: gone_def split: option.splits)
    obtain d w where sel: "select_done rt (eniDeleteRetryDelay tm) (vs_world s1) = (d, w)"
      by (cases "select_done rt (eniDeleteRetryDelay tm) (vs_world s1)")
    show ?thesis
    proof (cases "0 < n \<and> d \<noteq> None")
      case True
      with Suc.prems c ev q ne sel False show ?thesis
        by (auto intro!: exI [of _ "[q]"])
    next
      case rec: False
      define s2 where "s2 = (if 0 < n then s1\<lparr>vs_world := w\<rparr> else s1)"
      have s2: "vs_events s2 = vs_events s1" by (simp add: s2_def)
      have "delete_eni_attempts api rt tm i n (Some err) s2 = ((g, r), s')"
        using Suc.prems c q ne sel rec by (auto simp: s2_def split: if_splits)
      from Suc.IH [OF this] obtain os where os:
        "vs_events s' = vs_events s1 @ map (DeleteEni i) os" "length os \<le> n"
        "\<forall>q \<in> set (butlast os). \<not> gone q" "r = None \<longleftrightarrow> os \<noteq> [] \<and> gone (last os)"
        "g \<longleftrightarrow> os \<noteq> [] \<and> gone (last os) \<and> last os \<noteq> None"
        using s2 by auto
      with ev q False show ?thesis
        by (intro exI [of _ "q # os"]) auto
    qed
  qed
qed

subsection \<open>Waiting for a detached interface\<close>

definition is_describe :: "string \<Rightarrow> ec2_event \<Rightarrow> bool" where
  "is_describe i e \<longleftrightarrow> (\<exists>r. e = DescribeEni i r)"

text \<open>
  One round of the waiting loop: it returns, or it has polled the interface once and
  goes round again at least one poll interval later.
\<close>

definition describe_keeps_time :: "('p, 'w) ec2_api \<Rightarrow> 'w go_runtime \<Rightarrow> bool" where
  "describe_keeps_time api rt \<longleftrightarrow>
     (\<forall>i w. time_now rt w \<le> time_now rt (snd (api_DescribeNetworkInterfaces api i w)))"

lemma wait_eni_round:
  "(\<exists>r s'. wait_eni_loop api rt tm i dl s = Some (r, s') \<and> emits (is_describe i) s s')
   \<or> (\<exists>s2. wait_eni_loop api rt tm i dl s = wait_eni_loop api rt tm i dl s2
         \<and> emits (is_describe i) s s2 \<and> time_now rt (vs_world s) \<le> dl
         \<and> (clock_ok rt \<longrightarrow> describe_keeps_time api rt \<longrightarrow>
              time_now rt (vs_world s) + eniDetachPollInterval tm \<le> time_now rt (vs_world s2)))"
proof -
  obtain r s1 where c: "api_call (DescribeEni i) (api_DescribeNetworkInterfaces api i) s = (r, s1)"
    by (cases "api_call (DescribeEni i) (api_DescribeNetworkInterfaces api i) s")
  obtain d w where sel: "select_done rt (eniDetachPollInterval tm) (vs_world s1) = (d, w)"
    by (cases "select_done rt (eniDetachPollInterval tm) (vs_world s1)")
  let ?s2 = "s1\<lparr>vs_world := w\<rparr>"
  have em: "emits (is_describe i) s s1"
    by (rule emits_one [OF emits_call [OF c]]) (simp add: is_describe_def)
  then have em2: "emits (is_describe i) s ?s2" by (simp add: emits_def)
  have t1: "describe_keeps_time api rt \<Longrightarrow> time_now rt (vs_world s) \<le> time_now rt (vs_world s1)"
    using c by (auto simp: describe_keeps_time_def api_call_def split: prod.splits) (metis snd_conv)
  have t2: "clock_ok rt \<Longrightarrow> d = None \<Longrightarrow>
      time_now rt (vs_world s1) + eniDetachPollInterval tm \<le> time_now rt w"
    using sel by (auto simp: clock_ok_def)
  show ?thesis
  proof (cases "dl < time_now rt (vs_world s)")
    case True
    then show ?thesis by (auto simp: wait_eni_loop.simps)
  next
    case False
    show ?thesis
    proof (cases "\<exists>ni nis. r = Inr (ni # nis) \<and> ni_Status ni \<noteq> ''available'' \<and> d = None")
      case True
      then have "wait_eni_loop api rt tm i dl s = wait_eni_loop api rt tm i dl ?s2"
        using False c sel by (subst wait_eni_loop.simps) auto
      moreover have "clock_ok rt \<Longrightarrow> describe_keeps_time api rt \<Longrightarrow>
          time_now rt (vs_world s) + eniDetachPollInterval tm \<le> time_now rt (vs_world ?s2)"
        using t1 t2 True by fastforce
      ultimately show ?thesis using False em2 by (intro disjI2 exI [of _ ?s2]) auto
    next
      case stop: False
      then have "\<exists>q s'. wait_eni_loop api rt tm i dl s = Some (q, s') \<and> s' \<in> {s1, ?s2}"
        using False c sel
        by (subst wait_eni_loop.simps) (auto split: sum.splits list.splits option.splits)
      then show ?thesis using em em2 by auto
    qed
  qed
qed

lemma wait_eni_terminates:
  assumes "clock_ok rt" and "describe_keeps_time api rt" and "0 < eniDetachPollInterval tm"
  shows "\<exists>r s'. wait_eni_loop api rt tm i dl s = Some (r, s') \<and> emits (is_describe i) s s'"
proof (induction "nat (dl + 1 - time_now rt (vs_world s))" arbitrary: s rule: less_induct)
  case less
  from wait_eni_round [of api rt tm i dl s] consider
    "\<exists>r s'. wait_eni_loop api rt tm i dl s = Some (r, s') \<and> emits (is_describe i) s s'"
  | s2 where "wait_eni_loop api rt tm i dl s = wait_eni_loop api rt tm i dl s2"
      "emits (is_describe i) s s2" "time_now rt (vs_world s) \<le> dl"
      "time_now rt (vs_world s) + eniDetachPollInterval tm \<le> time_now rt (vs_world s2)"
    using assms by auto
  then show ?case
  proof cases
    case 1
    then show ?thesis .
  next
    case 2
    with assms(3) have "nat (dl + 1 - time_now rt (vs_world s2)) < nat (dl + 1 - time_now rt (vs_world s))"
      by linarith
    from less [OF this] 2 show ?thesis by (metis emits_trans)
  qed
qed

lemma wait_eni_emits:
  assumes ret: "wait_eni_loop api rt tm i dl s = Some (r, s')"
  shows "emits (is_describe i) s s'"
proof (rule wait_eni_loop.raw_induct [where
      P = "\<lambda>api rt tm i dl s y. emits (is_describe i) s (snd y)", OF _ ret, unfolded snd_conv], goal_cases)
  case (1 f api rt tm i dl s y)
  obtain r s1 where c: "api_call (DescribeEni i) (api_DescribeNetworkInterfaces api i) s = (r, s1)"
    by (cases "api_call (DescribeEni i) (api_DescribeNetworkInterfaces api i) s")
  have em: "emits (is_describe i) s s1"
    by (rule emits_one [OF emits_call [OF c]]) (simp add: is_describe_def)
  then have em2: "emits (is_describe i) s (s1\<lparr>vs_world := w\<rparr>)" for w by (simp add: emits_def)
  have step: "f api rt tm i dl (s1\<lparr>vs_world := w\<rparr>) = Some y \<Longrightarrow> emits (is_describe i) s (snd y)" for w
    using emits_trans [OF em2 1(1)] by blast
  from 1(2) c em em2 step show ?case
    by (auto simp: Let_def split: if_splits sum.splits list.splits option.splits prod.splits)
qed

subsection \<open>The interface phase\<close>

lemma emits_mono: "emits P s s' \<Longrightarrow> (\<And>e. P e \<Longrightarrow> Q e) \<Longrightarrow> emits Q s s'"
  by (auto simp: emits_def list_all_iff)

lemma emits_keeps: "emits P s s' \<Longrightarrow> e \<in> set (vs_events s) \<Longrightarrow> e \<in> set (vs_events s')"
  by (auto simp: emits_def)

lemma delete_eni_emits:
  assumes "deleteENIWithRetry api rt tm i s = ((g, r), s')"
  shows "emits is_eni_op s s' \<and> (r = None \<longrightarrow> (\<exists>q. DeleteEni i q \<in> set (vs_events s') \<and> gone q))"
proof -
  from assms obtain os where os: "vs_events s' = vs_events s @ map (DeleteEni i) os"
    "r = None \<longleftrightarrow> os \<noteq> [] \<and> gone (last os)"
    unfolding deleteENIWithRetry_def by (metis delete_eni_attempts_spec)
  then have "emits is_eni_op s s'" by (auto simp: emits_def list_all_iff)
  moreover have "DeleteEni i (last os) \<in> set (vs_events s')" if "os \<noteq> []"
    using os(1) that by simp
  ultimately show ?thesis using os(2) by blast
qed

lemma detach_eni_emits:
  "detach_eni api rt tm eni s = Some (r, s') \<Longrightarrow> emits is_eni_op s s'"
  by (auto simp: detach_eni_def waitForENIAvailable_def Let_def is_describe_def
      split: option.splits prod.splits Option.bind_splits
      dest!: emits_call wait_eni_emits
      intro: emits_one emits_trans emits_mono [of "is_describe i" for i])
     (fastforce simp: emits_def list_all_iff is_describe_def)+

lemma cleanup_eni_emits:
  assumes "cleanup_eni api rt tm eni s = Some (r, s')"
  shows "emits is_eni_op s s' \<and>
    (r = None \<longrightarrow> (\<exists>q. DeleteEni (aws_ToString api (ni_NetworkInterfaceId eni)) q \<in> set (vs_events s') \<and> gone q))"
proof -
  let ?i = "aws_ToString api (ni_NetworkInterfaceId eni)"
  from assms obtain r1 s1 where d: "detach_eni api rt tm eni s = Some (r1, s1)"
    by (auto simp: cleanup_eni_def Let_def split: Option.bind_splits)
  obtain g q s2 where k: "deleteENIWithRetry api rt tm ?i s1 = ((g, q), s2)"
    by (metis surj_pair)
  note em = emits_trans [OF detach_eni_emits [OF d] conjunct1 [OF delete_eni_emits [OF k]]]
  have "emits is_eni_op s s' \<and> (r = None \<longrightarrow> q = None \<and> vs_events s' = vs_events s2)"
    using assms d k em detach_eni_emits [OF d]
    by (auto simp: cleanup_eni_def Let_def emits_def split: option.splits if_splits)
  then show ?thesis using delete_eni_emits [OF k] by auto
qed

lemma cleanup_eni_list_emits:
  "cleanup_eni_list api rt tm enis s = Some (r, s') \<Longrightarrow> emits is_eni_op s s' \<and>
    (r = None \<longrightarrow> (\<forall>eni \<in> set enis. \<exists>q. DeleteEni (aws_ToString api (ni_NetworkInterfaceId eni)) q
                                     \<in> set (vs_events s') \<and> gone q))"
proof (induction enis arbitrary: s)
  case Nil
  then show ?case by simp
next
  case (Cons eni enis)
  then obtain r1 s1 where c: "cleanup_eni api rt tm eni s = Some (r1, s1)"
    by (auto split: Option.bind_splits)
  note em = cleanup_eni_emits [OF c]
  show ?case
  proof (cases r1)
    case None
    with Cons.prems c have l: "cleanup_eni_list api rt tm enis s1 = Some (r, s')" by simp
    note rest = Cons.IH [OF l]
    then show ?thesis using em None emits_keeps [of is_eni_op s1 s']
      by (auto intro: emits_trans)
  next
    case (Some e)
    with Cons.prems c em show ?thesis by auto
  qed
qed

lemma cleanupENIs_events:
  assumes "cleanupENIs api rt tm vpc s = Some (r, s')"
  shows "\<exists>pages err ops. vs_events s' = vs_events s @ map (\<lambda>xs. EniPage (Inr xs)) pages
            @ map (\<lambda>e. EniPage (Inl e)) err @ ops
       \<and> list_all is_eni_op ops \<and> (r = None \<longrightarrow> err = [] \<and> (\<forall>eni \<in> set (concat pages).
            \<exists>q. DeleteEni (aws_ToString api (ni_NetworkInterfaceId eni)) q \<in> set (vs_events s') \<and> gone q))"
proof -
  from assms obtain r1 s1 where
    c: "collect_pages (eni_pager api) EniPage (\<lambda>_. True) (new_pager (eni_pager api) vpc) [] s = Some (r1, s1)"
    by (auto simp: cleanupENIs_def split: Option.bind_splits)
  from collect_pages_spec [OF c] obtain pages where pages:
    "vs_events s1 = vs_events s @ map (\<lambda>xs. EniPage (Inr xs)) pages
       @ (case r1 of Inl e \<Rightarrow> [EniPage (Inl e)] | Inr _ \<Rightarrow> [])"
    "\<forall>xs. r1 = Inr xs \<longrightarrow> xs = concat pages" by auto
  show ?thesis
  proof (cases r1)
    case (Inl e)
    with assms c pages show ?thesis
      by (intro exI [of _ pages] exI [of _ "[e]"] exI [of _ "[]"]) (auto simp: cleanupENIs_def)
  next
    case (Inr enis)
    define s2 where "s2 = logf (''Found %d ENIs in VPC %s'' @ nl) [FInt (int (length enis)), FStr vpc] s1"
    show ?thesis
    proof (cases "enis = []")
      case True
      with assms c pages Inr show ?thesis
        by (intro exI [of _ pages] exI [of _ "[]"]) (auto simp: cleanupENIs_def)
    next
      case False
      with assms c Inr have "cleanup_eni_list api rt tm enis s2 = Some (r, s')"
        by (simp add: cleanupENIs_def s2_def)
      from cleanup_eni_list_emits [OF this] obtain ops where
        "vs_events s' = vs_events s1 @ ops" "list_all is_eni_op ops"
        "r = None \<Longrightarrow> \<forall>eni \<in> set enis. \<exists>q. DeleteEni (aws_ToString api (ni_NetworkInterfaceId eni)) q
                                     \<in> set (vs_events s') \<and> gone q"
        by (auto simp: emits_def s2_def)
      with pages Inr show ?thesis
        by (intro exI [of _ pages] exI [of _ "[]"] exI [of _ ops]) auto
    qed
  qed
qed

subsection \<open>Sweeps that collect errors\<close>

text \<open>
  The deletion loops over security groups and over subnets share a contract: each
  element gets exactly one client call, in order, and a failed call adds one message.
\<close>

locale delete_sweep =
  fixes step :: "'x \<Rightarrow> string list \<times> 'w vpc_state \<Rightarrow> string list \<times> 'w vpc_state"
    and ev :: "'x \<Rightarrow> go_error option \<Rightarrow> ec2_event"
    and msg :: "'x \<Rightarrow> go_error \<Rightarrow> string"
  assumes step_law: "step x (errs, s) = (errs', s') \<Longrightarrow>
    \<exists>q. vs_events s' = vs_events s @ [ev x q]
      \<and> errs' = errs @ (case q of None \<Rightarrow> [] | Some e \<Rightarrow> [msg x e])"
begin

lemma sweep:
  "fold step xs (errs, s) = (errs', s') \<Longrightarrow>
   \<exists>os. length os = length xs \<and> vs_events s' = vs_events s @ map2 ev xs os
      \<and> errs' = errs @ concat (map2 (\<lambda>x q. case q of None \<Rightarrow> [] | Some e \<Rightarrow> [msg x e]) xs os)"
proof (induction xs arbitrary: errs s)
  case Nil
  then show ?case by simp
next
  case (Cons x xs)
  obtain errs1 s1 where st: "step x (errs, s) = (errs1, s1)" by (cases "step x (errs, s)")
  from step_law [OF this] obtain q where q: "vs_events s1 = vs_events s @ [ev x q]"
    "errs1 = errs @ (case q of None \<Rightarrow> [] | Some e \<Rightarrow> [msg x e])" by blast
  from Cons.prems st have "fold step xs (errs1, s1) = (errs', s')" by simp
  from Cons.IH [OF this] obtain os where "length os = length xs"
    "vs_events s' = vs_events s1 @ map2 ev xs os"
    "errs' = errs1 @ concat (map2 (\<lambda>x q. case q of None \<Rightarrow> [] | Some e \<Rightarrow> [msg x e]) xs os)"
    by blast
  with q show ?case by (intro exI [of _ "q # os"]) auto
qed

lemma sweep_clean:
  assumes "fold step xs (errs, s) = ([], s')"
  shows "errs = [] \<and> vs_events s' = vs_events s @ map (\<lambda>x. ev x None) xs"
proof -
  from sweep [OF assms] obtain os where os: "length os = length xs"
    "vs_events s' = vs_events s @ map2 ev xs os"
    "[] = errs @ concat (map2 (\<lambda>x q. case q of None \<Rightarrow> [] | Some e \<Rightarrow> [msg x e]) xs os)"
    by blast
  have "os = replicate (length xs) None"
    using os(1,3) by (induction xs os rule: list_induct2') (auto split: option.splits)
  moreover have "map2 ev xs (replicate (length xs) None) = map (\<lambda>x. ev x None) xs"
    by (induction xs) auto
  ultimately show ?thesis using os by simp
qed

lemma sweep_reports:
  assumes "fold step xs ([], s) = (errs', s')"
  shows "\<exists>es. vs_events s' = vs_events s @ es \<and>
    (\<forall>e \<in> set es. \<exists>x \<in> set xs. \<exists>q. e = ev x q \<and> (\<forall>err. q = Some err \<longrightarrow> msg x err \<in> set errs'))"
proof -
  from sweep [OF assms] obtain os where os: "length os = length xs"
    "vs_events s' = vs_events s @ map2 ev xs os"
    "errs' = concat (map2 (\<lambda>x q. case q of None \<Rightarrow> [] | Some e \<Rightarrow> [msg x e]) xs os)" by auto
  have "\<exists>x \<in> set xs. \<exists>q. e = ev x q \<and> (\<forall>err. q = Some err \<longrightarrow> msg x err \<in> set errs')"
    if "e \<in> set (map2 ev xs os)" for e
  proof -
    from that obtain x q where xq: "(x, q) \<in> set (zip xs os)" "e = ev x q" by auto
    then have "x \<in> set xs" by (meson in_set_zipE)
    moreover have "msg x err \<in> set errs'" if "q = Some err" for err
      using xq that os(3) by force
    ultimately show ?thesis using xq(2) by blast
  qed
  with os(2) show ?thesis by blast
qed

end

interpretation sg_sweep: delete_sweep "delete_sg api" "\<lambda>sg. DeleteSg (sg_GroupId sg)"
  "\<lambda>sg err. fmt_Sprintf ''SG %s (%s): %v''
     [FStr (aws_ToString api (sg_GroupId sg)), FStr (aws_ToString api (sg_GroupName sg)), FErr err]"
  for api
  by unfold_locales
     (auto simp: delete_sg_def Let_def dest!: emits_call split: prod.splits option.splits)

interpretation subnet_sweep: delete_sweep "delete_subnet api" "\<lambda>sn. DeleteSubnet (sn_SubnetId sn)"
  "\<lambda>sn err. fmt_Sprintf ''subnet %s: %v'' [FStr (aws_ToString api (sn_SubnetId sn)), FErr err]"
  for api
  by unfold_locales
     (auto simp: delete_subnet_def Let_def dest!: emits_call split: prod.splits option.splits)

subsection \<open>The security group phase\<close>

text \<open>Revocations touch only the groups given, and every failure adds a message.\<close>

definition revokes_one_of :: "security_group set \<Rightarrow> ec2_event \<Rightarrow> bool" where
  "revokes_one_of G e \<longleftrightarrow> is_revoke e \<and>
     (\<exists>sg \<in> G. \<exists>ps q. e = RevokeIngress (sg_GroupId sg) ps q \<or> e = RevokeEgress (sg_GroupId sg) ps q)"

lemma revokes_one_of_mono: "revokes_one_of G e \<Longrightarrow> G \<subseteq> H \<Longrightarrow> revokes_one_of H e"
  by (auto simp: revokes_one_of_def)

lemma revoke_sg_emits:
  "revoke_sg api sg (errs, s) = (errs', s') \<Longrightarrow> emits (revokes_one_of {sg}) s s' \<and> prefix errs errs'"
  by (auto simp: revoke_sg_def Let_def revokes_one_of_def emits_def
      split: if_splits prod.splits option.splits dest!: emits_call)

lemma revoke_fold_emits:
  "fold (revoke_sg api) sgs (errs, s) = (errs', s') \<Longrightarrow>
     emits (revokes_one_of (set sgs)) s s' \<and> prefix errs errs'"
proof (induction sgs arbitrary: errs s)
  case Nil
  then show ?case by simp
next
  case (Cons sg sgs)
  obtain errs1 s1 where st: "revoke_sg api sg (errs, s) = (errs1, s1)" by (metis surj_pair)
  with Cons.prems have "fold (revoke_sg api) sgs (errs1, s1) = (errs', s')" by simp
  from Cons.IH [OF this] have
    "emits (revokes_one_of (set (sg # sgs))) s1 s'" and "prefix errs1 errs'"
    by (auto intro: emits_mono revokes_one_of_mono)
  moreover from revoke_sg_emits [OF st] have
    "emits (revokes_one_of (set (sg # sgs))) s s1" and "prefix errs errs1"
    by (auto intro: emits_mono revokes_one_of_mono)
  ultimately show ?case by (auto intro: emits_trans prefix_order.trans)
qed

lemma sg_issues_text:
  "error_text (Errorf (''failed to clean up %d security group issues:'' @ nl @ ''%s'') [FInt n, FStr t]) =
     ''failed to clean up '' @ show_int n @ '' security group issues:'' @ nl @ t"
  by (simp add: nl_def)

lemma subnet_issues_text:
  "error_text (Errorf (''failed to delete %d subnets:'' @ nl @ ''%s'') [FInt n, FStr t]) =
     ''failed to delete '' @ show_int n @ '' subnets:'' @ nl @ t"
  by (simp add: nl_def)

definition sg_message :: "('p, 'w) ec2_api \<Rightarrow> security_group \<Rightarrow> go_error \<Rightarrow> string" where
  "sg_message api sg err = fmt_Sprintf ''SG %s (%s): %v''
     [FStr (aws_ToString api (sg_GroupId sg)), FStr (aws_ToString api (sg_GroupName sg)), FErr err]"

definition subnet_message :: "('p, 'w) ec2_api \<Rightarrow> subnet \<Rightarrow> go_error \<Rightarrow> string" where
  "subnet_message api sn err =
     fmt_Sprintf ''subnet %s: %v'' [FStr (aws_ToString api (sn_SubnetId sn)), FErr err]"

definition sg_reported :: "('p, 'w) ec2_api \<Rightarrow> go_error option \<Rightarrow> security_group set \<Rightarrow> ec2_event \<Rightarrow> bool" where
  "sg_reported api r G e \<longleftrightarrow> (\<exists>sg \<in> G. \<exists>q. e = DeleteSg (sg_GroupId sg) q \<and>
     (\<forall>x. q = Some x \<longrightarrow> (\<exists>m. r = Some m \<and> contains (error_text m) (sg_message api sg x))))"

definition subnet_reported :: "('p, 'w) ec2_api \<Rightarrow> go_error option \<Rightarrow> subnet set \<Rightarrow> ec2_event \<Rightarrow> bool" where
  "subnet_reported api r G e \<longleftrightarrow> (\<exists>sn \<in> G. \<exists>q. e = DeleteSubnet (sn_SubnetId sn) q \<and>
     (\<forall>x. q = Some x \<longrightarrow> (\<exists>m. r = Some m \<and> contains (error_text m) (subnet_message api sn x))))"

lemma sweep_security_groups_events:
  assumes "sweep_security_groups api sgs s = (r, s')"
  shows "\<exists>revs dels. vs_events s' = vs_events s @ revs @ dels
       \<and> list_all (revokes_one_of (set sgs)) revs \<and> list_all (sg_reported api r (set sgs)) dels
       \<and> (r = None \<longrightarrow> dels = map (\<lambda>sg. DeleteSg (sg_GroupId sg) None) sgs)"
proof -
  obtain re s1 where rev: "fold (revoke_sg api) sgs ([], s) = (re, s1)" by (metis surj_pair)
  obtain de s2 where del: "fold (delete_sg api) sgs ([], s1) = (de, s2)" by (metis surj_pair)
  have r: "s' = s2" "r = (if re @ de = [] then None else
      Some (Errorf (''failed to clean up %d security group issues:'' @ nl @ ''%s'')
        [FInt (int (length (re @ de))), FStr (str_join nl (re @ de))]))"
    using assms by (auto simp: sweep_security_groups_def rev del Let_def split: if_splits)
  have report: "\<exists>m. r = Some m \<and> contains (error_text m) x" if "x \<in> set (re @ de)" for x
    using that contains_join [OF that, of nl] unfolding r(2)
    by (metis contains_appendR empty_iff list.set(1) sg_issues_text)
  from revoke_fold_emits [OF rev] obtain revs where revs:
    "vs_events s1 = vs_events s @ revs" "list_all (revokes_one_of (set sgs)) revs"
    by (auto simp: emits_def)
  from sg_sweep.sweep_reports [OF del] obtain dels where dels: "vs_events s2 = vs_events s1 @ dels"
    "\<forall>e \<in> set dels. \<exists>sg \<in> set sgs. \<exists>q. e = DeleteSg (sg_GroupId sg) q \<and>
       (\<forall>x. q = Some x \<longrightarrow> sg_message api sg x \<in> set de)"
    unfolding sg_message_def by blast
  have "list_all (sg_reported api r (set sgs)) dels"
    using dels(2) report by (fastforce simp: list_all_iff sg_reported_def)
  moreover have "dels = map (\<lambda>sg. DeleteSg (sg_GroupId sg) None) sgs" if "r = None"
    using sg_sweep.sweep_clean [of api sgs "[]" s1 s2] del dels(1) that r(2) by (auto split: if_splits)
  ultimately show ?thesis using r(1) revs dels(1) by auto
qed

lemma sweep_subnets_events:
  assumes "sweep_subnets api sns s = (r, s')"
  shows "\<exists>dels. vs_events s' = vs_events s @ dels \<and> list_all (subnet_reported api r (set sns)) dels
       \<and> (r = None \<longrightarrow> dels = map (\<lambda>sn. DeleteSubnet (sn_SubnetId sn) None) sns)"
proof -
  obtain de s1 where del: "fold (delete_subnet api) sns ([], s) = (de, s1)" by (metis surj_pair)
  have r: "s' = s1" "r = (if de = [] then None else
      Some (Errorf (''failed to delete %d subnets:'' @ nl @ ''%s'')
        [FInt (int (length de)), FStr (str_join nl de)]))"
    using assms by (auto simp: sweep_subnets_def del Let_def split: if_splits)
  have report: "\<exists>m. r = Some m \<and> contains (error_text m) x" if "x \<in> set de" for x
    using that contains_join [OF that, of nl] unfolding r(2)
    by (metis contains_appendR empty_iff list.set(1) subnet_issues_text)
  from subnet_sweep.sweep_reports [OF del] obtain dels where dels: "vs_events s1 = vs_events s @ dels"
    "\<forall>e \<in> set dels. \<exists>sn \<in> set sns. \<exists>q. e = DeleteSubnet (sn_SubnetId sn) q \<and>
       (\<forall>x. q = Some x \<longrightarrow> subnet_message api sn x \<in> set de)"
    unfolding subnet_message_def by blast
  have "list_all (subnet_reported api r (set sns)) dels"
    using dels(2) report by (fastforce simp: list_all_iff subnet_reported_def)
  moreover have "dels = map (\<lambda>sn. DeleteSubnet (sn_SubnetId sn) None) sns" if "r = None"
    using subnet_sweep.sweep_clean [of api sns "[]" s s1] del dels(1) that r(2) by (auto split: if_splits)
  ultimately show ?thesis using r(1) dels(1) by auto
qed

definition nondefault_groups :: "('p, 'w) ec2_api \<Rightarrow> security_group list \<Rightarrow> security_group list" where
  "nondefault_groups api sgs = filter (\<lambda>sg. aws_ToString api (sg_GroupName sg) \<noteq> ''default'') sgs"

lemma cleanupSecurityGroups_events:
  assumes "cleanupSecurityGroups api vpc s = Some (r, s')"
  shows "\<exists>pages err revs dels. vs_events s' = vs_events s @ map (\<lambda>xs. SgPage (Inr xs)) pages
            @ map (\<lambda>e. SgPage (Inl e)) err @ revs @ dels
       \<and> list_all (revokes_one_of (set (nondefault_groups api (concat pages)))) revs
       \<and> list_all (sg_reported api r (set (nondefault_groups api (concat pages)))) dels
       \<and> (r = None \<longrightarrow> err = [] \<and>
            dels = map (\<lambda>sg. DeleteSg (sg_GroupId sg) None) (nondefault_groups api (concat pages)))"
proof -
  from assms obtain r1 s1 where
    c: "collect_pages (sg_pager api) SgPage (\<lambda>sg. aws_ToString api (sg_GroupName sg) \<noteq> ''default'')
          (new_pager (sg_pager api) vpc) [] s = Some (r1, s1)"
    by (auto simp: cleanupSecurityGroups_def split: Option.bind_splits)
  from collect_pages_spec [OF c] obtain pages where pages:
    "vs_events s1 = vs_events s @ map (\<lambda>xs. SgPage (Inr xs)) pages
       @ (case r1 of Inl e \<Rightarrow> [SgPage (Inl e)] | Inr _ \<Rightarrow> [])"
    "\<forall>xs. r1 = Inr xs \<longrightarrow> xs = nondefault_groups api (concat pages)"
    unfolding nondefault_groups_def by auto
  show ?thesis
  proof (cases r1)
    case (Inl e)
    with assms c pages show ?thesis
      by (intro exI [of _ pages] exI [of _ "[e]"] exI [of _ "[]"]) (auto simp: cleanupSecurityGroups_def)
  next
    case (Inr sgs)
    show ?thesis
    proof (cases "sgs = []")
      case True
      with assms c pages Inr show ?thesis
        by (intro exI [of _ pages] exI [of _ "[]"]) (auto simp: cleanupSecurityGroups_def)
    next
      case False
      define s2 where "s2 = logf (''Found %d non-default security groups in VPC %s'' @ nl)
        [FInt (int (length sgs)), FStr vpc] s1"
      have s2: "vs_events s2 = vs_events s1" "sweep_security_groups api sgs s2 = (r, s')"
        using assms c Inr False by (simp_all add: cleanupSecurityGroups_def s2_def)
      from sweep_security_groups_events [OF s2(2)] obtain revs dels where
        "vs_events s' = vs_events s2 @ revs @ dels"
        "list_all (revokes_one_of (set sgs)) revs" "list_all (sg_reported api r (set sgs)) dels"
        "r = None \<longrightarrow> dels = map (\<lambda>sg. DeleteSg (sg_GroupId sg) None) sgs" by blast
      with s2(1) pages Inr show ?thesis
        by (intro exI [of _ pages] exI [of _ "[] :: go_error list"] exI [of _ revs] exI [of _ dels]) auto
    qed
  qed
qed

subsection \<open>The subnet phase\<close>

lemma cleanupSubnets_events:
  assumes "cleanupSubnets api vpc s = Some (r, s')"
  shows "\<exists>pages err dels. vs_events s' = vs_events s @ map (\<lambda>xs. SubnetPage (Inr xs)) pages
            @ map (\<lambda>e. SubnetPage (Inl e)) err @ dels
       \<and> list_all (subnet_reported api r (set (concat pages))) dels
       \<and> (r = None \<longrightarrow> err = [] \<and> dels = map (\<lambda>sn. DeleteSubnet (sn_SubnetId sn) None) (concat pages))"
proof -
  from assms obtain r1 s1 where
    c: "collect_pages (subnet_pager api) SubnetPage (\<lambda>_. True) (new_pager (subnet_pager api) vpc) [] s
          = Some (r1, s1)"
    by (auto simp: cleanupSubnets_def split: Option.bind_splits)
  from collect_pages_spec [OF c] obtain pages where pages:
    "vs_events s1 = vs_events s @ map (\<lambda>xs. SubnetPage (Inr xs)) pages
       @ (case r1 of Inl e \<Rightarrow> [SubnetPage (Inl e)] | Inr _ \<Rightarrow> [])"
    "\<forall>xs. r1 = Inr xs \<longrightarrow> xs = concat pages" by auto
  show ?thesis
  proof (cases r1)
    case (Inl e)
    with assms c pages show ?thesis
      by (intro exI [of _ pages] exI [of _ "[e]"] exI [of _ "[]"]) (auto simp: cleanupSubnets_def)
  next
    case (Inr sns)
    show ?thesis
    proof (cases "sns = []")
      case True
      with assms c pages Inr show ?thesis
        by (intro exI [of _ pages] exI [of _ "[]"]) (auto simp: cleanupSubnets_def)
    next
      case False
      define s2 where "s2 = logf (''Found %d subnets in VPC %s'' @ nl)
        [FInt (int (length sns)), FStr vpc] s1"
      have s2: "vs_events s2 = vs_events s1" "sweep_subnets api sns s2 = (r, s')"
        using assms c Inr False by (simp_all add: cleanupSubnets_def s2_def)
      from sweep_subnets_events [OF s2(2)] obtain dels where
        "vs_events s' = vs_events s2 @ dels" "list_all (subnet_reported api r (set sns)) dels"
        "r = None \<longrightarrow> dels = map (\<lambda>sn. DeleteSubnet (sn_SubnetId sn) None) sns" by blast
      with s2(1) pages Inr show ?thesis
        by (intro exI [of _ pages] exI [of _ "[] :: go_error list"] exI [of _ dels]) auto
    qed
  qed
qed

subsection \<open>The phases of a run\<close>

definition fresh_run :: "'w \<Rightarrow> 'w vpc_state" where
  "fresh_run w = \<lparr>vs_events = [], vs_log = [], vs_world = w\<rparr>"

lemma fresh_run_events [simp]: "vs_events (fresh_run w) = []"
  by (simp add: fresh_run_def)

lemma CleanupVPCResources_cases:
  assumes "CleanupVPCResources api rt tm vpc s = Some (r, s')"
  obtains (enis) e where "cleanupENIs api rt tm vpc s = Some (Some e, s')"
      "r = Some (Errorf ''cleaning up ENIs in VPC %s: %w'' [FStr vpc, FErr e])"
    | (groups) s1 e where "cleanupENIs api rt tm vpc s = Some (None, s1)"
      "cleanupSecurityGroups api vpc s1 = Some (Some e, s')"
      "r = Some (Errorf ''cleaning up security groups in VPC %s: %w'' [FStr vpc, FErr e])"
    | (subnets) s1 s2 r3 s3 where "cleanupENIs api rt tm vpc s = Some (None, s1)"
      "cleanupSecurityGroups api vpc s1 = Some (None, s2)"
      "cleanupSubnets api vpc s2 = Some (r3, s3)" "vs_events s' = vs_events s3"
      "r = map_option (\<lambda>e. Errorf ''cleaning up subnets in VPC %s: %w'' [FStr vpc, FErr e]) r3"
  using assms unfolding CleanupVPCResources_def
  by (auto split: Option.bind_splits option.splits)

section \<open>Properties\<close>

definition enis_deleted :: "('p, 'w) ec2_api \<Rightarrow> ec2_event list \<Rightarrow> bool" where
  "enis_deleted api es \<longleftrightarrow> (\<forall>page eni. EniPage (Inr page) \<in> set es \<longrightarrow> eni \<in> set page \<longrightarrow>
     (\<exists>q. DeleteEni (aws_ToString api (ni_NetworkInterfaceId eni)) q \<in> set es \<and> gone q))"

definition groups_deleted :: "('p, 'w) ec2_api \<Rightarrow> ec2_event list \<Rightarrow> bool" where
  "groups_deleted api es \<longleftrightarrow> (\<forall>page sg. SgPage (Inr page) \<in> set es \<longrightarrow> sg \<in> set page \<longrightarrow>
     aws_ToString api (sg_GroupName sg) \<noteq> ''default'' \<longrightarrow> DeleteSg (sg_GroupId sg) None \<in> set es)"

definition subnets_deleted :: "ec2_event list \<Rightarrow> bool" where
  "subnets_deleted es \<longleftrightarrow> (\<forall>page sn. SubnetPage (Inr page) \<in> set es \<longrightarrow> sn \<in> set page \<longrightarrow>
     DeleteSubnet (sn_SubnetId sn) None \<in> set es)"

definition no_page_failed :: "ec2_event list \<Rightarrow> bool" where
  "no_page_failed es \<longleftrightarrow> (\<forall>e. EniPage (Inl e) \<notin> set es \<and> SgPage (Inl e) \<notin> set es \<and> SubnetPage (Inl e) \<notin> set es)"

definition eni_phase :: "ec2_event \<Rightarrow> bool" where
  "eni_phase e \<longleftrightarrow> (\<exists>p. e = EniPage p) \<or> is_eni_op e"

lemma cleanupENIs_fresh:
  assumes "cleanupENIs api rt tm vpc (fresh_run w) = Some (r, s1)"
  shows "list_all eni_phase (vs_events s1)
    \<and> (r = None \<longrightarrow> enis_deleted api (vs_events s1) \<and> no_page_failed (vs_events s1))"
proof -
  from cleanupENIs_events [OF assms, unfolded fresh_run_events append_Nil] obtain pages err ops where e:
    "vs_events s1 = map (\<lambda>xs. EniPage (Inr xs)) pages @ map (\<lambda>e. EniPage (Inl e)) err @ ops"
    "list_all is_eni_op ops" "r = None \<Longrightarrow> err = []"
    "r = None \<Longrightarrow> \<forall>eni \<in> set (concat pages).
       \<exists>q. DeleteEni (aws_ToString api (ni_NetworkInterfaceId eni)) q \<in> set (vs_events s1) \<and> gone q"
    by blast
  have ops: "\<And>p. EniPage p \<notin> set ops" "\<And>p. SgPage p \<notin> set ops" "\<And>p. SubnetPage p \<notin> set ops"
    using e(2) by (auto simp: list_all_iff)
  have "list_all eni_phase (vs_events s1)"
    using e(1,2) by (auto simp: list_all_iff eni_phase_def)
  moreover have "no_page_failed (vs_events s1)" if "r = None"
    using e(1) e(3) [OF that] ops by (auto simp: no_page_failed_def)
  moreover have "enis_deleted api (vs_events s1)" if "r = None"
    unfolding enis_deleted_def
  proof (intro allI impI)
    fix page eni
    assume "EniPage (Inr page) \<in> set (vs_events s1)" and eni: "eni \<in> set page"
    then have "page \<in> set pages" using e(1) ops by auto
    with eni e(4) [OF that]
    show "\<exists>q. DeleteEni (aws_ToString api (ni_NetworkInterfaceId eni)) q \<in> set (vs_events s1) \<and> gone q"
      by fastforce
  qed
  ultimately show ?thesis by blast
qed

lemma cleanupSecurityGroups_phase:
  assumes "cleanupSecurityGroups api vpc s1 = Some (r, s2)"
  shows "\<exists>P R D. vs_events s2 = vs_events s1 @ P @ R @ D
    \<and> list_all is_sg_page P \<and> list_all is_revoke R \<and> list_all is_sg_delete D
    \<and> (r = None \<longrightarrow> groups_deleted api (P @ R @ D) \<and> no_page_failed P \<and> (\<forall>e \<in> set D. \<exists>g. e = DeleteSg g None))"
proof -
  from cleanupSecurityGroups_events [OF assms] obtain pages err R D where e:
    "vs_events s2 = vs_events s1 @ map (\<lambda>xs. SgPage (Inr xs)) pages @ map (\<lambda>e. SgPage (Inl e)) err @ R @ D"
    "list_all (revokes_one_of (set (nondefault_groups api (concat pages)))) R"
    "list_all (sg_reported api r (set (nondefault_groups api (concat pages)))) D"
    "r = None \<longrightarrow> err = [] \<and> D = map (\<lambda>sg. DeleteSg (sg_GroupId sg) None) (nondefault_groups api (concat pages))"
    by blast
  let ?P = "map (\<lambda>xs. SgPage (Inr xs)) pages @ map (\<lambda>e. SgPage (Inl e)) err"
  have R: "list_all is_revoke R" and D: "list_all is_sg_delete D"
    using e(2,3) by (auto simp: list_all_iff revokes_one_of_def sg_reported_def)
  then have "\<And>p. SgPage p \<notin> set (R @ D)" by (auto simp: list_all_iff)
  then have "groups_deleted api (?P @ R @ D)" if "r = None"
    using e(4) that by (fastforce simp: groups_deleted_def nondefault_groups_def)
  moreover have "no_page_failed ?P \<and> (\<forall>e \<in> set D. \<exists>g. e = DeleteSg g None)" if "r = None"
    using e(4) that by (auto simp: no_page_failed_def)
  moreover have "list_all is_sg_page ?P" by (auto simp: list_all_iff)
  ultimately show ?thesis using e(1) R D by (intro exI [of _ ?P] exI [of _ R] exI [of _ D]) auto
qed

lemma cleanupSubnets_phase:
  assumes "cleanupSubnets api vpc s2 = Some (r, s3)"
  shows "\<exists>N. vs_events s3 = vs_events s2 @ N \<and> list_all is_subnet_event N
    \<and> (r = None \<longrightarrow> subnets_deleted N \<and> no_page_failed N)"
proof -
  from cleanupSubnets_events [OF assms] obtain pages err D where e:
    "vs_events s3 = vs_events s2 @ map (\<lambda>xs. SubnetPage (Inr xs)) pages @ map (\<lambda>e. SubnetPage (Inl e)) err @ D"
    "list_all (subnet_reported api r (set (concat pages))) D"
    "r = None \<longrightarrow> err = [] \<and> D = map (\<lambda>sn. DeleteSubnet (sn_SubnetId sn) None) (concat pages)"
    by blast
  let ?N = "map (\<lambda>xs. SubnetPage (Inr xs)) pages @ map (\<lambda>e. SubnetPage (Inl e)) err @ D"
  have "list_all is_subnet_event ?N"
    using e(2) by (auto simp: list_all_iff subnet_reported_def)
  moreover have "subnets_deleted ?N \<and> no_page_failed ?N" if "r = None"
    using e(3) that by (auto simp: subnets_deleted_def no_page_failed_def)
  ultimately show ?thesis using e(1) by blast
qed

lemma list_all_not_in: "list_all P xs \<Longrightarrow> \<not> P x \<Longrightarrow> x \<notin> set xs"
  by (auto simp: list_all_iff)

lemma kinds_exclude:
  "list_all is_sg_page xs \<Longrightarrow> DeleteSubnet i q \<notin> set xs" "list_all is_sg_page xs \<Longrightarrow> DeleteSg i q \<notin> set xs"
  "list_all is_revoke xs \<Longrightarrow> DeleteSubnet i q \<notin> set xs" "list_all is_revoke xs \<Longrightarrow> DeleteSg i q \<notin> set xs"
  "list_all is_sg_delete xs \<Longrightarrow> DeleteSubnet i q \<notin> set xs" "list_all is_subnet_event xs \<Longrightarrow> DeleteSg i q \<notin> set xs"
  "list_all eni_phase xs \<Longrightarrow> DeleteSg i q \<notin> set xs" "list_all eni_phase xs \<Longrightarrow> DeleteSubnet i q \<notin> set xs"
  by (erule list_all_not_in; simp add: eni_phase_def)+

text \<open>
  C1. When CleanupVPCResources returns nil, every network interface of every page the
  client listed was deleted (or was already gone), every listed security group other than
  \<open>default\<close> and every listed subnet was deleted with a successful call, and no listing failed.
\<close>

theorem cleanup_complete:
  assumes "CleanupVPCResources api rt tm vpc (fresh_run w) = Some (None, s')"
  shows "enis_deleted api (vs_events s') \<and> groups_deleted api (vs_events s')
    \<and> subnets_deleted (vs_events s') \<and> no_page_failed (vs_events s')"
  using assms
proof (cases rule: CleanupVPCResources_cases)
  case (subnets s1 s2 r3 s3)
  then have r3: "r3 = None" by simp
  from cleanupENIs_fresh [OF subnets(1)] have E: "list_all eni_phase (vs_events s1)"
    "enis_deleted api (vs_events s1)" "no_page_failed (vs_events s1)" by simp_all
  from cleanupSecurityGroups_phase [OF subnets(2)] obtain P R D where G:
    "vs_events s2 = vs_events s1 @ P @ R @ D" "list_all is_sg_page P" "list_all is_revoke R"
    "list_all is_sg_delete D" "groups_deleted api (P @ R @ D)" "no_page_failed P" by blast
  from cleanupSubnets_phase [OF subnets(3)] r3 obtain N where N:
    "vs_events s3 = vs_events s2 @ N" "list_all is_subnet_event N" "subnets_deleted N" "no_page_failed N"
    by blast
  have s': "vs_events s' = vs_events s1 @ (P @ R @ D) @ N"
    using subnets(4) G(1) N(1) by simp
  have x: "SgPage p \<notin> set (vs_events s1)" "SubnetPage p' \<notin> set (vs_events s1)" for p p'
    by (rule list_all_not_in [OF E(1)], simp add: eni_phase_def)+
  have y: "EniPage p \<notin> set (P @ R @ D)" "SubnetPage p' \<notin> set (P @ R @ D)" "SgPage q \<notin> set (R @ D)" for p p' q
    using G(2-4) by (auto simp: list_all_iff)
  have z: "EniPage p \<notin> set N" "SgPage p' \<notin> set N" for p p'
    by (rule list_all_not_in [OF N(2)], simp add:)+
  show ?thesis
    using E(2,3) G(5,6) N(3,4) x y z
    unfolding s' enis_deleted_def groups_deleted_def subnets_deleted_def no_page_failed_def
    by (intro conjI) (auto, blast+)
qed simp_all

text \<open>
  The revocations for a group: one call for its ingress rules and one for its egress rules, if it has any.
  \<open>answered calls es\<close> says that the events \<open>es\<close> are these calls in this order, each with some answer.
\<close>

definition revocations :: "security_group \<Rightarrow> (go_error option \<Rightarrow> ec2_event) list" where
  "revocations sg =
     (if sg_IpPermissions sg = [] then [] else [RevokeIngress (sg_GroupId sg) (sg_IpPermissions sg)])
     @ (if sg_IpPermissionsEgress sg = [] then [] else [RevokeEgress (sg_GroupId sg) (sg_IpPermissionsEgress sg)])"

primrec answered :: "(go_error option \<Rightarrow> ec2_event) list \<Rightarrow> ec2_event list \<Rightarrow> bool" where
  "answered [] es \<longleftrightarrow> es = []"
| "answered (c # calls) es \<longleftrightarrow> (\<exists>q es'. es = c q # es' \<and> answered calls es')"

fun call_error :: "ec2_event \<Rightarrow> go_error option" where
  "call_error (RevokeIngress g ps q) = q" | "call_error (RevokeEgress g ps q) = q" | "call_error (DeleteSg g q) = q"
| "call_error (DeleteSubnet n q) = q" | "call_error (DeleteEni n q) = q" | "call_error (DetachEni a q) = q" | "call_error _ = None"

definition group_deletions :: "security_group list \<Rightarrow> (go_error option \<Rightarrow> ec2_event) list" where
  "group_deletions sgs = map (\<lambda>sg. DeleteSg (sg_GroupId sg)) sgs"

fun listed_groups :: "ec2_event list \<Rightarrow> security_group list" where
  "listed_groups [] = []"
| "listed_groups (SgPage (Inr page) # es) = page @ listed_groups es"
| "listed_groups (_ # es) = listed_groups es"

lemma answered_append: "answered cs es \<Longrightarrow> answered ds fs \<Longrightarrow> answered (cs @ ds) (es @ fs)"
  by (induction cs arbitrary: es) auto

lemma answered_all: "answered cs es \<Longrightarrow> (\<And>c q. c \<in> set cs \<Longrightarrow> P (c q)) \<Longrightarrow> list_all P es"
  by (induction cs arbitrary: es) auto

lemma revoke_sg_answers:
  assumes "revoke_sg api sg (errs, s) = (errs', s')"
  shows "\<exists>es. vs_events s' = vs_events s @ es \<and> answered (revocations sg) es
    \<and> (errs' = [] \<longleftrightarrow> errs = [] \<and> (\<forall>e \<in> set es. call_error e = None))"
  using assms
  by (auto simp: revoke_sg_def revocations_def api_call_def Let_def split: if_splits prod.splits option.splits)

lemma revoke_fold_answers:
  assumes "fold (revoke_sg api) sgs (errs, s) = (errs', s')"
  shows "\<exists>es. vs_events s' = vs_events s @ es \<and> answered (concat (map revocations sgs)) es
    \<and> (errs' = [] \<longleftrightarrow> errs = [] \<and> (\<forall>e \<in> set es. call_error e = None))"
  using assms
proof (induction sgs arbitrary: errs s)
  case (Cons sg sgs)
  obtain errs1 s1 where r: "revoke_sg api sg (errs, s) = (errs1, s1)" by (metis surj_pair)
  from revoke_sg_answers [OF r] obtain es where es: "vs_events s1 = vs_events s @ es" "answered (revocations sg) es"
    "errs1 = [] \<longleftrightarrow> errs = [] \<and> (\<forall>e \<in> set es. call_error e = None)" by blast
  from Cons.IH [of errs1 s1] Cons.prems r obtain fs where "vs_events s' = vs_events s1 @ fs" "answered (concat (map revocations sgs)) fs"
    "errs' = [] \<longleftrightarrow> errs1 = [] \<and> (\<forall>e \<in> set fs. call_error e = None)" by auto
  with es show ?case by (intro exI [of _ "es @ fs"]) (auto intro: answered_append)
qed simp

lemma delete_fold_answers:
  assumes "fold (delete_sg api) sgs ([], s) = (errs, s')"
  shows "\<exists>es. vs_events s' = vs_events s @ es \<and> answered (group_deletions sgs) es
    \<and> (errs = [] \<longrightarrow> (\<forall>e \<in> set es. call_error e = None))"
proof -
  from sg_sweep.sweep [OF assms] obtain os where os: "length os = length sgs"
    "vs_events s' = vs_events s @ map2 (\<lambda>sg. DeleteSg (sg_GroupId sg)) sgs os" by blast
  have m: "answered (group_deletions sgs) (map2 (\<lambda>sg. DeleteSg (sg_GroupId sg)) sgs os)"
    unfolding group_deletions_def using os(1) by (induction sgs os rule: list_induct2') auto
  have "\<forall>e \<in> set (map2 (\<lambda>sg. DeleteSg (sg_GroupId sg)) sgs os). call_error e = None" if "errs = []"
    using sg_sweep.sweep_clean [of api sgs "[]" s s'] assms os(2) that by auto
  then show ?thesis using os m by auto
qed

lemma sweep_groups_answers:
  assumes "sweep_security_groups api sgs s = (r, s')"
  shows "\<exists>R D. vs_events s' = vs_events s @ R @ D \<and> answered (concat (map revocations sgs)) R \<and> answered (group_deletions sgs) D
    \<and> (r = None \<longrightarrow> (\<forall>e \<in> set (R @ D). call_error e = None))"
proof -
  obtain re s1 where rev: "fold (revoke_sg api) sgs ([], s) = (re, s1)" by (metis surj_pair)
  obtain de s2 where del: "fold (delete_sg api) sgs ([], s1) = (de, s2)" by (metis surj_pair)
  have r: "s' = s2" "r = None \<longleftrightarrow> re @ de = []"
    using assms by (auto simp: sweep_security_groups_def rev del Let_def split: if_splits)
  from revoke_fold_answers [OF rev] obtain R where
    R: "vs_events s1 = vs_events s @ R" "answered (concat (map revocations sgs)) R" "re = [] \<longrightarrow> (\<forall>e \<in> set R. call_error e = None)" by blast
  from delete_fold_answers [OF del] obtain D where
    "vs_events s2 = vs_events s1 @ D" "answered (group_deletions sgs) D" "de = [] \<longrightarrow> (\<forall>e \<in> set D. call_error e = None)" by blast
  with R show ?thesis using r by (intro exI [of _ R] exI [of _ D]) auto
qed

lemma listed_groups_pages: "listed_groups (map (\<lambda>xs. SgPage (Inr xs)) pages @ map (\<lambda>e. SgPage (Inl e)) err) = concat pages"
proof -
  have "listed_groups (map (\<lambda>e. SgPage (Inl e)) err) = []" by (induction err) auto
  then show ?thesis by (induction pages) auto
qed

text \<open>The calls of the group phase are determined by the pages that were listed.\<close>

definition group_phase :: "('p, 'w) ec2_api \<Rightarrow> ec2_event list \<Rightarrow> ec2_event list \<Rightarrow> ec2_event list \<Rightarrow> bool" where
  "group_phase api P R D \<longleftrightarrow> list_all is_sg_page P
     \<and> (if no_page_failed P
        then answered (concat (map revocations (nondefault_groups api (listed_groups P)))) R
          \<and> answered (group_deletions (nondefault_groups api (listed_groups P))) D
        else R = [] \<and> D = [])"

lemma group_phase_answers:
  assumes "cleanupSecurityGroups api vpc s = Some (r, s')"
  shows "\<exists>P R D. vs_events s' = vs_events s @ P @ R @ D \<and> group_phase api P R D
    \<and> (r = None \<longrightarrow> no_page_failed P \<and> (\<forall>e \<in> set (R @ D). call_error e = None))"
proof -
  from assms obtain r1 s1 where
    c: "collect_pages (sg_pager api) SgPage (\<lambda>sg. aws_ToString api (sg_GroupName sg) \<noteq> ''default'')
          (new_pager (sg_pager api) vpc) [] s = Some (r1, s1)"
    by (auto simp: cleanupSecurityGroups_def split: Option.bind_splits)
  define err where "err = (case r1 of Inl e \<Rightarrow> [e] | Inr _ \<Rightarrow> [])"
  from collect_pages_spec [OF c] obtain pages where pages:
    "vs_events s1 = vs_events s @ map (\<lambda>xs. SgPage (Inr xs)) pages @ map (\<lambda>e. SgPage (Inl e)) err"
    "\<forall>xs. r1 = Inr xs \<longrightarrow> xs = nondefault_groups api (concat pages)"
    unfolding nondefault_groups_def err_def by (auto split: sum.splits)
  let ?P = "map (\<lambda>xs. SgPage (Inr xs)) pages @ map (\<lambda>e. SgPage (Inl e)) err"
  have P: "list_all is_sg_page ?P" "no_page_failed ?P \<longleftrightarrow> err = []" "listed_groups ?P = concat pages"
    by (auto simp: list_all_iff no_page_failed_def listed_groups_pages) (cases err; auto)
  show ?thesis
  proof (cases "\<exists>sgs. r1 = Inr sgs \<and> sgs \<noteq> []")
    case True
    then obtain sgs where sgs: "r1 = Inr sgs" "sgs \<noteq> []" by blast
    define s2 where "s2 = logf (''Found %d non-default security groups in VPC %s'' @ nl)
        [FInt (int (length sgs)), FStr vpc] s1"
    have s2: "vs_events s2 = vs_events s1" "sweep_security_groups api sgs s2 = (r, s')"
      using assms c sgs by (simp_all add: cleanupSecurityGroups_def s2_def)
    from sweep_groups_answers [OF s2(2)] obtain R D where "vs_events s' = vs_events s1 @ R @ D"
      "answered (concat (map revocations sgs)) R" "answered (group_deletions sgs) D"
      "r = None \<longrightarrow> (\<forall>e \<in> set (R @ D). call_error e = None)" unfolding s2(1) by blast
    moreover have "err = []" "sgs = nondefault_groups api (concat pages)" using sgs pages(2) by (simp_all add: err_def)
    ultimately show ?thesis using P pages(1) unfolding group_phase_def
      by (intro exI [of _ ?P] exI [of _ R] exI [of _ D]) simp
  next
    case False
    then have "s' = s1" "r = None \<longleftrightarrow> err = []" and e: "err = [] \<longrightarrow> nondefault_groups api (concat pages) = []"
      using assms c pages(2) by (auto simp: cleanupSecurityGroups_def err_def split: sum.splits)
    then show ?thesis using P pages(1) unfolding group_phase_def
      by (intro exI [of _ ?P] exI [of _ "[]"]) (auto simp: group_deletions_def)
  qed
qed

lemma answered_kinds:
  "answered (concat (map revocations sgs)) es \<Longrightarrow> list_all is_revoke es"
  "answered (group_deletions sgs) es \<Longrightarrow> list_all is_sg_delete es"
  by (erule answered_all, auto simp: revocations_def group_deletions_def split: if_splits)+

text \<open>
  C2. The order of the calls holds for every run, failed ones included: interface calls, then the listing of the groups, then
  the revocations, then the group deletions, then the subnet calls. No group is listed unless every listed interface is
  gone and no page of them failed. When a page of groups fails, no group is touched; otherwise the rules of every listed group
  other than \<open>default\<close> are revoked in the order of the listing, and then the deletion of each of these groups is
  tried, whatever the revocations answered. No subnet call is made unless the listing, all revocations and all group
  deletions succeeded.
\<close>

theorem cleanup_order:
  assumes "CleanupVPCResources api rt tm vpc (fresh_run w) = Some (r, s')"
  shows "\<exists>E P R D N. vs_events s' = E @ P @ R @ D @ N
    \<and> list_all eni_phase E \<and> list_all is_sg_page P \<and> list_all is_revoke R
    \<and> list_all is_sg_delete D \<and> list_all is_subnet_event N
    \<and> (P @ R @ D @ N \<noteq> [] \<longrightarrow> enis_deleted api E \<and> no_page_failed E)
    \<and> group_phase api P R D
    \<and> (N \<noteq> [] \<longrightarrow> no_page_failed P \<and> (\<forall>e \<in> set (R @ D). call_error e = None))"
  using assms
proof (cases rule: CleanupVPCResources_cases)
  case (enis e)
  have "group_phase api [] [] []" by (simp add: group_phase_def nondefault_groups_def group_deletions_def)
  with cleanupENIs_fresh [OF enis(1)] show ?thesis
    by (intro exI [of _ "vs_events s'"] exI [of _ "[]"]) auto
next
  case (groups s1 e)
  from group_phase_answers [OF groups(2)] obtain P R D where G: "vs_events s' = vs_events s1 @ P @ R @ D" "group_phase api P R D" by blast
  then have "list_all is_sg_page P" "list_all is_revoke R" "list_all is_sg_delete D"
    by (auto simp: group_phase_def split: if_splits intro: answered_kinds)
  with G cleanupENIs_fresh [OF groups(1)] show ?thesis
    by (intro exI [of _ "vs_events s1"] exI [of _ P] exI [of _ R] exI [of _ D] exI [of _ "[]"]) auto
next
  case (subnets s1 s2 r3 s3)
  from group_phase_answers [OF subnets(2)] obtain P R D where G: "vs_events s2 = vs_events s1 @ P @ R @ D" "group_phase api P R D"
    "no_page_failed P" "\<forall>e \<in> set (R @ D). call_error e = None" by auto
  then have "list_all is_sg_page P" "list_all is_revoke R" "list_all is_sg_delete D"
    by (auto simp: group_phase_def split: if_splits intro: answered_kinds)
  moreover from cleanupSubnets_phase [OF subnets(3)] obtain N where
    "vs_events s3 = vs_events s2 @ N" "list_all is_subnet_event N" by blast
  ultimately show ?thesis using G subnets(4) cleanupENIs_fresh [OF subnets(1)]
    by (intro exI [of _ "vs_events s1"] exI [of _ P] exI [of _ R] exI [of _ D] exI [of _ N]) simp
qed

lemma wrapped_contains:
  "contains (error_text e) m \<Longrightarrow>
     contains (error_text (Errorf ''cleaning up security groups in VPC %s: %w'' [FStr v, FErr e])) m"
  "contains (error_text e) m \<Longrightarrow>
     contains (error_text (Errorf ''cleaning up subnets in VPC %s: %w'' [FStr v, FErr e])) m"
proof -
  have "error_text (Errorf ''cleaning up security groups in VPC %s: %w'' [FStr v, FErr e]) =
      ''cleaning up security groups in VPC '' @ v @ '': '' @ error_text e"
    and "error_text (Errorf ''cleaning up subnets in VPC %s: %w'' [FStr v, FErr e]) =
      ''cleaning up subnets in VPC '' @ v @ '': '' @ error_text e" by simp_all
  then show "contains (error_text e) m \<Longrightarrow>
     contains (error_text (Errorf ''cleaning up security groups in VPC %s: %w'' [FStr v, FErr e])) m"
    and "contains (error_text e) m \<Longrightarrow>
     contains (error_text (Errorf ''cleaning up subnets in VPC %s: %w'' [FStr v, FErr e])) m"
    by (metis contains_appendR)+
qed

lemma sg_message_text: "sg_message api sg x =
    ''SG '' @ aws_ToString api (sg_GroupId sg) @ '' ('' @ aws_ToString api (sg_GroupName sg) @ ''): '' @ error_text x"
  by (simp add: sg_message_def fmt_Sprintf_def)

lemma subnet_message_text:
  "subnet_message api sn x = ''subnet '' @ aws_ToString api (sn_SubnetId sn) @ '': '' @ error_text x"
  by (simp add: subnet_message_def fmt_Sprintf_def)

lemma messages_name_resource:
  "contains (sg_message api sg x) (aws_ToString api (sg_GroupId sg))"
  "contains (sg_message api sg x) (error_text x)"
  "contains (subnet_message api sn x) (aws_ToString api (sn_SubnetId sn))"
  "contains (subnet_message api sn x) (error_text x)"
  unfolding sg_message_text subnet_message_text
  by (intro contains_appendR contains_appendL contains_refl)+

lemma sg_failure_reported:
  assumes "cleanupSecurityGroups api vpc s = Some (r, s')" and "DeleteSg g (Some x) \<in> set (vs_events s')"
    and "DeleteSg g (Some x) \<notin> set (vs_events s)"
  shows "\<exists>m. r = Some m \<and> contains (error_text m) (aws_ToString api g) \<and> contains (error_text m) (error_text x)"
proof -
  from cleanupSecurityGroups_events [OF assms(1)] obtain pages err R D where e:
    "vs_events s' = vs_events s @ map (\<lambda>xs. SgPage (Inr xs)) pages @ map (\<lambda>e. SgPage (Inl e)) err @ R @ D"
    "list_all (revokes_one_of (set (nondefault_groups api (concat pages)))) R"
    "list_all (sg_reported api r (set (nondefault_groups api (concat pages)))) D" by blast
  have "DeleteSg g (Some x) \<notin> set R"
    by (rule list_all_not_in [OF e(2)]) (simp add: revokes_one_of_def)
  with assms(2,3) e(1) have "DeleteSg g (Some x) \<in> set D" by auto
  with e(3) obtain sg m where "g = sg_GroupId sg" "r = Some m" "contains (error_text m) (sg_message api sg x)"
    by (fastforce simp: list_all_iff sg_reported_def)
  then show ?thesis using contains_trans [OF _ messages_name_resource(1)]
      contains_trans [OF _ messages_name_resource(2)] by blast
qed

lemma subnet_failure_reported:
  assumes "cleanupSubnets api vpc s = Some (r, s')" and "DeleteSubnet g (Some x) \<in> set (vs_events s')"
    and "DeleteSubnet g (Some x) \<notin> set (vs_events s)"
  shows "\<exists>m. r = Some m \<and> contains (error_text m) (aws_ToString api g) \<and> contains (error_text m) (error_text x)"
proof -
  from cleanupSubnets_events [OF assms(1)] obtain pages err D where e:
    "vs_events s' = vs_events s @ map (\<lambda>xs. SubnetPage (Inr xs)) pages @ map (\<lambda>e. SubnetPage (Inl e)) err @ D"
    "list_all (subnet_reported api r (set (concat pages))) D" by blast
  with assms(2,3) have "DeleteSubnet g (Some x) \<in> set D" by auto
  with e(2) obtain sn m where "g = sn_SubnetId sn" "r = Some m" "contains (error_text m) (subnet_message api sn x)"
    by (fastforce simp: list_all_iff subnet_reported_def)
  then show ?thesis using contains_trans [OF _ messages_name_resource(3)]
      contains_trans [OF _ messages_name_resource(4)] by blast
qed

text \<open>
  C13. A deletion of a group or a subnet that failed makes the run fail, and the text of the
  returned error names the blocking resource and holds the client's own message.
\<close>

theorem cleanup_error_names_blockers:
  assumes run: "CleanupVPCResources api rt tm vpc (fresh_run w) = Some (r, s')"
    and fail: "DeleteSg i (Some x) \<in> set (vs_events s') \<or> DeleteSubnet i (Some x) \<in> set (vs_events s')"
  shows "\<exists>m. r = Some m \<and> contains (error_text m) (aws_ToString api i) \<and> contains (error_text m) (error_text x)"
  using run
proof (cases rule: CleanupVPCResources_cases)
  case (enis e)
  then show ?thesis using cleanupENIs_fresh [OF enis(1)] fail
    by (auto simp: kinds_exclude)
next
  case (groups s1 e)
  from cleanupENIs_fresh [OF groups(1)] have "list_all eni_phase (vs_events s1)" by simp
  then have n: "DeleteSg i (Some x) \<notin> set (vs_events s1)" "DeleteSubnet i (Some x) \<notin> set (vs_events s1)"
    by (auto simp: kinds_exclude)
  from cleanupSecurityGroups_phase [OF groups(2)] n(2) have "DeleteSubnet i (Some x) \<notin> set (vs_events s')"
    by (auto simp: kinds_exclude)
  with fail have "DeleteSg i (Some x) \<in> set (vs_events s')" by blast
  from sg_failure_reported [OF groups(2) this n(1)] groups(3) wrapped_contains(1) show ?thesis by auto
next
  case (subnets s1 s2 r3 s3)
  from cleanupENIs_fresh [OF subnets(1)] have "list_all eni_phase (vs_events s1)" by simp
  moreover from cleanupSecurityGroups_phase [OF subnets(2)] obtain P R D where
    "vs_events s2 = vs_events s1 @ P @ R @ D" "list_all is_sg_page P" "list_all is_revoke R"
    "list_all is_sg_delete D" "\<forall>e \<in> set D. \<exists>g. e = DeleteSg g None" by blast
  ultimately have n: "DeleteSg i (Some x) \<notin> set (vs_events s2)" "DeleteSubnet i (Some x) \<notin> set (vs_events s2)"
    by (auto simp: kinds_exclude)
  from cleanupSubnets_phase [OF subnets(3)] n(1) have "DeleteSg i (Some x) \<notin> set (vs_events s3)"
    by (auto simp: kinds_exclude)
  with fail subnets(4) have "DeleteSubnet i (Some x) \<in> set (vs_events s3)" by auto
  from subnet_failure_reported [OF subnets(3) this n(2)] subnets(5) wrapped_contains(2) show ?thesis by auto
qed

text \<open>
  C14. The \<open>default\<close> group is never touched: whatever the result, a group whose rules are
  revoked or that is deleted is one of the listed groups with another name.
\<close>

theorem cleanup_spares_default_group:
  assumes run: "CleanupVPCResources api rt tm vpc (fresh_run w) = Some (r, s')"
    and ev: "DeleteSg g q \<in> set (vs_events s') \<or> RevokeIngress g ps q \<in> set (vs_events s')
      \<or> RevokeEgress g ps q \<in> set (vs_events s')"
  shows "\<exists>page sg. SgPage (Inr page) \<in> set (vs_events s') \<and> sg \<in> set page \<and> sg_GroupId sg = g
      \<and> aws_ToString api (sg_GroupName sg) \<noteq> ''default''"
proof -
  let ?touches = "\<lambda>es. DeleteSg g q \<in> set es \<or> RevokeIngress g ps q \<in> set es \<or> RevokeEgress g ps q \<in> set es"
  have eni: "\<not> ?touches es" if "list_all eni_phase es" for es
    using that by (auto simp: list_all_iff eni_phase_def)
  have sub: "\<not> ?touches es" if "list_all is_subnet_event es" for es
    using that by (auto simp: list_all_iff)
  have grp: ?thesis if c: "cleanupSecurityGroups api vpc s1 = Some (r2, s2)" and t: "?touches (vs_events s2)"
    and n: "\<not> ?touches (vs_events s1)" and sub: "set (vs_events s2) \<subseteq> set (vs_events s')" for s1 r2 s2
  proof -
    from cleanupSecurityGroups_events [OF c] obtain pages err R D where e:
      "vs_events s2 = vs_events s1 @ map (\<lambda>xs. SgPage (Inr xs)) pages @ map (\<lambda>e. SgPage (Inl e)) err @ R @ D"
      "list_all (revokes_one_of (set (nondefault_groups api (concat pages)))) R"
      "list_all (sg_reported api r2 (set (nondefault_groups api (concat pages)))) D" by blast
    with t n have "?touches (R @ D)" by auto
    with e(2,3) obtain sg where "sg \<in> set (nondefault_groups api (concat pages))" "sg_GroupId sg = g"
      by (fastforce simp: list_all_iff revokes_one_of_def sg_reported_def)
    then obtain page where "page \<in> set pages" "sg \<in> set page" "aws_ToString api (sg_GroupName sg) \<noteq> ''default''"
      by (auto simp: nondefault_groups_def)
    with e(1) sub \<open>sg_GroupId sg = g\<close> show ?thesis by auto
  qed
  from run show ?thesis
  proof (cases rule: CleanupVPCResources_cases)
    case (enis e)
    then show ?thesis using cleanupENIs_fresh [OF enis(1)] eni ev by blast
  next
    case (groups s1 e)
    then show ?thesis using cleanupENIs_fresh [OF groups(1)] eni ev grp [OF groups(2)] by blast
  next
    case (subnets s1 s2 r3 s3)
    from cleanupSubnets_phase [OF subnets(3)] obtain N where
      N: "vs_events s' = vs_events s2 @ N" "list_all is_subnet_event N" using subnets(4) by auto
    then have "?touches (vs_events s2)" using ev sub [OF N(2)] by auto
    then show ?thesis using cleanupENIs_fresh [OF subnets(1)] eni grp [OF subnets(2)] N(1) by auto
  qed
qed

text \<open>
  deleteENIWithRetry makes at most \<open>eniDeleteMaxRetries\<close> deletion calls for the interface
  and nothing else, goes on only after calls that failed, and succeeds exactly when its last
  call succeeded or reported the interface as gone; \<open>alreadyGone\<close> tells the two apart.
\<close>

theorem deleteENIWithRetry_attempts:
  assumes "deleteENIWithRetry api rt tm eniID s = ((alreadyGone, err), s')"
  shows "\<exists>rs. vs_events s' = vs_events s @ map (DeleteEni eniID) rs
    \<and> length rs \<le> nat (eniDeleteMaxRetries tm) \<and> (\<forall>q \<in> set (butlast rs). \<not> gone q)
    \<and> (err = None \<longleftrightarrow> rs \<noteq> [] \<and> gone (last rs))
    \<and> (alreadyGone \<longleftrightarrow> rs \<noteq> [] \<and> gone (last rs) \<and> last rs \<noteq> None)"
  using assms unfolding deleteENIWithRetry_def by (rule delete_eni_attempts_spec)

subsection \<open>Every run returns\<close>

definition pager_progress :: "('p, 'w, 'x) pager \<Rightarrow> ('p \<Rightarrow> nat) \<Rightarrow> bool" where
  "pager_progress pg m \<longleftrightarrow> (\<forall>p w xs p' w'. has_more_pages pg p \<longrightarrow>
     next_page pg p w = (Inr xs, p', w') \<longrightarrow> m p' < m p)"

lemma collect_pages_terminates:
  assumes "pager_progress pg m"
  shows "\<exists>r s'. collect_pages pg ev keep p acc s = Some (r, s')"
proof (induction "m p" arbitrary: p acc s rule: less_induct)
  case less
  obtain q p' w where np: "next_page pg p (vs_world s) = (q, p', w)" by (metis surj_pair)
  show ?case
  proof (cases "has_more_pages pg p \<and> (\<exists>xs. q = Inr xs)")
    case True
    then obtain xs where q: "q = Inr xs" by blast
    with True np assms have "m p' < m p" unfolding pager_progress_def by blast
    from less [OF this] True np q show ?thesis by (subst collect_pages.simps) auto
  next
    case False
    with np show ?thesis by (subst collect_pages.simps) (cases q, auto)
  qed
qed

lemma detach_eni_terminates:
  assumes "clock_ok rt" and "describe_keeps_time api rt" and "0 < eniDetachPollInterval tm"
  shows "\<exists>r s'. detach_eni api rt tm eni s = Some (r, s')"
proof -
  have w: "waitForENIAvailable api rt tm i t = None \<longleftrightarrow> False" for i t
    using wait_eni_terminates [OF assms] unfolding waitForENIAvailable_def by (metis option.distinct(1))
  have "detach_eni api rt tm eni s \<noteq> None"
    by (auto simp: detach_eni_def Let_def w split: option.splits prod.splits Option.bind_splits)
  then show ?thesis by auto
qed

lemma cleanup_eni_list_terminates:
  assumes "clock_ok rt" and "describe_keeps_time api rt" and "0 < eniDetachPollInterval tm"
  shows "\<exists>r s'. cleanup_eni_list api rt tm enis s = Some (r, s')"
proof (induction enis arbitrary: s)
  case Nil
  then show ?case by simp
next
  case (Cons eni enis)
  obtain r1 s1 where "detach_eni api rt tm eni s = Some (r1, s1)"
    using detach_eni_terminates [OF assms] by blast
  then have "\<exists>r2 s2. cleanup_eni api rt tm eni s = Some (r2, s2)"
    by (auto simp: cleanup_eni_def Let_def split: option.splits prod.splits)
  with Cons show ?case by (fastforce split: option.splits)
qed

text \<open>
  C16. CleanupVPCResources returns: with a clock that advances as package time documents,
  client calls that do not turn it back, a positive poll interval and paginators that
  come to a last page, the wait for a detached interface, the retries and the three
  listings all end, whatever the client answers.
\<close>

theorem cleanup_terminates:
  assumes "clock_ok rt" and "describe_keeps_time api rt" and "0 < eniDetachPollInterval tm"
    and "pager_progress (eni_pager api) m1" and "pager_progress (sg_pager api) m2"
    and "pager_progress (subnet_pager api) m3"
  shows "\<exists>r s'. CleanupVPCResources api rt tm vpc s = Some (r, s')"
proof -
  have e: "\<exists>r s'. cleanupENIs api rt tm vpc s = Some (r, s')" for s
    using collect_pages_terminates [OF assms(4)] cleanup_eni_list_terminates [OF assms(1-3)]
    unfolding cleanupENIs_def by (fastforce split: Option.bind_splits sum.splits)
  have g: "\<exists>r s'. cleanupSecurityGroups api vpc s = Some (r, s')" for s
    using collect_pages_terminates [OF assms(5)]
    unfolding cleanupSecurityGroups_def by (fastforce split: Option.bind_splits)
  have n: "\<exists>r s'. cleanupSubnets api vpc s = Some (r, s')" for s
    using collect_pages_terminates [OF assms(6)]
    unfolding cleanupSubnets_def by (fastforce split: Option.bind_splits)
  obtain r1 s1 where 1: "cleanupENIs api rt tm vpc s = Some (r1, s1)" using e by blast
  obtain r2 s2 where 2: "cleanupSecurityGroups api vpc s1 = Some (r2, s2)" using g by blast
  obtain r3 s3 where 3: "cleanupSubnets api vpc s2 = Some (r3, s3)" using n by blast
  show ?thesis
    unfolding CleanupVPCResources_def 1 bind.bind_lunit prod.case
    by (cases r1; cases r2; cases r3) (simp_all add: 2 3)
qed

section \<open>Concrete runs\<close>

text \<open>
  A small client on which the theorems are applied: the world is a clock; two pages of
  interfaces, the first interface attached and available only after five seconds, the second
  one already gone when it is deleted; a \<open>default\<close> and a custom group with an ingress rule;
  one subnet, whose deletion fails when \<open>stuck\<close> is set.
\<close>

definition sim_runtime :: "int go_runtime" where
  "sim_runtime = \<lparr>time_now = (\<lambda>t. t), select_done = (\<lambda>d t. (None, t + d))\<rparr>"

definition sim_pager :: "'x list list \<Rightarrow> (nat, int, 'x) pager" where
  "sim_pager pages = \<lparr>new_pager = (\<lambda>_. length pages), has_more_pages = (\<lambda>p. 0 < p),
     next_page = (\<lambda>p t. (Inr (if p \<le> length pages then pages ! (length pages - p) else []), p - 1, t))\<rparr>"

definition sim_ec2 :: "bool \<Rightarrow> (nat, int) ec2_api" where
  "sim_ec2 stuck = \<lparr>
     eni_pager = sim_pager [[\<lparr>ni_NetworkInterfaceId = Some ''eni-1'', ni_Attachment = Some (Some ''att-1''),
                              ni_Status = ''in-use''\<rparr>],
                            [\<lparr>ni_NetworkInterfaceId = Some ''eni-2'', ni_Attachment = None, ni_Status = ''available''\<rparr>]],
     sg_pager = sim_pager [[\<lparr>sg_GroupId = Some ''sg-0'', sg_GroupName = Some ''default'',
                             sg_IpPermissions = [''all''], sg_IpPermissionsEgress = []\<rparr>,
                            \<lparr>sg_GroupId = Some ''sg-1'', sg_GroupName = Some ''worker'',
                             sg_IpPermissions = [''tcp''], sg_IpPermissionsEgress = []\<rparr>]],
     subnet_pager = sim_pager [[\<lparr>sn_SubnetId = Some ''subnet-1''\<rparr>]],
     api_DescribeNetworkInterfaces = (\<lambda>i t. (Inr [\<lparr>ni_NetworkInterfaceId = Some i, ni_Attachment = None,
        ni_Status = (if 5 * second \<le> t then ''available'' else ''detaching'')\<rparr>], t)),
     api_DetachNetworkInterface = (\<lambda>a f t. (None, t)),
     api_DeleteNetworkInterface = (\<lambda>i t.
        (if i = ''eni-2'' then Some (External ''api'' ''InvalidNetworkInterfaceID.NotFound'' None) else None, t)),
     api_RevokeIngress = (\<lambda>g ps t. (None, t)),
     api_RevokeEgress = (\<lambda>g ps t. (None, t)),
     api_DeleteSecurityGroup = (\<lambda>g t. (None, t)),
     api_DeleteSubnet = (\<lambda>n t. (if stuck then Some (External ''api'' ''DependencyViolation'' None) else None, t)),
     aws_ToString = (\<lambda>p. case p of None \<Rightarrow> [] | Some s \<Rightarrow> s)\<rparr>"

definition sim_run :: "bool \<Rightarrow> (go_error option \<times> int vpc_state) option" where
  "sim_run stuck = CleanupVPCResources (sim_ec2 stuck) sim_runtime default_timing ''vpc-1'' (fresh_run 0)"

lemmas run_simps = CleanupVPCResources_def cleanupENIs_def cleanupSecurityGroups_def cleanupSubnets_def
  cleanup_eni_def detach_eni_def waitForENIAvailable_def deleteENIWithRetry_def
  sweep_security_groups_def sweep_subnets_def revoke_sg_def delete_sg_def delete_subnet_def
  api_call_def logf_def collect_pages.simps wait_eni_loop.simps

lemmas sim_simps = sim_runtime_def sim_pager_def sim_ec2_def sim_run_def fresh_run_def default_timing_def
  second_def minute_def Let_def eval_nat_numeral

abbreviation stuck_error :: go_error where
  "stuck_error \<equiv> External ''api'' ''DependencyViolation'' None"

lemma sim_run_ok: "\<exists>s'. sim_run False = Some (None, s') \<and> DeleteSg (Some ''sg-1'') None \<in> set (vs_events s')"
  by (simp add: run_simps sim_simps)

lemma sim_run_stuck:
  "\<exists>r s'. sim_run True = Some (r, s') \<and> DeleteSubnet (Some ''subnet-1'') (Some stuck_error) \<in> set (vs_events s')"
  by (simp add: run_simps sim_simps)

theorem cleanup_complete_witness:
  "\<exists>s'. sim_run False = Some (None, s') \<and> enis_deleted (sim_ec2 False) (vs_events s')
     \<and> groups_deleted (sim_ec2 False) (vs_events s') \<and> subnets_deleted (vs_events s')"
  using sim_run_ok cleanup_complete [of "sim_ec2 False" sim_runtime default_timing "''vpc-1''" 0]
  unfolding sim_run_def by blast

theorem cleanup_order_witness:
  "\<exists>s' E P R D N. map_option snd (sim_run True) = Some s' \<and> vs_events s' = E @ P @ R @ D @ N
     \<and> list_all eni_phase E \<and> group_phase (sim_ec2 True) P R D \<and> list_all is_subnet_event N"
proof -
  obtain r s' where run: "sim_run True = Some (r, s')" using sim_run_stuck by blast
  then have "map_option snd (sim_run True) = Some s'" by simp
  with cleanup_order [OF run [unfolded sim_run_def]] show ?thesis by blast
qed

theorem cleanup_error_names_blockers_witness:
  "\<exists>m s'. sim_run True = Some (Some m, s') \<and> contains (error_text m) ''subnet-1''
     \<and> contains (error_text m) ''DependencyViolation''"
proof -
  obtain r s' where run: "sim_run True = Some (r, s')"
    and ev: "DeleteSubnet (Some ''subnet-1'') (Some stuck_error) \<in> set (vs_events s')"
    using sim_run_stuck by blast
  have "aws_ToString (sim_ec2 True) (Some ''subnet-1'') = ''subnet-1''" by (simp add: sim_ec2_def)
  with cleanup_error_names_blockers [OF run [unfolded sim_run_def] disjI2 [OF ev]] run
  show ?thesis by auto
qed

theorem cleanup_spares_default_group_witness:
  "\<exists>r s' page sg. sim_run False = Some (r, s') \<and> SgPage (Inr page) \<in> set (vs_events s') \<and> sg \<in> set page
     \<and> sg_GroupId sg = Some ''sg-1'' \<and> aws_ToString (sim_ec2 False) (sg_GroupName sg) \<noteq> ''default''"
proof -
  obtain s' where run: "sim_run False = Some (None, s')"
    and ev: "DeleteSg (Some ''sg-1'') None \<in> set (vs_events s')"
    using sim_run_ok by blast
  from cleanup_spares_default_group [OF run [unfolded sim_run_def] disjI1 [OF ev]] run show ?thesis by blast
qed

theorem deleteENIWithRetry_attempts_witness:
  "\<exists>rs. vs_events (snd (deleteENIWithRetry (sim_ec2 False) sim_runtime default_timing ''eni-2'' (fresh_run 0)))
       = map (DeleteEni ''eni-2'') rs \<and> length rs \<le> 5 \<and> rs \<noteq> [] \<and> last rs \<noteq> None"
proof -
  obtain s' where "deleteENIWithRetry (sim_ec2 False) sim_runtime default_timing ''eni-2'' (fresh_run 0)
      = ((True, None), s')"
    by (simp add: run_simps sim_simps)
  from deleteENIWithRetry_attempts [OF this] this show ?thesis by (auto simp: default_timing_def)
qed

theorem cleanup_terminates_witness:
  "\<exists>r s'. CleanupVPCResources (sim_ec2 True) sim_runtime default_timing ''vpc-2'' (fresh_run 7) = Some (r, s')"
proof (rule cleanup_terminates)
  show "clock_ok sim_runtime" by (simp add: clock_ok_def sim_runtime_def)
  show "describe_keeps_time (sim_ec2 True) sim_runtime"
    by (simp add: describe_keeps_time_def sim_ec2_def sim_runtime_def)
  show "0 < eniDetachPollInterval default_timing" by (simp add: default_timing_def second_def)
  show "pager_progress (eni_pager (sim_ec2 True)) (\<lambda>p. p)" "pager_progress (sg_pager (sim_ec2 True)) (\<lambda>p. p)"
    "pager_progress (subnet_pager (sim_ec2 True)) (\<lambda>p. p)"
    by (simp_all add: pager_progress_def sim_ec2_def sim_pager_def)
qed

end
