(* ===== verification/Verifier_Runner.thy ===== *)
theory Verifier_Runner
  imports Go_Prelude "HOL-Library.Multiset"
begin

text \<open>
  pkg/verifiers/verifier.go: the interface ClusterVerifier and RunVerifiers, which runs every
  verifier in its own goroutine and collects their errors over a buffered channel.

  RunVerifiers is concurrent, so it is a step relation. The state of a run holds the program
  counter of the calling goroutine, the counter of the WaitGroup, the channel (capacity, queue
  and whether it is closed), the goroutines, the errors received so far and the state \<open>'w\<close> of
  the outside world. \<open>rs_panic\<close> is set by the two operations that panic in Go: a send on a
  closed channel and a WaitGroup counter that becomes negative. \<open>rs_calls\<close> records every
  Verify call with the world it was made in and its outcome; no step reads it.

  \<open>runner_step\<close> has the steps of the program, one for each statement that touches shared
  state; \<open>env_step\<close> lets the outside world change at any moment between them.
\<close>

section \<open>The interface and the program\<close>

record ('c, 'w) cluster_verifier =
  cv_Name :: string
  cv_Verify :: "'c \<Rightarrow> 'w \<Rightarrow> go_error option \<times> 'w"

datatype ('c, 'w) goroutine =
    Started "('c, 'w) cluster_verifier"
  | Sending go_error
  | Finishing
  | Exited

datatype ('c, 'w) main_pc =
    AtAdd "('c, 'w) cluster_verifier list"
  | AtGo "('c, 'w) cluster_verifier" "('c, 'w) cluster_verifier list"
  | AtWait
  | AtClose
  | AtDrain
  | Returned "go_error option"

record ('c, 'w) runner_state =
  rs_pc :: "('c, 'w) main_pc"
  rs_wg :: nat
  rs_cap :: nat
  rs_chan :: "go_error list"
  rs_closed :: bool
  rs_gs :: "('c, 'w) goroutine list"
  rs_errs :: "go_error list"
  rs_panic :: bool
  rs_calls :: "(('c, 'w) cluster_verifier \<times> 'w \<times> go_error option) list"
  rs_world :: 'w

definition runner_init :: "('c, 'w) cluster_verifier list \<Rightarrow> 'w \<Rightarrow> ('c, 'w) runner_state" where
  "runner_init vs w = \<lparr>rs_pc = AtAdd vs, rs_wg = 0, rs_cap = length vs, rs_chan = [], rs_closed = False,
     rs_gs = [], rs_errs = [], rs_panic = False, rs_calls = [], rs_world = w\<rparr>"

definition wrap_failure :: "('c, 'w) cluster_verifier \<Rightarrow> go_error \<Rightarrow> go_error" where
  "wrap_failure v err = Errorf ''%s failed: %w'' [FStr (cv_Name v), FErr err]"

inductive runner_step :: "'c \<Rightarrow> ('c, 'w) runner_state \<Rightarrow> ('c, 'w) runner_state \<Rightarrow> bool" for c where
  add: "rs_pc s = AtAdd (v # vs) \<Longrightarrow>
    runner_step c s (s\<lparr>rs_pc := AtGo v vs, rs_wg := Suc (rs_wg s)\<rparr>)"
| go: "rs_pc s = AtGo v vs \<Longrightarrow>
    runner_step c s (s\<lparr>rs_pc := AtAdd vs, rs_gs := rs_gs s @ [Started v]\<rparr>)"
| spawned: "rs_pc s = AtAdd [] \<Longrightarrow>
    runner_step c s (s\<lparr>rs_pc := AtWait\<rparr>)"
| verify_ok: "i < length (rs_gs s) \<Longrightarrow> rs_gs s ! i = Started v \<Longrightarrow> cv_Verify v c (rs_world s) = (None, w) \<Longrightarrow>
    runner_step c s (s\<lparr>rs_gs := (rs_gs s)[i := Finishing], rs_calls := rs_calls s @ [(v, rs_world s, None)], rs_world := w\<rparr>)"
| verify_fail: "i < length (rs_gs s) \<Longrightarrow> rs_gs s ! i = Started v \<Longrightarrow> cv_Verify v c (rs_world s) = (Some err, w) \<Longrightarrow>
    runner_step c s (s\<lparr>rs_gs := (rs_gs s)[i := Sending (wrap_failure v err)],
      rs_calls := rs_calls s @ [(v, rs_world s, Some err)], rs_world := w\<rparr>)"
| send: "i < length (rs_gs s) \<Longrightarrow> rs_gs s ! i = Sending e \<Longrightarrow> \<not> rs_closed s \<Longrightarrow> length (rs_chan s) < rs_cap s \<Longrightarrow>
    runner_step c s (s\<lparr>rs_gs := (rs_gs s)[i := Finishing], rs_chan := rs_chan s @ [e]\<rparr>)"
| send_closed: "i < length (rs_gs s) \<Longrightarrow> rs_gs s ! i = Sending e \<Longrightarrow> rs_closed s \<Longrightarrow>
    runner_step c s (s\<lparr>rs_gs := (rs_gs s)[i := Exited], rs_panic := True\<rparr>)"
| finish: "i < length (rs_gs s) \<Longrightarrow> rs_gs s ! i = Finishing \<Longrightarrow>
    runner_step c s (s\<lparr>rs_gs := (rs_gs s)[i := Exited], rs_wg := rs_wg s - 1,
      rs_panic := (rs_panic s \<or> rs_wg s = 0)\<rparr>)"
| wait: "rs_pc s = AtWait \<Longrightarrow> rs_wg s = 0 \<Longrightarrow>
    runner_step c s (s\<lparr>rs_pc := AtClose\<rparr>)"
| close: "rs_pc s = AtClose \<Longrightarrow>
    runner_step c s (s\<lparr>rs_pc := AtDrain, rs_closed := True, rs_panic := (rs_panic s \<or> rs_closed s)\<rparr>)"
| receive: "rs_pc s = AtDrain \<Longrightarrow> rs_chan s = e # q \<Longrightarrow>
    runner_step c s (s\<lparr>rs_chan := q, rs_errs := rs_errs s @ [e]\<rparr>)"
| return: "rs_pc s = AtDrain \<Longrightarrow> rs_chan s = [] \<Longrightarrow> rs_closed s \<Longrightarrow>
    runner_step c s (s\<lparr>rs_pc := Returned (errors_Join (rs_errs s))\<rparr>)"

inductive env_step :: "('c, 'w) runner_state \<Rightarrow> ('c, 'w) runner_state \<Rightarrow> bool" where
  change: "env_step s (s\<lparr>rs_world := w\<rparr>)"

text \<open>\<open>runs c vs w s\<close>: \<open>s\<close> is reached from the call \<open>RunVerifiers(ctx, c, vs...)\<close> in the world \<open>w\<close>.\<close>

inductive runs :: "'c \<Rightarrow> ('c, 'w) cluster_verifier list \<Rightarrow> 'w \<Rightarrow> ('c, 'w) runner_state \<Rightarrow> bool"
  for c vs w where
  start: "runs c vs w (runner_init vs w)"
| program: "runs c vs w s \<Longrightarrow> runner_step c s s' \<Longrightarrow> runs c vs w s'"
| environment: "runs c vs w s \<Longrightarrow> env_step s s' \<Longrightarrow> runs c vs w s'"

inductive_cases runner_stepE: "runner_step c s s'"
inductive_cases env_stepE: "env_step s s'"

lemmas runner_step_cases = runner_stepE [consumes 1, case_names add go spawned verify_ok verify_fail send send_closed
  finish wait close receive return]

section \<open>The invariant\<close>

text \<open>
  What is still to start, what the calls made so far failed with, and which errors are
  held where. Every failure is in exactly one place: in a goroutine about to send it, in the
  channel, or among the received errors.
\<close>

fun pending :: "('c, 'w) main_pc \<Rightarrow> ('c, 'w) cluster_verifier list" where
  "pending (AtAdd vs) = vs"
| "pending (AtGo v vs) = v # vs"
| "pending _ = []"

fun started :: "('c, 'w) goroutine \<Rightarrow> ('c, 'w) cluster_verifier multiset" where
  "started (Started v) = {#v#}"
| "started _ = {#}"

fun sending :: "('c, 'w) goroutine \<Rightarrow> go_error multiset" where
  "sending (Sending e) = {#e#}"
| "sending _ = {#}"

fun active :: "('c, 'w) goroutine \<Rightarrow> nat" where
  "active Exited = 0"
| "active _ = 1"

fun failure :: "('c, 'w) cluster_verifier \<times> 'w \<times> go_error option \<Rightarrow> go_error multiset" where
  "failure (v, w, None) = {#}"
| "failure (v, w, Some e) = {#wrap_failure v e#}"

definition sum_over :: "('a \<Rightarrow> 'b::comm_monoid_add) \<Rightarrow> 'a list \<Rightarrow> 'b" where
  "sum_over f xs = sum_list (map f xs)"

definition failures :: "(('c, 'w) cluster_verifier \<times> 'w \<times> go_error option) list \<Rightarrow> go_error multiset" where
  "failures = sum_over failure"

definition main_active :: "('c, 'w) main_pc \<Rightarrow> nat" where
  "main_active p = (case p of AtGo _ _ \<Rightarrow> 1 | _ \<Rightarrow> 0)"

definition past_wait :: "('c, 'w) main_pc \<Rightarrow> bool" where
  "past_wait p = (case p of AtClose \<Rightarrow> True | AtDrain \<Rightarrow> True | Returned _ \<Rightarrow> True | _ \<Rightarrow> False)"

definition past_close :: "('c, 'w) main_pc \<Rightarrow> bool" where
  "past_close p = (case p of AtDrain \<Rightarrow> True | Returned _ \<Rightarrow> True | _ \<Rightarrow> False)"

lemma sum_over_simps [simp]:
  "sum_over f [] = 0" "sum_over f (x # xs) = f x + sum_over f xs"
  "sum_over f (xs @ ys) = sum_over f xs + sum_over f ys"
  by (simp_all add: sum_over_def)

text \<open>Replacing one goroutine moves its share of a sum: what it held goes, what it holds now comes.\<close>

lemma sum_over_update:
  "i < length xs \<Longrightarrow> sum_over f (xs[i := y]) + f (xs ! i) = sum_over f xs + f y"
  by (induction xs arbitrary: i) (auto simp: ac_simps split: nat.splits)

lemma sum_over_mem: "i < length xs \<Longrightarrow> \<exists>r. sum_over f xs = f (xs ! i) + r"
proof (induction xs arbitrary: i)
  case (Cons x xs)
  then show ?case
  proof (cases i)
    case (Suc j)
    then obtain r where "sum_over f xs = f (xs ! j) + r" using Cons by auto
    then show ?thesis using Suc by (auto intro!: exI [of _ "f x + r"] simp: ac_simps)
  qed auto
qed simp

definition runner_inv :: "('c, 'w) cluster_verifier list \<Rightarrow> ('c, 'w) runner_state \<Rightarrow> bool" where
  "runner_inv vs s \<longleftrightarrow>
     rs_cap s = length vs
   \<and> mset vs = mset (pending (rs_pc s)) + sum_over started (rs_gs s) + mset (map fst (rs_calls s))
   \<and> failures (rs_calls s) = mset (rs_errs s) + mset (rs_chan s) + sum_over sending (rs_gs s)
   \<and> rs_wg s = main_active (rs_pc s) + sum_over active (rs_gs s)
   \<and> (rs_closed s \<longleftrightarrow> past_close (rs_pc s))
   \<and> (past_wait (rs_pc s) \<longrightarrow> sum_over active (rs_gs s) = 0)
   \<and> (\<not> past_close (rs_pc s) \<longrightarrow> rs_errs s = [])
   \<and> (\<forall>r. rs_pc s = Returned r \<longrightarrow> r = errors_Join (rs_errs s) \<and> rs_chan s = [])
   \<and> \<not> rs_panic s"

lemma runner_invD:
  assumes "runner_inv vs s"
  shows "rs_cap s = length vs"
    and "mset vs = mset (pending (rs_pc s)) + sum_over started (rs_gs s) + mset (map fst (rs_calls s))"
    and "failures (rs_calls s) = mset (rs_errs s) + mset (rs_chan s) + sum_over sending (rs_gs s)"
    and "rs_wg s = main_active (rs_pc s) + sum_over active (rs_gs s)"
    and "rs_closed s \<longleftrightarrow> past_close (rs_pc s)"
    and "past_wait (rs_pc s) \<Longrightarrow> sum_over active (rs_gs s) = 0"
    and "\<not> past_close (rs_pc s) \<Longrightarrow> rs_errs s = []"
    and "rs_pc s = Returned r \<Longrightarrow> r = errors_Join (rs_errs s) \<and> rs_chan s = []"
    and "\<not> rs_panic s"
  using assms unfolding runner_inv_def by blast+

lemma runner_inv_init: "runner_inv vs (runner_init vs w)"
  by (simp add: runner_inv_def runner_init_def failures_def main_active_def past_close_def past_wait_def)

lemmas pc_simps = main_active_def past_close_def past_wait_def failures_def

text \<open>A goroutine that has not exited is counted, so the caller is still before wg.Wait's return.\<close>

lemma active_before_wait:
  assumes "runner_inv vs s" and "i < length (rs_gs s)" and "active (rs_gs s ! i) = 1"
  shows "\<not> past_wait (rs_pc s)" and "0 < rs_wg s"
proof -
  obtain r where "sum_over active (rs_gs s) = active (rs_gs s ! i) + r"
    using sum_over_mem [OF assms(2)] by blast
  with assms(3) have "0 < sum_over active (rs_gs s)" by simp
  with runner_invD(4,6) [OF assms(1)] show "\<not> past_wait (rs_pc s)" and "0 < rs_wg s" by auto
qed

lemma not_past_close: "\<not> past_wait p \<Longrightarrow> \<not> past_close p"
  by (cases p) (simp_all add: pc_simps)

text \<open>
  One lemma for every step that replaces the goroutine \<open>i\<close>: the invariant is kept when the
  share of the sums that the goroutine gives up is taken over elsewhere.
\<close>

lemma runner_inv_goroutine:
  assumes inv: "runner_inv vs s" and i: "i < length (rs_gs s)" and a: "active (rs_gs s ! i) = 1"
    and st: "started (rs_gs s ! i) + mset (map fst (rs_calls s)) = started g + mset (map fst (rs_calls s'))"
    and se: "failures (rs_calls s') + sending (rs_gs s ! i) + mset (rs_chan s) = failures (rs_calls s) + sending g + mset (rs_chan s')"
    and gs: "rs_gs s' = (rs_gs s)[i := g]" and wg: "rs_wg s' + 1 = rs_wg s + active g"
    and same: "rs_pc s' = rs_pc s" "rs_cap s' = rs_cap s" "rs_closed s' = rs_closed s" "rs_errs s' = rs_errs s"
      "\<not> rs_panic s'"
  shows "runner_inv vs s'"
proof -
  note D = runner_invD [OF inv]
  have np: "\<not> past_wait (rs_pc s)" by (rule active_before_wait [OF inv i a])
  have u: "sum_over f (rs_gs s') + f (rs_gs s ! i) = sum_over f (rs_gs s) + f g"
    for f :: "('a, 'b) goroutine \<Rightarrow> 'z::comm_monoid_add"
    unfolding gs by (rule sum_over_update [OF i])
  have 1: "mset vs = mset (pending (rs_pc s)) + sum_over started (rs_gs s') + mset (map fst (rs_calls s'))"
  proof -
    have "mset vs + started (rs_gs s ! i) =
        mset (pending (rs_pc s)) + sum_over started (rs_gs s') + mset (map fst (rs_calls s')) + started (rs_gs s ! i)"
      using D(2) st u [of started] by (simp add: ac_simps)
    then show ?thesis by simp
  qed
  have 2: "failures (rs_calls s') = mset (rs_errs s) + mset (rs_chan s') + sum_over sending (rs_gs s')"
  proof -
    have "failures (rs_calls s') + sending (rs_gs s ! i) + mset (rs_chan s) =
        mset (rs_errs s) + mset (rs_chan s') + sum_over sending (rs_gs s') + sending (rs_gs s ! i) + mset (rs_chan s)"
      using D(3) se u [of sending] by (simp add: ac_simps)
    then show ?thesis by simp
  qed
  have 3: "rs_wg s' = main_active (rs_pc s) + sum_over active (rs_gs s')"
    using D(4) wg u [of active] a by simp
  show ?thesis
    unfolding runner_inv_def same
    using D 1 2 3 np not_past_close [OF np] same by (auto simp: past_wait_def)
qed

lemma failures_snoc: "failures (cs @ [q]) = failures cs + failure q"
  by (simp add: failures_def)

lemma runner_inv_step:
  assumes inv: "runner_inv vs s" and step: "runner_step c s s'"
  shows "runner_inv vs s'"
  using step
proof (cases rule: runner_step_cases)
  case (verify_ok i v w)
  then show ?thesis
    by (intro runner_inv_goroutine [OF inv, where i = i and g = Finishing])
       (use runner_invD(9) [OF inv] in \<open>simp_all add: failures_snoc\<close>)
next
  case (verify_fail i v err w)
  then show ?thesis
    by (intro runner_inv_goroutine [OF inv, where i = i and g = "Sending (wrap_failure v err)"])
       (use runner_invD(9) [OF inv] in \<open>simp_all add: failures_snoc\<close>)
next
  case (send i e)
  then show ?thesis
    by (intro runner_inv_goroutine [OF inv, where i = i and g = Finishing])
       (use runner_invD(9) [OF inv] in simp_all)
next
  case (send_closed i e)
  then have "\<not> past_wait (rs_pc s)" by (intro active_before_wait [OF inv, of i]) simp_all
  with send_closed(4) runner_invD(5) [OF inv] not_past_close show ?thesis by blast
next
  case (finish i)
  then have "0 < rs_wg s" by (intro active_before_wait [OF inv, of i]) simp_all
  with finish show ?thesis
    by (intro runner_inv_goroutine [OF inv, where i = i and g = Exited])
       (use runner_invD(9) [OF inv] in simp_all)
qed (use inv in \<open>auto simp: runner_inv_def pc_simps ac_simps\<close>)

lemma runner_inv_env: "runner_inv vs s \<Longrightarrow> env_step s s' \<Longrightarrow> runner_inv vs s'"
  by (erule env_stepE) (simp add: runner_inv_def)

lemma runs_inv: "runs c vs w s \<Longrightarrow> runner_inv vs s"
  by (induction rule: runs.induct) (blast intro: runner_inv_init runner_inv_step runner_inv_env)+

section \<open>Safety\<close>

lemma size_failures_le: "size (failures cs) \<le> length cs"
proof (induction cs)
  case (Cons q cs)
  have "size (failure q) \<le> 1" by (cases q rule: failure.cases) simp_all
  with Cons show ?case by (simp add: failures_def)
qed (simp add: failures_def)

lemma sender_has_room:
  assumes inv: "runner_inv vs s" and i: "i < length (rs_gs s)" and g: "rs_gs s ! i = Sending e"
  shows "\<not> rs_closed s" and "length (rs_chan s) < rs_cap s"
proof -
  have np: "\<not> past_wait (rs_pc s)" by (rule active_before_wait [OF inv i]) (simp add: g)
  then show "\<not> rs_closed s" using runner_invD(5) [OF inv] not_past_close by blast
  obtain r where "sum_over sending (rs_gs s) = sending (rs_gs s ! i) + r" using sum_over_mem [OF i] by blast
  then have "1 \<le> size (sum_over sending (rs_gs s))" using g by simp
  moreover have "size (failures (rs_calls s)) =
      length (rs_errs s) + length (rs_chan s) + size (sum_over sending (rs_gs s))"
    using arg_cong [OF runner_invD(3) [OF inv], of size] by simp
  moreover have "size (mset vs) = length (pending (rs_pc s)) + size (sum_over started (rs_gs s)) + length (rs_calls s)"
    using arg_cong [OF runner_invD(2) [OF inv], of size] by simp
  ultimately show "length (rs_chan s) < rs_cap s"
    using size_failures_le [of "rs_calls s"] runner_invD(1) [OF inv] by simp
qed

text \<open>
  C4. Whatever the interleaving and whatever the outside world does, RunVerifiers never
  panics: no goroutine sends on the closed channel and the WaitGroup counter never becomes
  negative. No goroutine that holds an error is ever blocked: the channel, which has the
  capacity of one error per verifier, is open and has room for it.
\<close>

theorem runner_never_panics_or_blocks:
  assumes "runs c vs w s"
  shows "\<not> rs_panic s
    \<and> (\<forall>i e. i < length (rs_gs s) \<longrightarrow> rs_gs s ! i = Sending e \<longrightarrow>
         \<not> rs_closed s \<and> length (rs_chan s) < rs_cap s)"
  using runner_invD(9) [OF runs_inv [OF assms]] sender_has_room [OF runs_inv [OF assms]] by blast

section \<open>The result\<close>

lemma inactive_holds_nothing:
  "sum_over active gs = (0::nat) \<Longrightarrow> sum_over started gs = {#} \<and> sum_over sending gs = {#}"
proof (induction gs)
  case (Cons g gs)
  then show ?case by (cases g) simp_all
qed simp

lemma returned_result:
  assumes inv: "runner_inv vs s" and ret: "rs_pc s = Returned r"
  shows "mset (map fst (rs_calls s)) = mset vs"
    and "r = errors_Join (rs_errs s)" and "mset (rs_errs s) = failures (rs_calls s)"
proof -
  have pw: "past_wait (rs_pc s)" by (simp add: ret pc_simps)
  from inactive_holds_nothing [OF runner_invD(6) [OF inv pw]]
  have z: "sum_over started (rs_gs s) = {#}" "sum_over sending (rs_gs s) = {#}" by simp_all
  show "mset (map fst (rs_calls s)) = mset vs" using runner_invD(2) [OF inv] z ret by simp
  show "r = errors_Join (rs_errs s)" and "mset (rs_errs s) = failures (rs_calls s)"
    using runner_invD(8) [OF inv ret] runner_invD(3) [OF inv] z by simp_all
qed

lemma failures_empty_iff: "failures cs = {#} \<longleftrightarrow> (\<forall>(v, u, q) \<in> set cs. q = None)"
proof (induction cs)
  case (Cons q cs)
  then show ?case by (cases q rule: failure.cases) (simp_all add: failures_def)
qed (simp add: failures_def)

text \<open>
  C3. When RunVerifiers returns, every verifier was called exactly once, and the returned
  error joins exactly the failures of those calls, each wrapped as \<open><name> failed: <error>\<close>, in
  some order: none is lost, none is duplicated. It is nil exactly when every call succeeded.
\<close>

theorem runner_aggregates_failures:
  assumes "runs c vs w s" and "rs_pc s = Returned r"
  shows "mset (map fst (rs_calls s)) = mset vs
    \<and> (\<exists>errs. r = errors_Join errs \<and> mset errs = failures (rs_calls s))
    \<and> (r = None \<longleftrightarrow> (\<forall>(v, u, q) \<in> set (rs_calls s). q = None))"
  using returned_result [OF runs_inv [OF assms(1)] assms(2)] failures_empty_iff [of "rs_calls s"]
  by (metis errors_Join_None_iff mset_zero_iff)

section \<open>Progress and termination\<close>

text \<open>
  \<open>steps_left\<close> bounds the program steps a run can still make: six for a verifier that is not
  started (Add, go, Verify, send, Done, receive), and the four of the caller after the loop.
\<close>

fun pc_steps :: "('c, 'w) main_pc \<Rightarrow> nat" where
  "pc_steps (AtAdd vs) = 6 * length vs + 4"
| "pc_steps (AtGo v vs) = 6 * length vs + 9"
| "pc_steps AtWait = 3"
| "pc_steps AtClose = 2"
| "pc_steps AtDrain = 1"
| "pc_steps (Returned r) = 0"

fun goroutine_steps :: "('c, 'w) goroutine \<Rightarrow> nat" where
  "goroutine_steps (Started v) = 4"
| "goroutine_steps (Sending e) = 3"
| "goroutine_steps Finishing = 1"
| "goroutine_steps Exited = 0"

definition steps_left :: "('c, 'w) runner_state \<Rightarrow> nat" where
  "steps_left s = pc_steps (rs_pc s) + sum_over goroutine_steps (rs_gs s) + length (rs_chan s)"

lemma sum_over_decreases:
  fixes f :: "'a \<Rightarrow> nat"
  shows "i < length xs \<Longrightarrow> f y < f (xs ! i) \<Longrightarrow> sum_over f (xs[i := y]) < sum_over f xs"
  using sum_over_update [of i xs f y] by linarith

lemma steps_left_decreases:
  assumes "runner_step c s s'"
  shows "steps_left s' < steps_left s"
  using assms
proof (cases rule: runner_step_cases)
  case (verify_ok i v w)
  then show ?thesis using sum_over_decreases [of i "rs_gs s" goroutine_steps Finishing]
    by (simp add: steps_left_def)
next
  case (verify_fail i v err w)
  then show ?thesis using sum_over_decreases [of i "rs_gs s" goroutine_steps "Sending (wrap_failure v err)"]
    by (simp add: steps_left_def)
next
  case (send i e)
  then show ?thesis using sum_over_update [of i "rs_gs s" goroutine_steps Finishing]
    by (simp add: steps_left_def)
next
  case (send_closed i e)
  then show ?thesis using sum_over_decreases [of i "rs_gs s" goroutine_steps Exited]
    by (simp add: steps_left_def)
next
  case (finish i)
  then show ?thesis using sum_over_decreases [of i "rs_gs s" goroutine_steps Exited]
    by (simp add: steps_left_def)
qed (auto simp: steps_left_def)

lemma active_witness: "0 < sum_over active gs \<Longrightarrow> \<exists>i < length gs. active (gs ! i) = 1"
proof (induction gs)
  case (Cons g gs)
  show ?case
  proof (cases "active g = 1")
    case False
    then have "active g = 0" by (cases g) simp_all
    with Cons obtain i where "i < length gs" "active (gs ! i) = 1" by auto
    then show ?thesis by (intro exI [of _ "Suc i"]) simp
  qed (auto intro: exI [of _ 0])
qed simp

lemma active_goroutine_steps:
  assumes inv: "runner_inv vs s" and i: "i < length (rs_gs s)" and a: "active (rs_gs s ! i) = 1"
  shows "\<exists>s'. runner_step c s s'"
proof (cases "rs_gs s ! i")
  case (Started v)
  obtain q w where "cv_Verify v c (rs_world s) = (q, w)" by (cases "cv_Verify v c (rs_world s)")
  then show ?thesis using runner_step.verify_ok [OF i Started] runner_step.verify_fail [OF i Started]
    by (cases q) blast+
next
  case (Sending e)
  from runner_step.send [OF i Sending sender_has_room [OF inv i Sending]] show ?thesis by blast
next
  case Finishing
  from runner_step.finish [OF i this] show ?thesis by blast
next
  case Exited
  then show ?thesis using a by simp
qed

lemma runner_progress:
  assumes inv: "runner_inv vs s"
  shows "(\<exists>r. rs_pc s = Returned r) \<or> (\<exists>s'. runner_step c s s')"
proof (cases "rs_pc s")
  case (AtAdd vs')
  then show ?thesis by (cases vs') (blast intro: runner_step.intros)+
next
  case AtWait
  show ?thesis
  proof (cases "rs_wg s = 0")
    case True
    then show ?thesis using runner_step.wait [OF AtWait] by blast
  next
    case False
    then have "0 < sum_over active (rs_gs s)" using runner_invD(4) [OF inv] AtWait by (simp add: pc_simps)
    then show ?thesis using active_witness active_goroutine_steps [OF inv] by blast
  qed
next
  case AtDrain
  then have "rs_closed s" using runner_invD(5) [OF inv] by (simp add: pc_simps)
  then show ?thesis using runner_step.receive [OF AtDrain] runner_step.return [OF AtDrain]
    by (cases "rs_chan s") blast+
qed (blast intro: runner_step.intros)+

lemma runs_steps_left:
  assumes "runs c vs w s"
  shows "steps_left s \<le> 6 * length vs + 4"
  using assms
proof (induction rule: runs.induct)
  case start
  then show ?case by (simp add: steps_left_def runner_init_def)
next
  case (program s s')
  then show ?case using steps_left_decreases by fastforce
next
  case (environment s s')
  then show ?case by (auto elim!: env_stepE simp: steps_left_def)
qed

lemma runner_reaches_return:
  assumes "runner_inv vs s"
  shows "\<exists>s' r. (runner_step c)\<^sup>*\<^sup>* s s' \<and> rs_pc s' = Returned r"
  using assms
proof (induction "steps_left s" arbitrary: s rule: less_induct)
  case less
  show ?case
  proof (cases "\<exists>r. rs_pc s = Returned r")
    case False
    then obtain t where t: "runner_step c s t" using runner_progress [OF less(2)] by blast
    from less(1) [OF steps_left_decreases [OF t] runner_inv_step [OF less(2) t]] t
    show ?thesis by (meson converse_rtranclp_into_rtranclp)
  qed blast
qed

lemma runs_rtranclp:
  assumes "runs c vs w s" and "(runner_step c)\<^sup>*\<^sup>* s s'"
  shows "runs c vs w s'"
  using assms(2) by (induction rule: rtranclp_induct) (simp add: assms(1), rule runs.program)

text \<open>
  C5. RunVerifiers always returns: it never deadlocks (a run that has not returned has a program
  step), every program step brings it nearer to its return, the outside world cannot push it
  back, and with \<open>n\<close> verifiers it makes at most \<open>6 n + 4\<close> program steps.
\<close>

theorem runner_returns:
  assumes "runs c vs w s"
  shows "((\<exists>r. rs_pc s = Returned r) \<or> (\<exists>s'. runner_step c s s'))
    \<and> (\<forall>s'. runner_step c s s' \<longrightarrow> steps_left s' < steps_left s)
    \<and> (\<forall>s'. env_step s s' \<longrightarrow> steps_left s' = steps_left s)
    \<and> steps_left s \<le> 6 * length vs + 4"
  using runner_progress [OF runs_inv [OF assms]] runs_steps_left [OF assms] steps_left_decreases
  by (auto elim!: env_stepE simp: steps_left_def)

section \<open>Verifiers with a contract\<close>

lemma calls_outcome:
  assumes "runs c vs w s" and "(v, u, q) \<in> set (rs_calls s)"
  shows "fst (cv_Verify v c u) = q"
  using assms
proof (induction rule: runs.induct)
  case start
  then show ?case by (simp add: runner_init_def)
next
  case (program s s')
  from program(2) show ?case by (cases rule: runner_step_cases) (use program in auto)
next
  case (environment s s')
  then show ?case by (auto elim!: env_stepE)
qed

lemma failure_reported:
  assumes "runs c vs w s" and "rs_pc s = Returned r" and "(v, u, Some e) \<in> set (rs_calls s)"
  shows "\<exists>errs. r = Some (ErrorsJoin errs) \<and> wrap_failure v e \<in> set errs"
proof -
  have "failure (v, u, Some e) \<subseteq># failures (rs_calls s)"
    using assms(3) by (induction "rs_calls s" arbitrary: s) (auto simp: failures_def in_set_conv_decomp)
  then have "wrap_failure v e \<in># failures (rs_calls s)" by (simp add: subseteq_mset_def mset_subset_eq_insertD)
  then have "wrap_failure v e \<in># mset (rs_errs s)"
    using returned_result(3) [OF runs_inv [OF assms(1)] assms(2)] by simp
  then show ?thesis
    using returned_result(2) [OF runs_inv [OF assms(1)] assms(2)] by (auto simp: errors_Join_def)
qed

text \<open>
  The contract of a verifier \<open>v\<close> over a client \<open>c\<close>: its Verify succeeds exactly in the worlds
  where the property \<open>ok\<close> it stands for holds. What RunVerifiers then reports about the
  verifier follows once and for all, whatever runs beside it.
\<close>

locale verifier_contract =
  fixes v :: "('c, 'w) cluster_verifier" and c :: 'c and ok :: "'w \<Rightarrow> bool"
  assumes verdict: "fst (cv_Verify v c w) = None \<longleftrightarrow> ok w"
begin

lemma called_once:
  assumes "runs c vs w s" and "rs_pc s = Returned r" and "v \<in> set vs"
  shows "\<exists>u q. (v, u, q) \<in> set (rs_calls s) \<and> (q = None \<longleftrightarrow> ok u)"
proof -
  have "v \<in># mset (map fst (rs_calls s))"
    using returned_result(1) [OF runs_inv [OF assms(1)] assms(2)] assms(3) by simp
  then obtain u q where "(v, u, q) \<in> set (rs_calls s)" by auto
  with calls_outcome [OF assms(1) this] verdict show ?thesis by blast
qed

lemma nil_certifies:
  assumes "runs c vs w s" and "rs_pc s = Returned None" and "v \<in> set vs"
  shows "\<exists>u. (v, u, None) \<in> set (rs_calls s) \<and> ok u"
proof -
  obtain u q where uq: "(v, u, q) \<in> set (rs_calls s)" "q = None \<longleftrightarrow> ok u"
    using called_once [OF assms] by blast
  moreover have "q = None"
    using failure_reported [OF assms(1,2)] uq(1) by (cases q) auto
  ultimately show ?thesis by blast
qed

lemma violation_reported:
  assumes "runs c vs w s" and "rs_pc s = Returned r" and "(v, u, q) \<in> set (rs_calls s)" and "\<not> ok u"
  shows "\<exists>e errs. q = Some e \<and> r = Some (ErrorsJoin errs) \<and> wrap_failure v e \<in> set errs"
proof -
  obtain e where "q = Some e" using calls_outcome [OF assms(1,3)] verdict [of u] assms(4) by (cases q) auto
  with failure_reported [OF assms(1,2)] assms(3) show ?thesis by blast
qed

end

text \<open>Verifiers that leave the world alone all see the world that RunVerifiers was called in.\<close>

lemma quiet_run:
  assumes "(runner_step c)\<^sup>*\<^sup>* (runner_init vs w) s" and quiet: "\<And>v u. v \<in> set vs \<Longrightarrow> snd (cv_Verify v c u) = u"
  shows "rs_world s = w \<and> (\<forall>(v, u, q) \<in> set (rs_calls s). u = w)
    \<and> list_all (\<lambda>g. \<forall>v. g = Started v \<longrightarrow> v \<in> set vs) (rs_gs s) \<and> set (pending (rs_pc s)) \<subseteq> set vs"
  using assms(1)
proof (induction rule: rtranclp_induct)
  case base
  show ?case by (simp add: runner_init_def)
next
  case (step s s')
  have same: "w' = rs_world s" if "i < length (rs_gs s)" "rs_gs s ! i = Started v"
    "cv_Verify v c (rs_world s) = (q, w')" for i v q w'
    using that step(3) quiet [of v "rs_world s"] by (auto simp: list_all_length)
  from step(2) show ?case
    by (cases rule: runner_step_cases) (use step(3) same in \<open>auto simp: list_all_length nth_list_update nth_append less_Suc_eq\<close>)
qed

lemma quiet_pass:
  assumes quiet: "\<And>v u. v \<in> set vs \<Longrightarrow> snd (cv_Verify v c u) = u"
    and pass: "\<And>v. v \<in> set vs \<Longrightarrow> fst (cv_Verify v c w) = None"
  shows "\<exists>s. (runner_step c)\<^sup>*\<^sup>* (runner_init vs w) s \<and> rs_pc s = Returned None \<and> rs_world s = w"
proof -
  obtain s r where s: "(runner_step c)\<^sup>*\<^sup>* (runner_init vs w) s" "rs_pc s = Returned r"
    using runner_reaches_return [OF runner_inv_init [of vs w], of c] by blast
  have run: "runs c vs w s" by (rule runs_rtranclp [OF runs.start s(1)])
  have u: "\<forall>(v, u, q) \<in> set (rs_calls s). u = w" using quiet_run [OF s(1) quiet] by blast
  have vs: "fst ` set (rs_calls s) = set vs"
    using returned_result(1) [OF runs_inv [OF run] s(2)] by (metis set_map set_mset_mset)
  have "\<forall>(v, u, q) \<in> set (rs_calls s). q = None"
  proof clarify
    fix v u' q assume c: "(v, u', q) \<in> set (rs_calls s)"
    then have "u' = w" and "v \<in> set vs" using u vs by force+
    then show "q = None" using calls_outcome [OF run c] pass by simp
  qed
  then have "r = None"
    using returned_result(2,3) [OF runs_inv [OF run] s(2)] failures_empty_iff [of "rs_calls s"] by simp
  then show ?thesis using s quiet_run [OF s(1) quiet] by blast
qed

section \<open>One verifier after the other\<close>

text \<open>
  The schedule in which each goroutine has finished before the next one starts. It is one of the interleavings, and
  \<open>schedules\<close> says of a function that it always answers with the outcome of some interleaving.
\<close>

fun call_in_order :: "'c \<Rightarrow> ('c, 'w) cluster_verifier list \<Rightarrow> 'w \<Rightarrow> go_error list \<times> 'w" where
  "call_in_order c [] w = ([], w)"
| "call_in_order c (v # vs) w =
     (case cv_Verify v c w of
        (None, w') \<Rightarrow> call_in_order c vs w'
      | (Some err, w') \<Rightarrow> (case call_in_order c vs w' of (errs, w'') \<Rightarrow> (wrap_failure v err # errs, w'')))"

definition run_in_order :: "'c \<Rightarrow> ('c, 'w) cluster_verifier list \<Rightarrow> 'w \<Rightarrow> go_error option \<times> 'w" where
  "run_in_order c vs w = (case call_in_order c vs w of (errs, w') \<Rightarrow> (errors_Join errs, w'))"

definition schedules :: "('c \<Rightarrow> ('c, 'w) cluster_verifier list \<Rightarrow> 'w \<Rightarrow> go_error option \<times> 'w) \<Rightarrow> bool" where
  "schedules run \<longleftrightarrow> (\<forall>c vs w. \<exists>s. runs c vs w s \<and> rs_pc s = Returned (fst (run c vs w)) \<and> rs_world s = snd (run c vs w))"

definition between_calls :: "('c, 'w) cluster_verifier list \<Rightarrow> go_error list \<Rightarrow> 'w \<Rightarrow> ('c, 'w) runner_state \<Rightarrow> bool" where
  "between_calls vs errs w s \<longleftrightarrow> rs_pc s = AtAdd vs \<and> rs_wg s = 0 \<and> \<not> rs_closed s \<and> rs_chan s = errs \<and> rs_errs s = []
     \<and> length errs + length vs \<le> rs_cap s \<and> rs_world s = w"

lemma goroutine_in_order:
  assumes "between_calls (v # vs) errs w s"
  shows "\<exists>s'. (runner_step c)\<^sup>*\<^sup>* s s'
    \<and> between_calls vs (errs @ map (wrap_failure v) (case fst (cv_Verify v c w) of None \<Rightarrow> [] | Some e \<Rightarrow> [e])) (snd (cv_Verify v c w)) s'"
proof -
  let ?i = "length (rs_gs s)" and ?gs = "rs_gs s"
  let ?s2 = "s\<lparr>rs_wg := 1, rs_pc := AtAdd vs, rs_gs := ?gs @ [Started v]\<rparr>"
  have s: "rs_pc s = AtAdd (v # vs)" "rs_wg s = 0" "\<not> rs_closed s" "rs_world s = w" "length (rs_chan s) < rs_cap s"
    using assms by (auto simp: between_calls_def)
  have start: "(runner_step c)\<^sup>*\<^sup>* s ?s2"
    using runner_step.add [OF s(1), of c] runner_step.go [of "s\<lparr>rs_pc := AtGo v vs, rs_wg := Suc (rs_wg s)\<rparr>" v vs c] s(2)
    by (auto intro!: converse_rtranclp_into_rtranclp [of "runner_step c" s] r_into_rtranclp)
  obtain q u where q: "cv_Verify v c w = (q, u)" by (metis surj_pair)
  let ?chan = "errs @ map (wrap_failure v) (case q of None \<Rightarrow> [] | Some e \<Rightarrow> [e])"
  have "\<exists>s3. (runner_step c)\<^sup>*\<^sup>* ?s2 s3 \<and> rs_gs s3 = ?gs @ [Finishing] \<and> rs_pc s3 = AtAdd vs \<and> rs_wg s3 = 1 \<and> \<not> rs_closed s3
      \<and> rs_chan s3 = ?chan \<and> rs_errs s3 = rs_errs s \<and> rs_cap s3 = rs_cap s \<and> rs_world s3 = u"
  proof (cases q)
    case None
    let ?s3 = "?s2\<lparr>rs_gs := ?gs @ [Finishing], rs_calls := rs_calls s @ [(v, w, None)], rs_world := u\<rparr>"
    have "runner_step c ?s2 ?s3" using runner_step.verify_ok [of ?i ?s2 v c u] q None s(4) by simp
    then show ?thesis by (intro exI [of _ ?s3]) (use None assms s in \<open>auto simp: between_calls_def\<close>)
  next
    case (Some e)
    let ?s3 = "?s2\<lparr>rs_gs := ?gs @ [Sending (wrap_failure v e)], rs_calls := rs_calls s @ [(v, w, Some e)], rs_world := u\<rparr>"
    have 1: "runner_step c ?s2 ?s3" using runner_step.verify_fail [of ?i ?s2 v c e u] q Some s(4) by simp
    let ?s4 = "?s3\<lparr>rs_gs := ?gs @ [Finishing], rs_chan := rs_chan s @ [wrap_failure v e]\<rparr>"
    have "runner_step c ?s3 ?s4" using runner_step.send [of ?i ?s3 "wrap_failure v e" c] s(3,5) by simp
    with 1 have "(runner_step c)\<^sup>*\<^sup>* ?s2 ?s4" by (rule converse_rtranclp_into_rtranclp [OF _ r_into_rtranclp])
    then show ?thesis by (intro exI [of _ ?s4]) (use Some assms s in \<open>simp add: between_calls_def\<close>)
  qed
  then obtain s3 where s3: "(runner_step c)\<^sup>*\<^sup>* ?s2 s3" "rs_gs s3 = ?gs @ [Finishing]" "rs_pc s3 = AtAdd vs" "rs_wg s3 = 1" "\<not> rs_closed s3"
    "rs_chan s3 = ?chan" "rs_errs s3 = rs_errs s" "rs_cap s3 = rs_cap s" "rs_world s3 = u" by blast
  let ?s4 = "s3\<lparr>rs_gs := (rs_gs s3)[?i := Exited], rs_wg := rs_wg s3 - 1, rs_panic := (rs_panic s3 \<or> rs_wg s3 = 0)\<rparr>"
  have "runner_step c s3 ?s4" using runner_step.finish [of ?i s3 c] s3(2) by simp
  with start s3(1) have "(runner_step c)\<^sup>*\<^sup>* s ?s4" by (meson rtranclp.rtrancl_into_rtrancl rtranclp_trans)
  then show ?thesis by (intro exI [of _ ?s4]) (use s3 q assms in \<open>auto simp: between_calls_def split: option.splits\<close>)
qed

lemma goroutines_in_order:
  assumes "between_calls vs errs w s"
  shows "\<exists>s'. (runner_step c)\<^sup>*\<^sup>* s s' \<and> between_calls [] (errs @ fst (call_in_order c vs w)) (snd (call_in_order c vs w)) s'"
  using assms
proof (induction vs arbitrary: errs w s)
  case (Cons v vs)
  obtain s1 where s1: "(runner_step c)\<^sup>*\<^sup>* s s1"
    "between_calls vs (errs @ map (wrap_failure v) (case fst (cv_Verify v c w) of None \<Rightarrow> [] | Some e \<Rightarrow> [e])) (snd (cv_Verify v c w)) s1"
    using goroutine_in_order [OF Cons.prems] by blast
  from Cons.IH [OF s1(2)] s1(1) show ?case
    by (auto intro: rtranclp_trans split: prod.splits option.splits)
qed (auto simp: between_calls_def)

lemma drain_channel:
  "rs_pc s = AtDrain \<Longrightarrow> rs_closed s \<Longrightarrow> \<exists>s'. (runner_step c)\<^sup>*\<^sup>* s s' \<and> rs_pc s' = Returned (errors_Join (rs_errs s @ rs_chan s)) \<and> rs_world s' = rs_world s"
proof (induction "rs_chan s" arbitrary: s)
  case Nil
  then have "runner_step c s (s\<lparr>rs_pc := Returned (errors_Join (rs_errs s))\<rparr>)" using runner_step.return [of s c] by simp
  with Nil show ?case by (auto intro!: exI [of _ "s\<lparr>rs_pc := Returned (errors_Join (rs_errs s))\<rparr>"])
next
  case (Cons e q)
  let ?t = "s\<lparr>rs_chan := q, rs_errs := rs_errs s @ [e]\<rparr>"
  have "runner_step c s ?t" using runner_step.receive [of s e q c] Cons by simp
  moreover have "\<exists>s'. (runner_step c)\<^sup>*\<^sup>* ?t s' \<and> rs_pc s' = Returned (errors_Join (rs_errs ?t @ rs_chan ?t)) \<and> rs_world s' = rs_world ?t"
    using Cons.prems by (intro Cons.hyps(1)) simp_all
  ultimately show ?case using Cons.hyps(2) [symmetric] by (auto intro: converse_rtranclp_into_rtranclp)
qed

lemma run_in_order_runs: "schedules run_in_order"
  unfolding schedules_def
proof (intro allI)
  fix c vs and w :: 'w
  let ?errs = "fst (call_in_order c vs w)" and ?w = "snd (call_in_order c vs w)"
  have "between_calls vs [] w (runner_init vs w)" by (simp add: between_calls_def runner_init_def)
  from goroutines_in_order [OF this, of c] obtain s where s: "(runner_step c)\<^sup>*\<^sup>* (runner_init vs w) s" "between_calls [] ?errs ?w s" by auto
  let ?t = "s\<lparr>rs_pc := AtDrain, rs_closed := True, rs_panic := (rs_panic s \<or> rs_closed s)\<rparr>"
  have "runner_step c s (s\<lparr>rs_pc := AtWait\<rparr>)" "runner_step c (s\<lparr>rs_pc := AtWait\<rparr>) (s\<lparr>rs_pc := AtClose\<rparr>)" "runner_step c (s\<lparr>rs_pc := AtClose\<rparr>) ?t"
    using s(2) runner_step.spawned [of s c] runner_step.wait [of "s\<lparr>rs_pc := AtWait\<rparr>" c] runner_step.close [of "s\<lparr>rs_pc := AtClose\<rparr>" c]
    by (simp_all add: between_calls_def)
  with s(1) have t: "(runner_step c)\<^sup>*\<^sup>* (runner_init vs w) ?t" by (meson rtranclp.rtrancl_into_rtrancl)
  obtain s' where s': "(runner_step c)\<^sup>*\<^sup>* ?t s'" "rs_pc s' = Returned (errors_Join ?errs)" "rs_world s' = ?w"
    using drain_channel [of ?t c] s(2) by (auto simp: between_calls_def)
  have "runs c vs w s'" using runs_rtranclp [OF runs.start rtranclp_trans [OF t s'(1)]] .
  then show "\<exists>s. runs c vs w s \<and> rs_pc s = Returned (fst (run_in_order c vs w)) \<and> rs_world s = snd (run_in_order c vs w)"
    using s' by (auto simp: run_in_order_def split: prod.splits)
qed

section \<open>Concrete runs\<close>

definition failing_verifier :: "(unit, unit) cluster_verifier" where
  "failing_verifier = \<lparr>cv_Name = ''V'', cv_Verify = (\<lambda>_ w. (Some (ErrorsNew ''broken''), w))\<rparr>"

lemma failing_about_to_send:
  "\<exists>s. runs () [failing_verifier] () s \<and> rs_gs s = [Sending (wrap_failure failing_verifier (ErrorsNew ''broken''))]"
proof -
  let ?init = "runner_init [failing_verifier] ()"
  let ?s1 = "?init\<lparr>rs_pc := AtGo failing_verifier [], rs_wg := 1\<rparr>"
  let ?s2 = "?s1\<lparr>rs_pc := AtAdd [], rs_gs := [Started failing_verifier]\<rparr>"
  have 1: "runner_step () ?init ?s1"
    using runner_step.add [of ?init failing_verifier "[]"] by (simp add: runner_init_def)
  have 2: "runner_step () ?s1 ?s2"
    using runner_step.go [of ?s1 failing_verifier "[]"] by (simp add: runner_init_def)
  obtain s3 where 3: "runner_step () ?s2 s3"
    "rs_gs s3 = [Sending (wrap_failure failing_verifier (ErrorsNew ''broken''))]"
    using runner_step.verify_fail [of 0 ?s2 failing_verifier "()" "ErrorsNew ''broken''" "()"]
    by (auto simp: failing_verifier_def)
  show ?thesis
    by (rule exI [of _ s3], rule conjI)
       (rule runs.program [OF runs.program [OF runs.program [OF runs.start 1] 2] 3(1)], rule 3(2))
qed

theorem runner_never_panics_or_blocks_witness:
  "\<exists>s e. runs () [failing_verifier] () s \<and> rs_gs s = [Sending e] \<and> \<not> rs_panic s
     \<and> \<not> rs_closed s \<and> length (rs_chan s) < rs_cap s"
proof -
  obtain s e where s: "runs () [failing_verifier] () s" "rs_gs s = [Sending e]" using failing_about_to_send by blast
  with runner_never_panics_or_blocks [OF s(1)] show ?thesis by auto
qed

theorem runner_aggregates_failures_witness:
  "\<exists>s r errs. runs () [failing_verifier] () s \<and> rs_pc s = Returned r \<and> r = errors_Join errs
     \<and> mset errs = failures (rs_calls s) \<and> mset (map fst (rs_calls s)) = mset [failing_verifier]"
proof -
  obtain s r where s: "(runner_step ())\<^sup>*\<^sup>* (runner_init [failing_verifier] ()) s" "rs_pc s = Returned r"
    using runner_reaches_return [OF runner_inv_init [of "[failing_verifier]" "()"], of "()"] by blast
  have run: "runs () [failing_verifier] () s" by (rule runs_rtranclp [OF runs.start s(1)])
  with runner_aggregates_failures [OF run s(2)] s(2) show ?thesis by blast
qed

theorem runner_returns_witness:
  "steps_left (runner_init [failing_verifier] ()) \<le> 10 \<and> (\<exists>s'. runner_step () (runner_init [failing_verifier] ()) s')"
  using runner_returns [OF runs.start [of "()" "[failing_verifier]" "()"]] by (simp add: runner_init_def)

end
