(* ===== verification/Item_Checks.thy ===== *)
theory Item_Checks
  imports Go_Prelude "HOL-Library.Multiset"
begin

text \<open>
  The loop most verifiers share: go over the items of a listing, append the problems of each
  item to a slice, and leave at once when an item cannot be read. \<open>scan_items item\<close> is that
  loop for the loop body \<open>item\<close>, which yields how it leaves the function (the error it returns
  with, or a panic) or the problems it appends. The contract of a loop body is the locale \<open>item_check\<close>; the verifiers interpret it on
  their own bodies, and what the whole loop reports follows here.
\<close>

fun scan_items :: "('a \<Rightarrow> 'e + string list) \<Rightarrow> 'a list \<Rightarrow> 'e + string list" where
  "scan_items item [] = Inr []"
| "scan_items item (x # xs) =
     (case item x of
        Inl e \<Rightarrow> Inl e
      | Inr ps \<Rightarrow> (case scan_items item xs of Inl e \<Rightarrow> Inl e | Inr qs \<Rightarrow> Inr (ps @ qs)))"

lemma scan_items_Inr:
  "scan_items item xs = Inr ps \<longleftrightarrow>
     (\<forall>x \<in> set xs. \<exists>qs. item x = Inr qs) \<and> ps = concat (map (\<lambda>x. projr (item x)) xs)"
proof (induction xs arbitrary: ps)
  case (Cons x xs)
  show ?case
  proof (cases "scan_items item xs")
    case (Inl e)
    then have "\<not> (\<forall>x \<in> set xs. \<exists>qs. item x = Inr qs)" using Cons [of "concat (map (\<lambda>x. projr (item x)) xs)"] by simp
    with Inl show ?thesis by (auto split: sum.splits)
  next
    case (Inr qs)
    then show ?thesis using Cons by (auto split: sum.splits)
  qed
qed auto

lemma scan_items_Nil_iff: "scan_items item xs = Inr [] \<longleftrightarrow> (\<forall>x \<in> set xs. item x = Inr [])"
  by (induction xs) (auto split: sum.splits)

lemma scan_items_collects:
  "scan_items item xs = Inr ps \<Longrightarrow> x \<in> set xs \<Longrightarrow> \<exists>qs. item x = Inr qs \<and> set qs \<subseteq> set ps"
  by (fastforce simp: scan_items_Inr)

lemma scan_items_source:
  "scan_items item xs = Inr ps \<Longrightarrow> p \<in> set ps \<Longrightarrow> \<exists>x \<in> set xs. \<exists>qs. item x = Inr qs \<and> p \<in> set qs"
  by (fastforce simp: scan_items_Inr)

lemma scan_items_error: "scan_items item xs = Inl e \<Longrightarrow> \<exists>x \<in> set xs. item x = Inl e"
  by (induction xs) (auto split: sum.splits)

lemma scan_items_soft:
  "(\<And>x. x \<in> set xs \<Longrightarrow> \<exists>ps. item x = Inr ps) \<Longrightarrow> \<exists>ps. scan_items item xs = Inr ps"
proof (induction xs)
  case (Cons x xs)
  then obtain ps qs where "item x = Inr ps" "scan_items item xs = Inr qs" by (metis list.set_intros)
  then show ?case by simp
qed simp

locale item_check =
  fixes item :: "'a \<Rightarrow> 'e + string list" and healthy :: "'a \<Rightarrow> bool"
  assumes accepts: "item x = Inr [] \<longleftrightarrow> healthy x"
begin

lemma scan_accepts: "scan_items item xs = Inr [] \<longleftrightarrow> (\<forall>x \<in> set xs. healthy x)"
  by (simp add: scan_items_Nil_iff accepts)

text \<open>The verdict does not depend on the order in which the client lists the items.\<close>

lemma scan_order: "mset xs = mset ys \<Longrightarrow> scan_items item xs = Inr [] \<longleftrightarrow> scan_items item ys = Inr []"
  unfolding scan_accepts by (metis set_mset_mset)

lemma scan_blocked:
  assumes "x \<in> set xs" and "\<not> healthy x"
  shows "scan_items item xs \<noteq> Inr []"
  using assms scan_accepts by blast

end

text \<open>A body that never returns early and whose problems name the item they are about.\<close>

locale named_item_check = item_check +
  fixes name :: "'a \<Rightarrow> string"
  assumes soft: "\<exists>ps. item x = Inr ps"
    and names: "item x = Inr ps \<Longrightarrow> p \<in> set ps \<Longrightarrow> contains p (name x)"
begin

lemma scan_total: "\<exists>ps. scan_items item xs = Inr ps"
  by (rule scan_items_soft) (rule soft)

lemma scan_names_unhealthy:
  assumes "scan_items item xs = Inr ps" and "x \<in> set xs" and "\<not> healthy x"
  shows "\<exists>p \<in> set ps. contains p (name x)"
proof -
  obtain qs where qs: "item x = Inr qs" "set qs \<subseteq> set ps" using scan_items_collects [OF assms(1,2)] by blast
  then have "qs \<noteq> []" using accepts assms(3) by auto
  then obtain p where "p \<in> set qs" by (cases qs) auto
  with qs names show ?thesis by blast
qed

lemma scan_reports_only_unhealthy:
  assumes "scan_items item xs = Inr ps" and "p \<in> set ps"
  shows "\<exists>x \<in> set xs. \<not> healthy x \<and> contains p (name x)"
proof -
  obtain x qs where x: "x \<in> set xs" "item x = Inr qs" "p \<in> set qs" using scan_items_source [OF assms] by blast
  then have "\<not> healthy x" using accepts [of x] by auto
  with x names show ?thesis by blast
qed

end

end
