(* ===== verification/Kube_Api.thy ===== *)
theory Kube_Api
  imports Go_Prelude
begin

text \<open>
  The Kubernetes data and clients that the verifiers use. The client libraries (client-go,
  apimachinery) are outside the repository: a client is a record of operations on the state \<open>'w\<close>
  of the outside world, passed to every function that uses it. The objects are records of the
  fields that the sources read.

  Decoded JSON is the datatype \<open>json\<close>; a Go \<open>map[string]interface{}\<close> is an association list read
  with \<open>map_of\<close>. The helpers getConditions (clusteroperators.go) and getNestedField, getNestedValue
  (service_cluster.go), which take such objects apart, are here because several verifiers use them.
\<close>

section \<open>Typed objects and the clientset\<close>

record condition =
  cond_Type :: string
  cond_Status :: string

record node =
  node_Name :: string
  node_Conditions :: "condition list"

record deployment =
  dep_Name :: string
  dep_SpecReplicas :: "int option"
  dep_Conditions :: "condition list"
  dep_ReadyReplicas :: int
  dep_Replicas :: int
  dep_UpdatedReplicas :: int

record 'w kube_client =
  nodes_List :: "string \<Rightarrow> 'w \<Rightarrow> (go_error + node list) \<times> 'w" \<comment> \<open>label selector\<close>
  deployments_List :: "string \<Rightarrow> 'w \<Rightarrow> (go_error + deployment list) \<times> 'w" \<comment> \<open>namespace\<close>
  deployments_Get :: "string \<Rightarrow> string \<Rightarrow> 'w \<Rightarrow> (go_error + deployment) \<times> 'w" \<comment> \<open>namespace, name\<close>
  pvc_GetPhase :: "string \<Rightarrow> string \<Rightarrow> 'w \<Rightarrow> (go_error + string) \<times> 'w" \<comment> \<open>namespace, name\<close>
  IsNotFound :: "go_error \<Rightarrow> bool" \<comment> \<open>apierrors.IsNotFound\<close>
  conditions_text :: "condition list \<Rightarrow> string" \<comment> \<open>the conditions as %v prints them\<close>

section \<open>Decoded JSON\<close>

datatype json = JNull | JBool bool | JInt int | JFloat string | JStr string | JArr "json list"
  | JObj "(string \<times> json) list"

type_synonym json_object = "(string \<times> json) list"

text \<open>
  The type assertions \<open>v, ok := x.(T)\<close> on the value under a key: \<open>None\<close> when the key is absent or
  the value has another type. \<open>str_or_empty\<close> is \<open>s, _ := m[k].(string)\<close>.
\<close>

fun as_str :: "json \<Rightarrow> string option" where
  "as_str (JStr s) = Some s" | "as_str _ = None"

fun as_obj :: "json \<Rightarrow> json_object option" where
  "as_obj (JObj m) = Some m" | "as_obj _ = None"

fun as_arr :: "json \<Rightarrow> json list option" where
  "as_arr (JArr xs) = Some xs" | "as_arr _ = None"

fun as_bool :: "json \<Rightarrow> bool option" where
  "as_bool (JBool b) = Some b" | "as_bool _ = None"

definition field_as :: "(json \<Rightarrow> 'a option) \<Rightarrow> json_object \<Rightarrow> string \<Rightarrow> 'a option" where
  "field_as as m k = (case map_of m k of None \<Rightarrow> None | Some v \<Rightarrow> as v)"

definition str_or_empty :: "json_object \<Rightarrow> string \<Rightarrow> string" where
  "str_or_empty m k = (case field_as as_str m k of None \<Rightarrow> [] | Some s \<Rightarrow> s)"

abbreviation ctype :: "json_object \<Rightarrow> string" where
  "ctype m \<equiv> str_or_empty m ''type''"

abbreviation cstatus :: "json_object \<Rightarrow> string" where
  "cstatus m \<equiv> str_or_empty m ''status''"

section \<open>The dynamic client\<close>

record gvr =
  gvr_Group :: string
  gvr_Version :: string
  gvr_Resource :: string

text \<open>
  The namespace \<open>''''\<close> stands for a call without \<open>Namespace(...)\<close>. The accessors of package
  unstructured are operations of the record too: their documented behaviour is \<open>unstructured_ok\<close>.
\<close>

record 'w dynamic_client =
  dyn_List :: "gvr \<Rightarrow> string \<Rightarrow> 'w \<Rightarrow> (go_error + json_object list) \<times> 'w"
  dyn_Get :: "gvr \<Rightarrow> string \<Rightarrow> string \<Rightarrow> 'w \<Rightarrow> (go_error + json_object) \<times> 'w"
  dyn_IsNotFound :: "go_error \<Rightarrow> bool"
  GetName :: "json_object \<Rightarrow> string"
  GetNamespace :: "json_object \<Rightarrow> string"
  NestedSlice :: "json_object \<Rightarrow> string list \<Rightarrow> json list \<times> bool \<times> go_error option"
  NestedBool :: "json_object \<Rightarrow> string list \<Rightarrow> bool \<times> bool \<times> go_error option"
  NestedInt64 :: "json_object \<Rightarrow> string list \<Rightarrow> int \<times> bool \<times> go_error option"

section \<open>Helpers of the sources on decoded objects\<close>

fun condition_maps :: "json list \<Rightarrow> json_object list \<Rightarrow> go_error + json_object list" where
  "condition_maps [] result = Inr result"
| "condition_maps (cond # conditions) result =
     (case as_obj cond of
        None \<Rightarrow> Inl (Errorf ''condition is not a map'' [])
      | Some condMap \<Rightarrow> condition_maps conditions (result @ [condMap]))"

definition getConditions :: "json_object \<Rightarrow> json_object list \<times> bool \<times> go_error option" where
  "getConditions obj =
     (case field_as as_obj obj ''status'' of
        None \<Rightarrow> ([], False, None)
      | Some status \<Rightarrow> (case field_as as_arr status ''conditions'' of
          None \<Rightarrow> ([], False, None)
        | Some conditions \<Rightarrow> (case condition_maps conditions [] of
            Inl err \<Rightarrow> ([], False, Some err)
          | Inr result \<Rightarrow> (result, True, None))))"

fun getNestedValue :: "json_object \<Rightarrow> string list \<Rightarrow> json \<times> bool \<times> go_error option" where
  "getNestedValue current [] = (JNull, False, None)"
| "getNestedValue current [field] =
     (case map_of current field of None \<Rightarrow> (JNull, False, None) | Some val \<Rightarrow> (val, True, None))"
| "getNestedValue current (field # g # flds) =
     (case map_of current field of
        None \<Rightarrow> (JNull, False, None)
      | Some nxt \<Rightarrow> (case as_obj nxt of
          None \<Rightarrow> (JNull, False, Some (Errorf ''field %s is not a map'' [FStr field]))
        | Some nextMap \<Rightarrow> getNestedValue nextMap (g # flds)))"

definition getNestedField :: "json_object \<Rightarrow> string list \<Rightarrow> string \<times> bool \<times> go_error option" where
  "getNestedField obj flds =
     (case getNestedValue obj flds of
        (val, found, err) \<Rightarrow>
          if \<not> found \<or> err \<noteq> None then ([], found, err)
          else (case as_str val of
            None \<Rightarrow> ([], False, Some (Errorf ''field %v is not a string'' [FStrs flds]))
          | Some str \<Rightarrow> (str, True, None)))"

lemma condition_maps_eq:
  "condition_maps cs acc =
     (if list_all (\<lambda>c. as_obj c \<noteq> None) cs then Inr (acc @ map (the \<circ> as_obj) cs)
      else Inl (Errorf ''condition is not a map'' []))"
  by (induction cs acc rule: condition_maps.induct) (auto split: option.splits)

lemma getConditions_found:
  "getConditions obj = (cs, True, e) \<longleftrightarrow>
     e = None \<and> (\<exists>status js. field_as as_obj obj ''status'' = Some status
       \<and> field_as as_arr status ''conditions'' = Some js
       \<and> list_all (\<lambda>c. as_obj c \<noteq> None) js \<and> cs = map (the \<circ> as_obj) js)"
  by (auto simp: getConditions_def condition_maps_eq split: option.splits sum.splits if_splits)

text \<open>The path that a chain of keys follows through nested objects, when every step exists.\<close>

fun json_path :: "json \<Rightarrow> string list \<Rightarrow> json option" where
  "json_path j [] = Some j"
| "json_path j (k # ks) =
     (case as_obj j of None \<Rightarrow> None
      | Some m \<Rightarrow> (case map_of m k of None \<Rightarrow> None | Some v \<Rightarrow> json_path v ks))"

lemma getNestedValue_found:
  "ks \<noteq> [] \<Longrightarrow> (\<exists>e. getNestedValue m ks = (v, True, e)) \<longleftrightarrow> json_path (JObj m) ks = Some v"
  by (induction m ks rule: getNestedValue.induct)
     (auto split: option.splits elim: as_obj.elims)

lemma getNestedValue_not_found:
  "getNestedValue m ks = (v, False, e) \<Longrightarrow> v = JNull"
  by (induction m ks rule: getNestedValue.induct) (auto split: option.splits)

lemma getNestedValue_found_no_error: "getNestedValue m ks = (v, True, e) \<Longrightarrow> e = None"
  by (induction m ks rule: getNestedValue.induct) (auto split: option.splits)

lemma getNestedField_found:
  assumes "ks \<noteq> []"
  shows "getNestedField m ks = (s, True, None) \<longleftrightarrow> json_path (JObj m) ks = Some (JStr s)"
proof -
  obtain v f e where q: "getNestedValue m ks = (v, f, e)" by (metis prod_cases3)
  have p: "json_path (JObj m) ks = Some (JStr s) \<longleftrightarrow> f \<and> v = JStr s"
    using getNestedValue_found [OF assms, of m "JStr s"] q by auto
  show ?thesis
  proof (cases "f \<and> e = None")
    case True
    then show ?thesis unfolding p by (cases v) (simp_all add: getNestedField_def q)
  next
    case False
    then have "\<not> f" using getNestedValue_found_no_error [of m ks v e] q by (cases f) auto
    then show ?thesis unfolding p by (simp add: getNestedField_def q)
  qed
qed

section \<open>Concrete clients\<close>

text \<open>
  A dynamic client and a clientset that answer from fixed lists, for the concrete runs of the
  verifier theories. Their accessors do what package unstructured documents: a missing field
  is not found, a field of another type is an error.
\<close>

definition nested_as :: "(json \<Rightarrow> 'a option) \<Rightarrow> 'a \<Rightarrow> json_object \<Rightarrow> string list \<Rightarrow> 'a \<times> bool \<times> go_error option" where
  "nested_as as dflt m ks =
     (case json_path (JObj m) ks of
        None \<Rightarrow> (dflt, False, None)
      | Some v \<Rightarrow> (case as v of
          None \<Rightarrow> (dflt, False, Some (ErrorsNew ''accessor error''))
        | Some x \<Rightarrow> (x, True, None)))"

fun as_int :: "json \<Rightarrow> int option" where
  "as_int (JInt i) = Some i" | "as_int _ = None"

definition static_dynamic :: "json_object list \<Rightarrow> unit dynamic_client" where
  "static_dynamic objs = \<lparr>
     dyn_List = (\<lambda>g ns w. (Inr objs, w)),
     dyn_Get = (\<lambda>g ns name w. case objs of [] \<Rightarrow> (Inl (External ''NotFound'' ''not found'' None), w) | m # _ \<Rightarrow> (Inr m, w)),
     dyn_IsNotFound = (\<lambda>e. case e of External r t c \<Rightarrow> r = ''NotFound'' | _ \<Rightarrow> False),
     GetName = (\<lambda>m. fst (nested_as as_str [] m [''metadata'', ''name''])),
     GetNamespace = (\<lambda>m. fst (nested_as as_str [] m [''metadata'', ''namespace''])),
     NestedSlice = nested_as as_arr [], NestedBool = nested_as as_bool False, NestedInt64 = nested_as as_int 0\<rparr>"

definition static_kube :: "node list \<Rightarrow> deployment list \<Rightarrow> unit kube_client" where
  "static_kube ns ds = \<lparr>nodes_List = (\<lambda>sel w. (Inr ns, w)), deployments_List = (\<lambda>n w. (Inr ds, w)),
     deployments_Get = (\<lambda>n name w. (case find (\<lambda>d. dep_Name d = name) ds of
        None \<Rightarrow> Inl (External ''NotFound'' ''not found'' None) | Some d \<Rightarrow> Inr d, w)),
     pvc_GetPhase = (\<lambda>n name w. (Inl (External ''NotFound'' ''not found'' None), w)),
     IsNotFound = (\<lambda>e. case e of External r t c \<Rightarrow> r = ''NotFound'' | _ \<Rightarrow> False), conditions_text = (\<lambda>cs. [])\<rparr>"

definition sample_object :: "string \<Rightarrow> json list \<Rightarrow> json_object" where
  "sample_object name conds = [(''metadata'', JObj [(''name'', JStr name)]), (''status'', JObj [(''conditions'', JArr conds)])]"

definition sample_condition :: "string \<Rightarrow> string \<Rightarrow> json" where
  "sample_condition t st = JObj [(''type'', JStr t), (''status'', JStr st)]"

end
