(* ===== verification/Node_Verifiers.thy ===== *)
theory Node_Verifiers
  imports Verifier_Runner Item_Checks Kube_Api
begin

text \<open>
  pkg/verifiers/nodes.go: the two implementations of ClusterVerifier, VerifyAllNodesReady and
  VerifyNodeCount, and what RunVerifiers reports when it runs them.
\<close>

section \<open>The verifiers\<close>

fun node_ready_flag :: "bool \<Rightarrow> condition list \<Rightarrow> bool" where
  "node_ready_flag nodeIsReady [] = nodeIsReady"
| "node_ready_flag nodeIsReady (cond # conds) =
     node_ready_flag (if cond_Type cond = ''Ready'' \<and> cond_Status cond = ''True'' then True else nodeIsReady) conds"

fun not_ready_nodes :: "node list \<Rightarrow> string list \<Rightarrow> string list" where
  "not_ready_nodes [] acc = acc"
| "not_ready_nodes (n # ns) acc =
     not_ready_nodes ns (if \<not> node_ready_flag False (node_Conditions n) then acc @ [node_Name n] else acc)"

definition verifyAllNodesReady_Verify :: "'w kube_client \<Rightarrow> 'w \<Rightarrow> go_error option \<times> 'w" where
  "verifyAllNodesReady_Verify client w =
     (case nodes_List client [] w of
        (Inl err, w') \<Rightarrow> (Some (Errorf ''listing nodes: %w'' [FErr err]), w')
      | (Inr nodes, w') \<Rightarrow>
          if nodes = [] then (Some (Errorf ''no nodes found in the cluster'' []), w')
          else let notReadyNodes = not_ready_nodes nodes [] in
               if notReadyNodes \<noteq> [] then (Some (Errorf ''nodes not ready: %v'' [FStrs notReadyNodes]), w')
               else (None, w'))"

definition VerifyAllNodesReady :: "('w kube_client, 'w) cluster_verifier" where
  "VerifyAllNodesReady = \<lparr>cv_Name = ''VerifyAllNodesReady'', cv_Verify = verifyAllNodesReady_Verify\<rparr>"

definition verifyNodeCount_Verify :: "int \<Rightarrow> 'w kube_client \<Rightarrow> 'w \<Rightarrow> go_error option \<times> 'w" where
  "verifyNodeCount_Verify expected client w =
     (case nodes_List client ''node-role.kubernetes.io/worker'' w of
        (Inl err, w') \<Rightarrow> (Some (Errorf ''listing worker nodes: %w'' [FErr err]), w')
      | (Inr nodes, w') \<Rightarrow>
          if int (length nodes) \<noteq> expected
          then (Some (Errorf ''expected %d worker nodes, found %d'' [FInt expected, FInt (int (length nodes))]), w')
          else (None, w'))"

definition VerifyNodeCount :: "int \<Rightarrow> ('w kube_client, 'w) cluster_verifier" where
  "VerifyNodeCount expected = \<lparr>cv_Name = fmt_Sprintf ''VerifyNodeCount(%d)'' [FInt expected],
     cv_Verify = verifyNodeCount_Verify expected\<rparr>"

section \<open>What they accept\<close>

definition node_ready :: "node \<Rightarrow> bool" where
  "node_ready n \<longleftrightarrow> (\<exists>cond \<in> set (node_Conditions n). cond_Type cond = ''Ready'' \<and> cond_Status cond = ''True'')"

definition nodes_all_ready :: "'w kube_client \<Rightarrow> 'w \<Rightarrow> bool" where
  "nodes_all_ready client w \<longleftrightarrow>
     (\<exists>nodes w'. nodes_List client [] w = (Inr nodes, w') \<and> nodes \<noteq> [] \<and> (\<forall>n \<in> set nodes. node_ready n))"

definition worker_count_is :: "int \<Rightarrow> 'w kube_client \<Rightarrow> 'w \<Rightarrow> bool" where
  "worker_count_is k client w \<longleftrightarrow>
     (\<exists>nodes w'. nodes_List client ''node-role.kubernetes.io/worker'' w = (Inr nodes, w') \<and> int (length nodes) = k)"

lemma node_ready_flag_iff:
  "node_ready_flag b conds \<longleftrightarrow> b \<or> (\<exists>cond \<in> set conds. cond_Type cond = ''Ready'' \<and> cond_Status cond = ''True'')"
  by (induction b conds rule: node_ready_flag.induct) auto

lemma not_ready_nodes_eq:
  "not_ready_nodes ns acc = acc @ map node_Name (filter (\<lambda>n. \<not> node_ready n) ns)"
  by (induction ns acc rule: not_ready_nodes.induct) (simp_all add: node_ready_flag_iff node_ready_def)

interpretation all_ready: verifier_contract VerifyAllNodesReady client "nodes_all_ready client"
  by unfold_locales
     (auto simp: VerifyAllNodesReady_def verifyAllNodesReady_Verify_def nodes_all_ready_def not_ready_nodes_eq
        Let_def filter_empty_conv split: prod.splits sum.splits)

interpretation node_count: verifier_contract "VerifyNodeCount k" client "worker_count_is k client"
  by unfold_locales
     (auto simp: VerifyNodeCount_def verifyNodeCount_Verify_def worker_count_is_def split: prod.splits sum.splits)

text \<open>
  C6. When RunVerifiers is given VerifyAllNodesReady and VerifyNodeCount(k), among any other
  verifiers, and returns nil, then at the moment of the first one's call the client listed at
  least one node and every listed node had a condition Ready=True, and at the moment of the
  second one's call it listed exactly \<open>k\<close> worker nodes.
\<close>

theorem node_health_certified:
  assumes "runs client vs w s" and "rs_pc s = Returned None"
    and "VerifyAllNodesReady \<in> set vs" and "VerifyNodeCount k \<in> set vs"
  shows "(\<exists>u. (VerifyAllNodesReady, u, None) \<in> set (rs_calls s) \<and> nodes_all_ready client u)
    \<and> (\<exists>u. (VerifyNodeCount k, u, None) \<in> set (rs_calls s) \<and> worker_count_is k client u)"
  using all_ready.nil_certifies [OF assms(1-3)] node_count.nil_certifies [OF assms(1,2,4)] by blast

lemma not_ready_text:
  assumes "nodes_List client [] u = (Inr nodes, w')" and "n \<in> set nodes" and "\<not> node_ready n"
  shows "\<exists>e. fst (verifyAllNodesReady_Verify client u) = Some e \<and> contains (error_text e) (node_Name n)"
proof -
  let ?bad = "map node_Name (filter (\<lambda>n. \<not> node_ready n) nodes)"
  have mem: "node_Name n \<in> set ?bad" using assms(2,3) by auto
  then have "fst (verifyAllNodesReady_Verify client u) = Some (Errorf ''nodes not ready: %v'' [FStrs ?bad])"
    using assms by (auto simp: verifyAllNodesReady_Verify_def not_ready_nodes_eq Let_def filter_empty_conv)
  moreover have "contains (error_text (Errorf ''nodes not ready: %v'' [FStrs ?bad])) (node_Name n)"
    using mem by (intro Errorf_contains_strs [where i = 0 and ss = ?bad]) simp_all
  ultimately show ?thesis by blast
qed

text \<open>
  A node without Ready=True in the listing that VerifyAllNodesReady got makes RunVerifiers
  return an error, and one of the joined errors has the name of the verifier and the name of
  that node in its text.
\<close>

theorem not_ready_node_reported:
  fixes client :: "'w kube_client"
  assumes "runs client vs w s" and "rs_pc s = Returned r" and "(VerifyAllNodesReady, u, q) \<in> set (rs_calls s)"
    and "nodes_List client [] u = (Inr nodes, w')" and "n \<in> set nodes" and "\<not> node_ready n"
  shows "\<exists>errs e. r = Some (ErrorsJoin errs) \<and> e \<in> set errs
    \<and> contains (error_text e) ''VerifyAllNodesReady'' \<and> contains (error_text e) (node_Name n)"
proof -
  let ?v = "VerifyAllNodesReady :: ('w kube_client, 'w) cluster_verifier"
  obtain e where e: "fst (verifyAllNodesReady_Verify client u) = Some e" "contains (error_text e) (node_Name n)"
    using not_ready_text [OF assms(4-6)] by blast
  then have "\<not> nodes_all_ready client u" using all_ready.verdict [of client u] by (simp add: VerifyAllNodesReady_def)
  from all_ready.violation_reported [OF assms(1-3) this] obtain errs where
    r: "r = Some (ErrorsJoin errs)" "wrap_failure ?v e \<in> set errs"
    using calls_outcome [OF assms(1,3)] e(1) by (auto simp: VerifyAllNodesReady_def)
  have "contains (error_text (wrap_failure ?v e)) ''VerifyAllNodesReady''"
    unfolding wrap_failure_def by (rule Errorf_contains_str [where i = 0]) (simp_all add: VerifyAllNodesReady_def)
  moreover have "contains (error_text (wrap_failure ?v e)) (error_text e)"
    unfolding wrap_failure_def by (rule Errorf_contains_err [where i = 1]) simp_all
  ultimately show ?thesis using r e(2) contains_trans by blast
qed

section \<open>A concrete run\<close>

text \<open>
  A cluster whose client answers from the world itself: the world is the list of its nodes, all
  of them workers. Verifiers are applied to it in the world with one ready node and in the world
  with one node that is not ready.
\<close>

definition list_client :: "node list kube_client" where
  "list_client = \<lparr>nodes_List = (\<lambda>sel ns. (Inr ns, ns)), deployments_List = (\<lambda>n w. (Inr [], w)),
     deployments_Get = (\<lambda>n m w. (Inl (External ''NotFound'' ''not found'' None), w)),
     pvc_GetPhase = (\<lambda>n m w. (Inl (External ''NotFound'' ''not found'' None), w)),
     IsNotFound = (\<lambda>e. case e of External r t c \<Rightarrow> r = ''NotFound'' | _ \<Rightarrow> False), conditions_text = (\<lambda>cs. [])\<rparr>"

definition sample_node :: "string \<Rightarrow> node" where
  "sample_node status = \<lparr>node_Name = ''n1'', node_Conditions = [\<lparr>cond_Type = ''Ready'', cond_Status = status\<rparr>]\<rparr>"

definition sample_verifiers :: "(node list kube_client, node list) cluster_verifier list" where
  "sample_verifiers = [VerifyAllNodesReady, VerifyNodeCount 1]"

lemma sample_quiet: "v \<in> set sample_verifiers \<Longrightarrow> snd (cv_Verify v list_client u) = u"
  by (auto simp: sample_verifiers_def VerifyAllNodesReady_def verifyAllNodesReady_Verify_def
    VerifyNodeCount_def verifyNodeCount_Verify_def list_client_def Let_def)

lemma sample_run:
  "\<exists>s r. runs list_client sample_verifiers w s \<and> rs_pc s = Returned r
     \<and> (\<exists>q. (VerifyAllNodesReady, w, q) \<in> set (rs_calls s)) \<and> (\<forall>(v, u, q) \<in> set (rs_calls s). u = w)"
proof -
  obtain s r where s: "(runner_step list_client)\<^sup>*\<^sup>* (runner_init sample_verifiers w) s" "rs_pc s = Returned r"
    using runner_reaches_return [OF runner_inv_init [of sample_verifiers w], of list_client] by blast
  have run: "runs list_client sample_verifiers w s" by (rule runs_rtranclp [OF runs.start s(1)])
  have "\<forall>(v, u, q) \<in> set (rs_calls s). u = w" using quiet_run [OF s(1) sample_quiet] by blast
  moreover obtain u q where "(VerifyAllNodesReady, u, q) \<in> set (rs_calls s)"
    using all_ready.called_once [OF run s(2)] by (auto simp: sample_verifiers_def)
  ultimately have "(VerifyAllNodesReady, w, q) \<in> set (rs_calls s)" by auto
  then show ?thesis using run s(2) quiet_run [OF s(1) sample_quiet] by blast
qed

theorem not_ready_node_reported_witness:
  "\<exists>s errs e. runs list_client sample_verifiers [sample_node ''False''] s \<and> rs_pc s = Returned (Some (ErrorsJoin errs))
     \<and> e \<in> set errs \<and> contains (error_text e) ''VerifyAllNodesReady'' \<and> contains (error_text e) ''n1''"
proof -
  let ?w = "[sample_node ''False'']"
  obtain s r q where s: "runs list_client sample_verifiers ?w s" "rs_pc s = Returned r"
    "(VerifyAllNodesReady, ?w, q) \<in> set (rs_calls s)"
    using sample_run by blast
  have l: "nodes_List list_client [] ?w = (Inr ?w, ?w)" by (simp add: list_client_def)
  from not_ready_node_reported [OF s l, of "sample_node ''False''"] s(1,2) show ?thesis
    by (auto simp: sample_node_def node_ready_def)
qed

theorem node_health_certified_witness:
  "\<exists>s u. runs list_client sample_verifiers [sample_node ''True''] s \<and> rs_pc s = Returned None
     \<and> (VerifyAllNodesReady, u, None) \<in> set (rs_calls s) \<and> nodes_all_ready list_client u"
proof -
  let ?w = "[sample_node ''True'']"
  have "fst (cv_Verify v list_client ?w) = None" if "v \<in> set sample_verifiers" for v
    using that by (auto simp: sample_verifiers_def VerifyAllNodesReady_def verifyAllNodesReady_Verify_def
      VerifyNodeCount_def verifyNodeCount_Verify_def list_client_def sample_node_def)
  from quiet_pass [OF sample_quiet this] obtain s where
    s: "(runner_step list_client)\<^sup>*\<^sup>* (runner_init sample_verifiers ?w) s" "rs_pc s = Returned None" by auto
  have "runs list_client sample_verifiers ?w s" by (rule runs_rtranclp [OF runs.start s(1)])
  with s(2) node_health_certified [of list_client sample_verifiers ?w s 1] show ?thesis
    by (auto simp: sample_verifiers_def)
qed

end
