(* ===== verification/Operator_Verifiers.thy ===== *)
theory Operator_Verifiers
  imports Item_Checks Kube_Api
begin

text \<open>
  The verifiers of pkg/verifiers that read Kubernetes objects: clusteroperators.go,
  hostedcluster.go, hcp_namespace.go, managed_operators.go, management_cluster.go,
  service_cluster.go, workload.go and storage.go. Each loop body is a definition of its own
  (\<open>..._item\<close>) that \<open>scan_items\<close> runs over the listing; each is an instance of \<open>item_check\<close> with
  the condition under which it appends nothing.
\<close>

section \<open>clusteroperators.go\<close>

definition clusterOperatorGVR :: gvr where
  "clusterOperatorGVR = \<lparr>gvr_Group = ''config.openshift.io'', gvr_Version = ''v1'', gvr_Resource = ''clusteroperators''\<rparr>"

fun operator_conditions :: "json_object list \<Rightarrow> bool \<Rightarrow> bool \<Rightarrow> string list \<Rightarrow> bool \<times> bool \<times> string list" where
  "operator_conditions [] available degraded details = (available, degraded, details)"
| "operator_conditions (cond # conds) available degraded details =
     (let condType = ctype cond; condStatus = cstatus cond in
      operator_conditions conds
        (if condType = ''Available'' \<and> condStatus = ''True'' then True else available)
        (if condType = ''Degraded'' \<and> condStatus = ''False'' then False else degraded)
        (if condType = ''Available'' \<or> condType = ''Degraded'' \<or> condType = ''Progressing''
         then details @ [fmt_Sprintf ''%s=%s'' [FStr condType, FStr condStatus]] else details))"

definition cluster_operator_item :: "'w dynamic_client \<Rightarrow> string list \<Rightarrow> json_object \<Rightarrow> go_error + string list" where
  "cluster_operator_item dc excluded item =
     (let name = GetName dc item in
      if name \<in> set excluded then Inr []
      else (case getConditions item of
        (conditions, found, err) \<Rightarrow> (case err of
          Some e \<Rightarrow> Inl (Errorf ''getting conditions for %s: %w'' [FStr name, FErr e])
        | None \<Rightarrow>
            if \<not> found then Inr [fmt_Sprintf ''%s: no status.conditions found'' [FStr name]]
            else (case operator_conditions conditions False True [] of
              (available, degraded, details) \<Rightarrow>
                if \<not> available \<or> degraded then Inr [fmt_Sprintf ''%s: %v'' [FStr name, FStrs details]]
                else Inr []))))"

definition VerifyClusterOperatorsHealthy :: "'w dynamic_client \<Rightarrow> string list \<Rightarrow> 'w \<Rightarrow> go_error option \<times> 'w" where
  "VerifyClusterOperatorsHealthy dc excludeOperators w =
     (let excluded = map trim_space excludeOperators in
      case dyn_List dc clusterOperatorGVR [] w of
        (Inl err, w') \<Rightarrow> (Some (Errorf ''listing clusteroperators: %w'' [FErr err]), w')
      | (Inr items, w') \<Rightarrow>
          if items = [] then (Some (Errorf ''no clusteroperators found'' []), w')
          else (case scan_items (cluster_operator_item dc excluded) items of
            Inl e \<Rightarrow> (Some e, w')
          | Inr unhealthy \<Rightarrow>
              if unhealthy \<noteq> []
              then (Some (Errorf (''unhealthy clusteroperators found:'' @ nl @ ''  %v'') [FStrs unhealthy]), w')
              else (None, w')))"

section \<open>hostedcluster.go\<close>

definition hostedClusterGVR :: gvr where
  "hostedClusterGVR = \<lparr>gvr_Group = ''hypershift.openshift.io'', gvr_Version = ''v1beta1'', gvr_Resource = ''hostedclusters''\<rparr>"

definition nodePoolGVR :: gvr where
  "nodePoolGVR = \<lparr>gvr_Group = ''hypershift.openshift.io'', gvr_Version = ''v1beta1'', gvr_Resource = ''nodepools''\<rparr>"

definition condition_issue :: "string \<Rightarrow> json_object \<Rightarrow> string" where
  "condition_issue fmt m = fmt_Sprintf fmt [FStr (cstatus m), FStr (str_or_empty m ''reason''), FStr (str_or_empty m ''message'')]"

text \<open>The loop of verifyConditions: the issues, and whether the two conditions were found.\<close>

fun health_conditions :: "json list \<Rightarrow> string list \<Rightarrow> bool \<Rightarrow> bool \<Rightarrow> string list \<times> bool \<times> bool" where
  "health_conditions [] issues availableFound degradedFound = (issues, availableFound, degradedFound)"
| "health_conditions (cond # conds) issues availableFound degradedFound =
     (case as_obj cond of
        None \<Rightarrow> health_conditions conds issues availableFound degradedFound
      | Some condMap \<Rightarrow>
          (let issues1 = (if ctype condMap = ''Available'' \<and> cstatus condMap \<noteq> ''True''
                 then issues @ [condition_issue ''Available=%s (reason: %s, message: %s)'' condMap] else issues);
               issues2 = (if ctype condMap = ''Degraded'' \<and> cstatus condMap \<noteq> ''False''
                 then issues1 @ [condition_issue ''Degraded=%s (reason: %s, message: %s)'' condMap] else issues1)
           in health_conditions conds issues2 (availableFound \<or> ctype condMap = ''Available'')
                (degradedFound \<or> ctype condMap = ''Degraded'')))"

definition verifyConditions :: "'w dynamic_client \<Rightarrow> json_object \<Rightarrow> string \<Rightarrow> string \<Rightarrow> string \<Rightarrow> go_error option" where
  "verifyConditions dc obj kind namespace name =
     (case NestedSlice dc obj [''status'', ''conditions''] of
        (conditions, found, err) \<Rightarrow> (case err of
          Some e \<Rightarrow> Some (Errorf ''extracting conditions from %s %s/%s: %w'' [FStr kind, FStr namespace, FStr name, FErr e])
        | None \<Rightarrow>
            if \<not> found then Some (Errorf ''%s %s/%s has no status conditions'' [FStr kind, FStr namespace, FStr name])
            else (case health_conditions conditions [] False False of
              (issues, availableFound, degradedFound) \<Rightarrow>
                (let issues1 = (if \<not> availableFound then issues @ [''Available condition not found''] else issues);
                     issues2 = (if \<not> degradedFound then issues1 @ [''Degraded condition not found''] else issues1)
                 in if issues2 \<noteq> []
                    then Some (Errorf (''%s %s/%s is not healthy:'' @ nl @ ''%s'')
                           [FStr kind, FStr namespace, FStr name, FStr (str_join nl issues2)])
                    else None))))"

definition VerifyHostedClusterHealthy :: "'w dynamic_client \<Rightarrow> string \<Rightarrow> string \<Rightarrow> 'w \<Rightarrow> go_error option \<times> 'w" where
  "VerifyHostedClusterHealthy dc namespace name w =
     (case dyn_Get dc hostedClusterGVR namespace name w of
        (Inl err, w') \<Rightarrow> (Some (Errorf ''getting HostedCluster %s/%s: %w'' [FStr namespace, FStr name, FErr err]), w')
      | (Inr hc, w') \<Rightarrow> (verifyConditions dc hc ''HostedCluster'' namespace name, w'))"

fun nodepool_conditions :: "json_object list \<Rightarrow> bool \<Rightarrow> bool \<Rightarrow> string list \<Rightarrow> bool \<times> bool \<times> string list" where
  "nodepool_conditions [] ready nodesHealthy details = (ready, nodesHealthy, details)"
| "nodepool_conditions (cond # conds) ready nodesHealthy details =
     (let condType = ctype cond; condStatus = cstatus cond;
          (ready1, details1) =
            (if condType = ''Ready''
             then (if condStatus = ''True'' then True else ready, details @ [fmt_Sprintf ''Ready=%s'' [FStr condStatus]])
             else (ready, details));
          (healthy1, details2) =
            (if condType = ''AllNodesHealthy''
             then (if condStatus = ''True'' then True else nodesHealthy,
                   details1 @ [fmt_Sprintf ''AllNodesHealthy=%s'' [FStr condStatus]])
             else (nodesHealthy, details1))
      in nodepool_conditions conds ready1 healthy1 details2)"

definition nodepool_item :: "'w dynamic_client \<Rightarrow> string \<Rightarrow> json_object \<Rightarrow> go_error + string list" where
  "nodepool_item dc namespace np =
     (let name = GetName dc np in
      case getConditions np of
        (conditions, found, err) \<Rightarrow>
          if err \<noteq> None \<or> \<not> found
          then Inr [fmt_Sprintf ''NodePool %s/%s: no conditions found'' [FStr namespace, FStr name]]
          else (case nodepool_conditions conditions False False [] of
            (ready, nodesHealthy, details) \<Rightarrow>
              if \<not> ready \<or> \<not> nodesHealthy
              then Inr [fmt_Sprintf ''NodePool %s/%s: %v'' [FStr namespace, FStr name, FStrs details]]
              else Inr []))"

definition VerifyNodePoolHealthy :: "'w dynamic_client \<Rightarrow> string \<Rightarrow> 'w \<Rightarrow> go_error option \<times> 'w" where
  "VerifyNodePoolHealthy dc namespace w =
     (case dyn_List dc nodePoolGVR namespace w of
        (Inl err, w') \<Rightarrow> (Some (Errorf ''listing NodePools in %s: %w'' [FStr namespace, FErr err]), w')
      | (Inr items, w') \<Rightarrow>
          if items = [] then (Some (Errorf ''no NodePools found in namespace %s'' [FStr namespace]), w')
          else (case scan_items (nodepool_item dc namespace) items of
            Inl e \<Rightarrow> (Some e, w')
          | Inr unhealthy \<Rightarrow>
              if unhealthy \<noteq> []
              then (Some (Errorf (''%d unhealthy NodePools:'' @ nl @ ''%s'')
                      [FInt (int (length unhealthy)), FStr (str_join nl unhealthy)]), w')
              else (None, w')))"

section \<open>Deployments: hcp_namespace.go, management_cluster.go, workload.go\<close>

text \<open>The condition loop of every deployment check: it stops at the first Available=True.\<close>

fun deployment_available :: "condition list \<Rightarrow> bool" where
  "deployment_available [] = False"
| "deployment_available (cond # conds) =
     (if cond_Type cond = ''Available'' \<and> cond_Status cond = ''True'' then True else deployment_available conds)"

definition hcp_deployment_item :: "deployment \<Rightarrow> go_error + string list" where
  "hcp_deployment_item deploy =
     (if dep_SpecReplicas deploy = Some 0 then Inr []
      else if \<not> deployment_available (dep_Conditions deploy)
      then Inr [fmt_Sprintf ''- %s: not Available (ready: %d/%d)''
                  [FStr (dep_Name deploy), FInt (dep_ReadyReplicas deploy), FInt (dep_Replicas deploy)]]
      else Inr [])"

definition VerifyHCPNamespaceHealthy :: "'w kube_client \<Rightarrow> string \<Rightarrow> 'w \<Rightarrow> go_error option \<times> 'w" where
  "VerifyHCPNamespaceHealthy mcClient hcpNamespace w =
     (case deployments_List mcClient hcpNamespace w of
        (Inl err, w') \<Rightarrow> (Some (Errorf ''listing deployments in namespace %s: %w'' [FStr hcpNamespace, FErr err]), w')
      | (Inr items, w') \<Rightarrow>
          if items = [] then (Some (Errorf ''no deployments found in namespace %s'' [FStr hcpNamespace]), w')
          else (case scan_items hcp_deployment_item items of
            Inl e \<Rightarrow> (Some e, w')
          | Inr unhealthy \<Rightarrow>
              if unhealthy \<noteq> []
              then (Some (Errorf (''found %d unhealthy deployments in namespace %s:'' @ nl @ ''%s'')
                      [FInt (int (length unhealthy)), FStr hcpNamespace, FStr (str_join nl unhealthy)]), w')
              else (None, w')))"

definition verifyDeploymentInNamespace :: "'w kube_client \<Rightarrow> string \<Rightarrow> string \<Rightarrow> 'w \<Rightarrow> go_error option \<times> 'w" where
  "verifyDeploymentInNamespace client namespace name w =
     (case deployments_Get client namespace name w of
        (Inl err, w') \<Rightarrow> (Some (Errorf ''getting deployment %s/%s: %w'' [FStr namespace, FStr name, FErr err]), w')
      | (Inr deploy, w') \<Rightarrow>
          if deployment_available (dep_Conditions deploy) then (None, w')
          else (Some (Errorf ''deployment %s/%s is not available (ready: %d/%d)''
                  [FStr namespace, FStr name, FInt (dep_ReadyReplicas deploy), FInt (dep_Replicas deploy)]), w'))"

definition VerifyHyperShiftOperator :: "'w kube_client \<Rightarrow> 'w \<Rightarrow> go_error option \<times> 'w" where
  "VerifyHyperShiftOperator client = verifyDeploymentInNamespace client ''hypershift'' ''operator''"

definition VerifyExternalDNS :: "'w kube_client \<Rightarrow> 'w \<Rightarrow> go_error option \<times> 'w" where
  "VerifyExternalDNS client = verifyDeploymentInNamespace client ''hypershift'' ''external-dns''"

definition VerifyCAPIProvider :: "'w kube_client \<Rightarrow> string \<Rightarrow> 'w \<Rightarrow> go_error option \<times> 'w" where
  "VerifyCAPIProvider client hcpNamespace = verifyDeploymentInNamespace client hcpNamespace ''capi-provider''"

definition VerifyDeploymentAvailable :: "'w kube_client \<Rightarrow> string \<Rightarrow> string \<Rightarrow> 'w \<Rightarrow> go_error option \<times> 'w" where
  "VerifyDeploymentAvailable client namespace name w =
     (case deployments_Get client namespace name w of
        (Inl err, w') \<Rightarrow> (Some (Errorf ''getting deployment %s/%s: %w'' [FStr namespace, FStr name, FErr err]), w')
      | (Inr deploy, w') \<Rightarrow>
          if deployment_available (dep_Conditions deploy) then (None, w')
          else (Some (Errorf ''deployment %s/%s is not available, conditions: %v''
                  [FStr namespace, FStr name, FOpaque (conditions_text client (dep_Conditions deploy))]), w'))"

section \<open>managed_operators.go\<close>

definition routeMonitorGVR :: gvr where
  "routeMonitorGVR = \<lparr>gvr_Group = ''monitoring.openshift.io'', gvr_Version = ''v1alpha1'', gvr_Resource = ''routemonitors''\<rparr>"

definition vpcEndpointGVR :: gvr where
  "vpcEndpointGVR = \<lparr>gvr_Group = ''avo.openshift.io'', gvr_Version = ''v1alpha2'', gvr_Resource = ''vpcendpoints''\<rparr>"

definition VerifyRMORouteMonitors :: "'w dynamic_client \<Rightarrow> string \<Rightarrow> 'w \<Rightarrow> go_error option \<times> 'w" where
  "VerifyRMORouteMonitors dc namespace w =
     (case dyn_List dc routeMonitorGVR namespace w of
        (Inl err, w') \<Rightarrow> (Some (Errorf ''listing RouteMonitors in namespace %s: %w'' [FStr namespace, FErr err]), w')
      | (Inr items, w') \<Rightarrow>
          if items = [] then (Some (Errorf ''no RouteMonitor CRs found in namespace %s'' [FStr namespace]), w')
          else (None, w'))"

definition availability_type :: "string \<Rightarrow> bool" where
  "availability_type condType \<longleftrightarrow> condType = ''AWSVpcEndpointReady'' \<or> equal_fold condType ''available''"

text \<open>The condition loop of VerifyAVOVpcEndpoints; its \<open>break\<close> ends the recursion.\<close>

fun endpoint_conditions :: "string \<Rightarrow> json list \<Rightarrow> bool \<Rightarrow> string list \<Rightarrow> bool \<times> string list" where
  "endpoint_conditions name [] availableCondFound unavailable = (availableCondFound, unavailable)"
| "endpoint_conditions name (cond # conds) availableCondFound unavailable =
     (case as_obj cond of
        None \<Rightarrow> endpoint_conditions name conds availableCondFound unavailable
      | Some condMap \<Rightarrow>
          if availability_type (ctype condMap)
          then (if equal_fold (cstatus condMap) ''true'' then (True, unavailable)
                else endpoint_conditions name conds True
                  (unavailable @ [fmt_Sprintf ''- %s: %s=%s (reason: %s, message: %s)''
                     [FStr name, FStr (ctype condMap), FStr (cstatus condMap),
                      FStr (str_or_empty condMap ''reason''), FStr (str_or_empty condMap ''message'')]]))
          else endpoint_conditions name conds availableCondFound unavailable)"

definition vpc_endpoint_item :: "'w dynamic_client \<Rightarrow> json_object \<Rightarrow> go_error + string list" where
  "vpc_endpoint_item dc vpe =
     (let name = GetName dc vpe in
      case NestedSlice dc vpe [''status'', ''conditions''] of
        (conditions, found, err) \<Rightarrow> (case err of
          Some e \<Rightarrow> Inl (Errorf ''extracting conditions from VpcEndpoint %s: %w'' [FStr name, FErr e])
        | None \<Rightarrow>
            if \<not> found then Inr [fmt_Sprintf ''- %s: no status conditions'' [FStr name]]
            else (case endpoint_conditions name conditions False [] of
              (availableCondFound, unavailable) \<Rightarrow>
                if \<not> availableCondFound
                then Inr (unavailable @ [fmt_Sprintf ''- %s: available condition not found'' [FStr name]])
                else Inr unavailable)))"

definition VerifyAVOVpcEndpoints :: "'w dynamic_client \<Rightarrow> string \<Rightarrow> 'w \<Rightarrow> go_error option \<times> 'w" where
  "VerifyAVOVpcEndpoints dc namespace w =
     (case dyn_List dc vpcEndpointGVR namespace w of
        (Inl err, w') \<Rightarrow> (Some (Errorf ''listing VpcEndpoints in namespace %s: %w'' [FStr namespace, FErr err]), w')
      | (Inr items, w') \<Rightarrow>
          if items = [] then (Some (Errorf ''no VpcEndpoint CRs found in namespace %s'' [FStr namespace]), w')
          else (case scan_items (vpc_endpoint_item dc) items of
            Inl e \<Rightarrow> (Some e, w')
          | Inr unavailable \<Rightarrow>
              if unavailable \<noteq> []
              then (Some (Errorf (''found %d unavailable VpcEndpoints in namespace %s:'' @ nl @ ''%s'')
                      [FInt (int (length unavailable)), FStr namespace, FStr (str_join nl unavailable)]), w')
              else (None, w')))"

definition VerifyAuditWebhook :: "'w kube_client \<Rightarrow> string \<Rightarrow> 'w \<Rightarrow> go_error option \<times> 'w" where
  "VerifyAuditWebhook client namespace w =
     (case deployments_Get client namespace ''audit-webhook'' w of
        (Inl err, w') \<Rightarrow> (Some (Errorf ''getting audit-webhook deployment in namespace %s: %w'' [FStr namespace, FErr err]), w')
      | (Inr deploy, w') \<Rightarrow>
          if \<not> deployment_available (dep_Conditions deploy)
          then (Some (Errorf ''audit-webhook deployment in namespace %s is not Available (ready: %d/%d)''
                  [FStr namespace, FInt (dep_ReadyReplicas deploy), FInt (dep_Replicas deploy)]), w')
          else (None, w'))"

section \<open>service_cluster.go\<close>

definition multiClusterHubGVR :: gvr where
  "multiClusterHubGVR = \<lparr>gvr_Group = ''operator.open-cluster-management.io'', gvr_Version = ''v1'',
     gvr_Resource = ''multiclusterhubs''\<rparr>"

definition multiClusterEngineGVR :: gvr where
  "multiClusterEngineGVR = \<lparr>gvr_Group = ''multicluster.openshift.io'', gvr_Version = ''v1'',
     gvr_Resource = ''multiclusterengines''\<rparr>"

text \<open>The loop of VerifyACMHub and VerifyMCE: does an object have the phase?\<close>

fun some_in_phase :: "string \<Rightarrow> json_object list \<Rightarrow> bool" where
  "some_in_phase phase [] = False"
| "some_in_phase phase (obj # objs) =
     (case getNestedField obj [''status'', ''phase''] of
        (status, found, err) \<Rightarrow>
          if err \<noteq> None \<or> \<not> found then some_in_phase phase objs
          else if status = phase then True
          else some_in_phase phase objs)"

definition VerifyACMHub :: "'w dynamic_client \<Rightarrow> 'w \<Rightarrow> go_error option \<times> 'w" where
  "VerifyACMHub dc w =
     (case dyn_List dc multiClusterHubGVR [] w of
        (Inl err, w') \<Rightarrow> (Some (Errorf ''listing multiclusterhubs: %w'' [FErr err]), w')
      | (Inr items, w') \<Rightarrow>
          if items = [] then (Some (Errorf ''no multiclusterhub CRs found'' []), w')
          else if some_in_phase ''Running'' items then (None, w')
          else (Some (Errorf ''no multiclusterhub CR has status.phase = Running'' []), w'))"

definition VerifyMCE :: "'w dynamic_client \<Rightarrow> 'w \<Rightarrow> go_error option \<times> 'w" where
  "VerifyMCE dc w =
     (case dyn_List dc multiClusterEngineGVR [] w of
        (Inl err, w') \<Rightarrow> (Some (Errorf ''listing multiclusterengines: %w'' [FErr err]), w')
      | (Inr items, w') \<Rightarrow>
          if items = [] then (Some (Errorf ''no multiclusterengine CRs found'' []), w')
          else if some_in_phase ''Available'' items then (None, w')
          else (Some (Errorf ''no multiclusterengine CR has status.phase = Available'' []), w'))"

definition VerifyCertManager :: "'w kube_client \<Rightarrow> 'w \<Rightarrow> go_error option \<times> 'w" where
  "VerifyCertManager client = verifyDeploymentInNamespace client ''cert-manager'' ''cert-manager''"

definition VerifyHiveControllers :: "'w kube_client \<Rightarrow> 'w \<Rightarrow> go_error option \<times> 'w" where
  "VerifyHiveControllers client = verifyDeploymentInNamespace client ''hive'' ''hive-controllers''"

section \<open>storage.go\<close>

definition volumeSnapshotGVR :: gvr where
  "volumeSnapshotGVR = \<lparr>gvr_Group = ''snapshot.storage.k8s.io'', gvr_Version = ''v1'', gvr_Resource = ''volumesnapshots''\<rparr>"

definition VerifyPVCBound :: "'w kube_client \<Rightarrow> string \<Rightarrow> string \<Rightarrow> 'w \<Rightarrow> go_error option \<times> 'w" where
  "VerifyPVCBound client namespace pvcName w =
     (case pvc_GetPhase client namespace pvcName w of
        (Inl err, w') \<Rightarrow> (Some (Errorf ''getting PVC %s/%s: %w'' [FStr namespace, FStr pvcName, FErr err]), w')
      | (Inr phase, w') \<Rightarrow>
          if phase \<noteq> ''Bound''
          then (Some (Errorf ''PVC %s/%s is not bound, phase: %s'' [FStr namespace, FStr pvcName, FStr phase]), w')
          else (None, w'))"

definition VerifyVolumeSnapshotReady :: "'w dynamic_client \<Rightarrow> string \<Rightarrow> string \<Rightarrow> 'w \<Rightarrow> go_error option \<times> 'w" where
  "VerifyVolumeSnapshotReady dc namespace snapshotName w =
     (case dyn_Get dc volumeSnapshotGVR namespace snapshotName w of
        (Inl err, w') \<Rightarrow> (Some (Errorf ''getting volumesnapshot %s/%s: %w'' [FStr namespace, FStr snapshotName, FErr err]), w')
      | (Inr obj, w') \<Rightarrow> (case field_as as_obj obj ''status'' of
          None \<Rightarrow> (Some (Errorf ''volumesnapshot %s/%s has no status'' [FStr namespace, FStr snapshotName]), w')
        | Some status \<Rightarrow> (case field_as as_bool status ''readyToUse'' of
            None \<Rightarrow> (Some (Errorf ''volumesnapshot %s/%s has no readyToUse field'' [FStr namespace, FStr snapshotName]), w')
          | Some readyToUse \<Rightarrow>
              if \<not> readyToUse
              then (Some (Errorf ''volumesnapshot %s/%s is not ready'' [FStr namespace, FStr snapshotName]), w')
              else (None, w'))))"

section \<open>What the condition loops decide\<close>

definition has_condition :: "string \<Rightarrow> string \<Rightarrow> json_object list \<Rightarrow> bool" where
  "has_condition t st conds \<longleftrightarrow> (\<exists>c \<in> set conds. ctype c = t \<and> cstatus c = st)"

lemma operator_conditions_eq:
  "fst (operator_conditions conds a d det) \<longleftrightarrow> a \<or> has_condition ''Available'' ''True'' conds"
  "fst (snd (operator_conditions conds a d det)) \<longleftrightarrow> d \<and> \<not> has_condition ''Degraded'' ''False'' conds"
  by (induction conds a d det rule: operator_conditions.induct) (auto simp: has_condition_def Let_def)

lemma nodepool_conditions_eq:
  "fst (nodepool_conditions conds a d det) \<longleftrightarrow> a \<or> has_condition ''Ready'' ''True'' conds"
  "fst (snd (nodepool_conditions conds a d det)) \<longleftrightarrow> d \<or> has_condition ''AllNodesHealthy'' ''True'' conds"
  by (induction conds a d det rule: nodepool_conditions.induct) (auto simp: has_condition_def Let_def)

definition obj_conditions :: "json list \<Rightarrow> json_object list" where
  "obj_conditions js = List.map_filter as_obj js"

lemma obj_conditions_simps [simp]:
  "obj_conditions [] = []"
  "obj_conditions (j # js) = (case as_obj j of None \<Rightarrow> obj_conditions js | Some m \<Rightarrow> m # obj_conditions js)"
  by (auto simp: obj_conditions_def List.map_filter_def split: option.splits)

lemma health_conditions_eq:
  "fst (health_conditions js iss a d) = [] \<longleftrightarrow> iss = [] \<and>
     (\<forall>c \<in> set (obj_conditions js). (ctype c = ''Available'' \<longrightarrow> cstatus c = ''True'')
        \<and> (ctype c = ''Degraded'' \<longrightarrow> cstatus c = ''False''))"
  "fst (snd (health_conditions js iss a d)) \<longleftrightarrow> a \<or> (\<exists>c \<in> set (obj_conditions js). ctype c = ''Available'')"
  "snd (snd (health_conditions js iss a d)) \<longleftrightarrow> d \<or> (\<exists>c \<in> set (obj_conditions js). ctype c = ''Degraded'')"
  by (induction js iss a d rule: health_conditions.induct) (auto simp: Let_def split: option.splits)

lemma deployment_available_iff:
  "deployment_available conds \<longleftrightarrow> (\<exists>c \<in> set conds. cond_Type c = ''Available'' \<and> cond_Status c = ''True'')"
  by (induction conds rule: deployment_available.induct) auto

lemma endpoint_conditions_eq:
  "endpoint_conditions name js f un =
     (let cs = filter (\<lambda>c. availability_type (ctype c)) (obj_conditions js);
          bad = takeWhile (\<lambda>c. \<not> equal_fold (cstatus c) ''true'') cs
      in (f \<or> cs \<noteq> [], un @ map (\<lambda>c. fmt_Sprintf ''- %s: %s=%s (reason: %s, message: %s)''
            [FStr name, FStr (ctype c), FStr (cstatus c), FStr (str_or_empty c ''reason''),
             FStr (str_or_empty c ''message'')]) bad))"
  by (induction name js f un rule: endpoint_conditions.induct) (auto simp: Let_def split: option.splits)

lemma some_in_phase_iff:
  "some_in_phase phase objs \<longleftrightarrow>
     (\<exists>obj \<in> set objs. json_path (JObj obj) [''status'', ''phase''] = Some (JStr phase))"
proof (induction phase objs rule: some_in_phase.induct)
  case (2 phase obj objs)
  obtain v f e where q: "getNestedField obj [''status'', ''phase''] = (v, f, e)" by (metis prod_cases3)
  then have "json_path (JObj obj) [''status'', ''phase''] = Some (JStr phase) \<longleftrightarrow> v = phase \<and> f \<and> e = None"
    using getNestedField_found [of "[''status'', ''phase'']" obj phase] by auto
  with 2 q show ?case by (cases f; cases e) (simp_all del: json_path.simps)
qed simp

section \<open>What the verifiers accept and report\<close>

definition operator_ok :: "'w dynamic_client \<Rightarrow> string list \<Rightarrow> json_object \<Rightarrow> bool" where
  "operator_ok dc excluded item \<longleftrightarrow> GetName dc item \<in> set excluded
     \<or> (\<exists>conds. getConditions item = (conds, True, None)
          \<and> has_condition ''Available'' ''True'' conds \<and> has_condition ''Degraded'' ''False'' conds)"

definition nodepool_ok :: "json_object \<Rightarrow> bool" where
  "nodepool_ok np \<longleftrightarrow> (\<exists>conds. getConditions np = (conds, True, None)
     \<and> has_condition ''Ready'' ''True'' conds \<and> has_condition ''AllNodesHealthy'' ''True'' conds)"

definition hcp_deployment_ok :: "deployment \<Rightarrow> bool" where
  "hcp_deployment_ok d \<longleftrightarrow> dep_SpecReplicas d = Some 0
     \<or> (\<exists>c \<in> set (dep_Conditions d). cond_Type c = ''Available'' \<and> cond_Status c = ''True'')"

definition first_availability :: "json list \<Rightarrow> json_object option" where
  "first_availability js = find (\<lambda>c. availability_type (ctype c)) (obj_conditions js)"

definition endpoint_ok :: "'w dynamic_client \<Rightarrow> json_object \<Rightarrow> bool" where
  "endpoint_ok dc vpe \<longleftrightarrow> (\<exists>js c. NestedSlice dc vpe [''status'', ''conditions''] = (js, True, None)
     \<and> first_availability js = Some c \<and> equal_fold (cstatus c) ''true'')"

lemma prod3_split: "(case p of (a, b, c) \<Rightarrow> f a b c) = f (fst p) (fst (snd p)) (snd (snd p))"
  by (cases p) simp

interpretation cluster_operators: item_check "cluster_operator_item dc excluded" "operator_ok dc excluded"
proof
  fix item
  obtain conds f e where g: "getConditions item = (conds, f, e)" by (metis prod_cases3)
  show "cluster_operator_item dc excluded item = Inr [] \<longleftrightarrow> operator_ok dc excluded item"
    by (cases e; cases f)
       (simp_all add: cluster_operator_item_def operator_ok_def g prod3_split operator_conditions_eq Let_def)
qed

interpretation nodepools: named_item_check "nodepool_item dc namespace" nodepool_ok "GetName dc"
proof
  fix np
  obtain conds f e where g: "getConditions np = (conds, f, e)" by (metis prod_cases3)
  show "nodepool_item dc namespace np = Inr [] \<longleftrightarrow> nodepool_ok np"
    by (cases e; cases f)
       (simp_all add: nodepool_item_def nodepool_ok_def g prod3_split nodepool_conditions_eq Let_def)
  show "\<exists>ps. nodepool_item dc namespace np = Inr ps"
    by (simp add: nodepool_item_def Let_def prod3_split)
  fix ps p assume item: "nodepool_item dc namespace np = Inr ps" "p \<in> set ps"
  show "contains p (GetName dc np)"
  proof (cases "p = fmt_Sprintf ''NodePool %s/%s: no conditions found'' [FStr namespace, FStr (GetName dc np)]")
    case True
    then show ?thesis using Sprintf_contains_str [of 1] by simp
  next
    case False
    then obtain details where
      "p = fmt_Sprintf ''NodePool %s/%s: %v'' [FStr namespace, FStr (GetName dc np), FStrs details]"
      using item by (auto simp: nodepool_item_def prod3_split Let_def split: if_splits)
    then show ?thesis using Sprintf_contains_str [of 1] by simp
  qed
qed

interpretation hcp_deployments: named_item_check hcp_deployment_item hcp_deployment_ok dep_Name
proof
  fix d
  show "hcp_deployment_item d = Inr [] \<longleftrightarrow> hcp_deployment_ok d"
    by (simp add: hcp_deployment_item_def hcp_deployment_ok_def deployment_available_iff)
  show "\<exists>ps. hcp_deployment_item d = Inr ps" by (simp add: hcp_deployment_item_def)
  fix ps p assume "hcp_deployment_item d = Inr ps" "p \<in> set ps"
  then have "p = fmt_Sprintf ''- %s: not Available (ready: %d/%d)''
      [FStr (dep_Name d), FInt (dep_ReadyReplicas d), FInt (dep_Replicas d)]"
    by (auto simp: hcp_deployment_item_def split: if_splits)
  then show "contains p (dep_Name d)" using Sprintf_contains_str [of 0] by simp
qed

lemma find_filter: "find P xs = (case filter P xs of [] \<Rightarrow> None | x # _ \<Rightarrow> Some x)"
  by (induction xs) auto

interpretation vpc_endpoints: item_check "vpc_endpoint_item dc" "endpoint_ok dc"
proof
  fix vpe
  obtain js f e where g: "NestedSlice dc vpe [''status'', ''conditions''] = (js, f, e)" by (metis prod_cases3)
  let ?cs = "filter (\<lambda>c. availability_type (ctype c)) (obj_conditions js)"
  show "vpc_endpoint_item dc vpe = Inr [] \<longleftrightarrow> endpoint_ok dc vpe"
    by (cases e; cases f; cases ?cs)
       (simp_all add: vpc_endpoint_item_def endpoint_ok_def g endpoint_conditions_eq first_availability_def
          find_filter Let_def)
qed

text \<open>
  C37. VerifyClusterOperatorsHealthy returns nil exactly when the listing succeeds, is not empty,
  and every ClusterOperator that is not excluded (its name is none of the trimmed exclusions)
  has readable conditions with some Available=True and some Degraded=False among them.
\<close>

theorem cluster_operators_verdict:
  "VerifyClusterOperatorsHealthy dc ex w = (None, w') \<longleftrightarrow>
     (\<exists>items. dyn_List dc clusterOperatorGVR [] w = (Inr items, w') \<and> items \<noteq> []
        \<and> list_all (operator_ok dc (map trim_space ex)) items)"
proof -
  obtain r u where l: "dyn_List dc clusterOperatorGVR [] w = (r, u)" by (metis surj_pair)
  show ?thesis
    unfolding VerifyClusterOperatorsHealthy_def l Let_def cluster_operators.scan_accepts [symmetric] list_all_iff
    by (auto split: sum.splits)
qed

text \<open>
  VerifyHostedClusterHealthy returns nil exactly when the HostedCluster can be read, its
  conditions are a slice, Available and Degraded both occur in it, every Available condition is
  True and every Degraded condition is False; entries that are not objects are skipped.
\<close>

theorem hosted_cluster_verdict:
  "VerifyHostedClusterHealthy dc ns name w = (None, w') \<longleftrightarrow>
     (\<exists>hc js. dyn_Get dc hostedClusterGVR ns name w = (Inr hc, w')
        \<and> NestedSlice dc hc [''status'', ''conditions''] = (js, True, None)
        \<and> (\<exists>c \<in> set (obj_conditions js). ctype c = ''Available'')
        \<and> (\<exists>c \<in> set (obj_conditions js). ctype c = ''Degraded'')
        \<and> (\<forall>c \<in> set (obj_conditions js). (ctype c = ''Available'' \<longrightarrow> cstatus c = ''True'')
             \<and> (ctype c = ''Degraded'' \<longrightarrow> cstatus c = ''False'')))"
proof -
  have v: "verifyConditions dc hc kind ns name = None \<longleftrightarrow>
     (\<exists>js. NestedSlice dc hc [''status'', ''conditions''] = (js, True, None)
        \<and> (\<exists>c \<in> set (obj_conditions js). ctype c = ''Available'')
        \<and> (\<exists>c \<in> set (obj_conditions js). ctype c = ''Degraded'')
        \<and> (\<forall>c \<in> set (obj_conditions js). (ctype c = ''Available'' \<longrightarrow> cstatus c = ''True'')
             \<and> (ctype c = ''Degraded'' \<longrightarrow> cstatus c = ''False'')))" for hc kind
  proof -
    obtain js f e where g: "NestedSlice dc hc [''status'', ''conditions''] = (js, f, e)" by (metis prod_cases3)
    show ?thesis
      unfolding verifyConditions_def g prod3_split Let_def prod.sel
      by (cases e; cases f) (simp_all add: g health_conditions_eq)
  qed
  obtain r u where l: "dyn_Get dc hostedClusterGVR ns name w = (r, u)" by (metis surj_pair)
  show ?thesis unfolding VerifyHostedClusterHealthy_def l by (cases r) (simp_all add: v, blast)
qed

text \<open>
  VerifyNodePoolHealthy returns nil exactly when the namespace has NodePools and each has
  Ready=True and AllNodesHealthy=True; otherwise, once the listing succeeded, the error text
  names every unhealthy NodePool.
\<close>

theorem nodepools_verdict:
  "(VerifyNodePoolHealthy dc ns w = (None, w') \<longleftrightarrow>
     (\<exists>items. dyn_List dc nodePoolGVR ns w = (Inr items, w') \<and> items \<noteq> [] \<and> list_all nodepool_ok items))
   \<and> (\<forall>items np. dyn_List dc nodePoolGVR ns w = (Inr items, w') \<longrightarrow> np \<in> set items \<longrightarrow> \<not> nodepool_ok np \<longrightarrow>
        (\<exists>e. VerifyNodePoolHealthy dc ns w = (Some e, w') \<and> contains (error_text e) (GetName dc np)))"
proof (intro conjI allI impI)
  obtain r u where l: "dyn_List dc nodePoolGVR ns w = (r, u)" by (metis surj_pair)
  show "VerifyNodePoolHealthy dc ns w = (None, w') \<longleftrightarrow>
     (\<exists>items. dyn_List dc nodePoolGVR ns w = (Inr items, w') \<and> items \<noteq> [] \<and> list_all nodepool_ok items)"
    unfolding VerifyNodePoolHealthy_def l nodepools.scan_accepts [of dc ns, symmetric] list_all_iff by (auto split: sum.splits)
next
  fix items np assume a: "dyn_List dc nodePoolGVR ns w = (Inr items, w')" "np \<in> set items" "\<not> nodepool_ok np"
  obtain ps where ps: "scan_items (nodepool_item dc ns) items = Inr ps" using nodepools.scan_total by blast
  obtain p where p: "p \<in> set ps" "contains p (GetName dc np)"
    using nodepools.scan_names_unhealthy [OF ps a(2,3)] by blast
  let ?e = "Errorf (''%d unhealthy NodePools:'' @ nl @ ''%s'') [FInt (int (length ps)), FStr (str_join nl ps)]"
  have "VerifyNodePoolHealthy dc ns w = (Some ?e, w')"
    using a(1,2) ps p(1) unfolding VerifyNodePoolHealthy_def by auto
  moreover have "contains (error_text ?e) (str_join nl ps)"
    by (rule Errorf_contains_str [where i = 1]) (simp_all add: nl_def)
  then have "contains (error_text ?e) (GetName dc np)"
    using contains_join [OF p(1)] p(2) contains_trans by blast
  ultimately show "\<exists>e. VerifyNodePoolHealthy dc ns w = (Some e, w') \<and> contains (error_text e) (GetName dc np)" by blast
qed

text \<open>
  VerifyHCPNamespaceHealthy returns nil exactly when the namespace has deployments and each
  is scaled to zero or Available=True; otherwise, once the listing succeeded, the error text names
  every deployment that is neither.
\<close>

theorem hcp_namespace_verdict:
  "(VerifyHCPNamespaceHealthy mc ns w = (None, w') \<longleftrightarrow>
     (\<exists>items. deployments_List mc ns w = (Inr items, w') \<and> items \<noteq> [] \<and> list_all hcp_deployment_ok items))
   \<and> (\<forall>items d. deployments_List mc ns w = (Inr items, w') \<longrightarrow> d \<in> set items \<longrightarrow> \<not> hcp_deployment_ok d \<longrightarrow>
        (\<exists>e. VerifyHCPNamespaceHealthy mc ns w = (Some e, w') \<and> contains (error_text e) (dep_Name d)))"
proof (intro conjI allI impI)
  obtain r u where l: "deployments_List mc ns w = (r, u)" by (metis surj_pair)
  show "VerifyHCPNamespaceHealthy mc ns w = (None, w') \<longleftrightarrow>
     (\<exists>items. deployments_List mc ns w = (Inr items, w') \<and> items \<noteq> [] \<and> list_all hcp_deployment_ok items)"
    unfolding VerifyHCPNamespaceHealthy_def l hcp_deployments.scan_accepts [symmetric] list_all_iff by (auto split: sum.splits)
next
  fix items d assume a: "deployments_List mc ns w = (Inr items, w')" "d \<in> set items" "\<not> hcp_deployment_ok d"
  obtain ps where ps: "scan_items hcp_deployment_item items = Inr ps" using hcp_deployments.scan_total by blast
  obtain p where p: "p \<in> set ps" "contains p (dep_Name d)"
    using hcp_deployments.scan_names_unhealthy [OF ps a(2,3)] by blast
  let ?e = "Errorf (''found %d unhealthy deployments in namespace %s:'' @ nl @ ''%s'')
    [FInt (int (length ps)), FStr ns, FStr (str_join nl ps)]"
  have "VerifyHCPNamespaceHealthy mc ns w = (Some ?e, w')"
    using a(1,2) ps p(1) unfolding VerifyHCPNamespaceHealthy_def by auto
  moreover have "contains (error_text ?e) (str_join nl ps)"
    by (rule Errorf_contains_str [where i = 2]) (simp_all add: nl_def eval_nat_numeral)
  then have "contains (error_text ?e) (dep_Name d)"
    using contains_join [OF p(1)] p(2) contains_trans by blast
  ultimately show "\<exists>e. VerifyHCPNamespaceHealthy mc ns w = (Some e, w') \<and> contains (error_text e) (dep_Name d)" by blast
qed

text \<open>
  VerifyAVOVpcEndpoints returns nil exactly when the namespace has VpcEndpoints and, for each
  of them, the first condition of an availability type (AWSVpcEndpointReady, or available in any
  case) has the status true in any case; what the conditions after it say does not matter.
\<close>

theorem vpc_endpoints_verdict:
  "VerifyAVOVpcEndpoints dc ns w = (None, w') \<longleftrightarrow>
     (\<exists>items. dyn_List dc vpcEndpointGVR ns w = (Inr items, w') \<and> items \<noteq> [] \<and> list_all (endpoint_ok dc) items)"
proof -
  obtain r u where l: "dyn_List dc vpcEndpointGVR ns w = (r, u)" by (metis surj_pair)
  show ?thesis
    unfolding VerifyAVOVpcEndpoints_def l vpc_endpoints.scan_accepts [symmetric] list_all_iff by (auto split: sum.splits)
qed

text \<open>
  VerifyACMHub and VerifyMCE return nil exactly when some listed object has the string
  \<open>Running\<close>, or \<open>Available\<close>, at the path status.phase; an object whose phase is missing or has
  another type is passed over and does not hide a later one.
\<close>

theorem service_cluster_phases:
  "(VerifyACMHub dc w = (None, w') \<longleftrightarrow>
     (\<exists>items. dyn_List dc multiClusterHubGVR [] w = (Inr items, w')
        \<and> (\<exists>obj \<in> set items. json_path (JObj obj) [''status'', ''phase''] = Some (JStr ''Running''))))
   \<and> (VerifyMCE dc w = (None, w') \<longleftrightarrow>
     (\<exists>items. dyn_List dc multiClusterEngineGVR [] w = (Inr items, w')
        \<and> (\<exists>obj \<in> set items. json_path (JObj obj) [''status'', ''phase''] = Some (JStr ''Available''))))"
proof -
  obtain r1 u1 where 1: "dyn_List dc multiClusterHubGVR [] w = (r1, u1)" by (metis surj_pair)
  obtain r2 u2 where 2: "dyn_List dc multiClusterEngineGVR [] w = (r2, u2)" by (metis surj_pair)
  show ?thesis
    unfolding VerifyACMHub_def VerifyMCE_def 1 2 some_in_phase_iff [symmetric] by (cases r1; cases r2) auto
qed

section \<open>Concrete objects\<close>

definition sample_hosted_cluster :: json_object where
  "sample_hosted_cluster = sample_object ''hc'' [JStr ''x'', sample_condition ''Available'' ''True'',
     sample_condition ''Degraded'' ''False'']"

lemmas sample_simps = sample_hosted_cluster_def sample_object_def sample_condition_def static_dynamic_def static_kube_def
  nested_as_def str_or_empty_def field_as_def

theorem hosted_cluster_verdict_witness:
  "VerifyHostedClusterHealthy (static_dynamic [sample_hosted_cluster]) ''ns'' ''hc'' () = (None, ())"
  unfolding hosted_cluster_verdict by (simp add: sample_simps)

theorem nodepools_verdict_witness:
  "\<exists>e. VerifyNodePoolHealthy (static_dynamic [sample_object ''np-1'' [sample_condition ''Ready'' ''True'']]) ''ns'' ()
     = (Some e, ()) \<and> contains (error_text e) ''np-1''"
proof -
  let ?np = "sample_object ''np-1'' [sample_condition ''Ready'' ''True'']"
  have "dyn_List (static_dynamic [?np]) nodePoolGVR ''ns'' () = (Inr [?np], ())" by (simp add: static_dynamic_def)
  moreover have "\<not> nodepool_ok ?np"
    by (simp add: nodepool_ok_def getConditions_def has_condition_def sample_simps)
  moreover have "GetName (static_dynamic [?np]) ?np = ''np-1''" by (simp add: sample_simps)
  ultimately show ?thesis
    using conjunct2 [OF nodepools_verdict [of "static_dynamic [?np]" "''ns''" "()" "()"]] by (metis list.set_intros(1))
qed

definition sample_deployment :: "string \<Rightarrow> condition list \<Rightarrow> deployment" where
  "sample_deployment name conds = \<lparr>dep_Name = name, dep_SpecReplicas = Some 2, dep_Conditions = conds,
     dep_ReadyReplicas = 0, dep_Replicas = 2, dep_UpdatedReplicas = 2\<rparr>"

theorem hcp_namespace_verdict_witness:
  "\<exists>e. VerifyHCPNamespaceHealthy (static_kube [] [sample_deployment ''etcd'' []]) ''ns'' () = (Some e, ())
     \<and> contains (error_text e) ''etcd''"
proof -
  let ?d = "sample_deployment ''etcd'' []"
  have "deployments_List (static_kube [] [?d]) ''ns'' () = (Inr [?d], ())" by (simp add: static_kube_def)
  moreover have "\<not> hcp_deployment_ok ?d" by (simp add: hcp_deployment_ok_def sample_deployment_def)
  moreover have "dep_Name ?d = ''etcd''" by (simp add: sample_deployment_def)
  ultimately show ?thesis
    using conjunct2 [OF hcp_namespace_verdict [of "static_kube [] [?d]" "''ns''" "()" "()"]] by (metis list.set_intros(1))
qed

end
