(* ===== verification/Fips.thy ===== *)
theory Fips
  imports Operator_Verifiers
begin

text \<open>
  pkg/verifiers/fips.go: the health of the operators and packages that matter on a FIPS cluster
  and the FIPS configuration of the nodes. The OCM call of VerifyClusterFIPSEnabled is a
  parameter.
\<close>

section \<open>Resources and tables\<close>

definition machineConfigGVR :: gvr where
  "machineConfigGVR = \<lparr>gvr_Group = ''machineconfiguration.openshift.io'', gvr_Version = ''v1'', gvr_Resource = ''machineconfigs''\<rparr>"

definition machineConfigPoolGVR :: gvr where
  "machineConfigPoolGVR = \<lparr>gvr_Group = ''machineconfiguration.openshift.io'', gvr_Version = ''v1'', gvr_Resource = ''machineconfigpools''\<rparr>"

definition clusterPackageGVR :: gvr where
  "clusterPackageGVR = \<lparr>gvr_Group = ''package-operator.run'', gvr_Version = ''v1alpha1'', gvr_Resource = ''clusterpackages''\<rparr>"

definition CrossPlatformFIPSClusterPackages :: "string list" where
  "CrossPlatformFIPSClusterPackages = [''managed-node-metadata-operator'', ''managed-upgrade-operator'',
     ''managed-velero-operator'', ''rbac-permissions-operator'', ''route-monitor-operator'',
     ''splunk-forwarder-operator'', ''configure-alertmanager-operator'', ''ocm-agent-operator'']"

record FIPSOperator =
  fo_Namespace :: string
  fo_Deployment :: string

definition CrossPlatformFIPSOperators :: "FIPSOperator list" where
  "CrossPlatformFIPSOperators =
    [\<lparr>fo_Namespace = ''openshift-managed-node-metadata-operator'', fo_Deployment = ''managed-node-metadata-operator''\<rparr>,
     \<lparr>fo_Namespace = ''openshift-managed-upgrade-operator'', fo_Deployment = ''managed-upgrade-operator''\<rparr>,
     \<lparr>fo_Namespace = ''openshift-managed-velero-operator'', fo_Deployment = ''managed-velero-operator''\<rparr>,
     \<lparr>fo_Namespace = ''openshift-rbac-permissions'', fo_Deployment = ''rbac-permissions-operator''\<rparr>,
     \<lparr>fo_Namespace = ''openshift-route-monitor-operator'', fo_Deployment = ''route-monitor-operator''\<rparr>,
     \<lparr>fo_Namespace = ''openshift-splunk-forwarder-operator'', fo_Deployment = ''splunk-forwarder-operator''\<rparr>,
     \<lparr>fo_Namespace = ''openshift-monitoring'', fo_Deployment = ''configure-alertmanager-operator''\<rparr>]"

record FIPSOperatorResult =
  fr_Operator :: FIPSOperator
  fr_Found :: bool
  fr_Healthy :: bool
  fr_ErrDetail :: string

section \<open>Operators\<close>

definition verifyOperatorDeploymentHealthy ::
  "'w kube_client \<Rightarrow> string \<Rightarrow> string \<Rightarrow> 'w \<Rightarrow> (bool \<times> go_error option) \<times> 'w" where
  "verifyOperatorDeploymentHealthy client namespace deploymentName w =
     (case deployments_Get client namespace deploymentName w of
        (Inl err, w') \<Rightarrow>
          if IsNotFound client err then ((False, None), w')
          else ((False, Some (Errorf ''getting deployment %s/%s: %w''
                   [FStr namespace, FStr deploymentName, FErr err])), w')
      | (Inr deploy, w') \<Rightarrow>
          if deployment_available (dep_Conditions deploy) then ((True, None), w')
          else ((True, Some (Errorf ''deployment %s/%s is not available (ready: %d/%d, replicas: %d)''
                   [FStr namespace, FStr deploymentName, FInt (dep_ReadyReplicas deploy),
                    FInt (dep_Replicas deploy), FInt (dep_UpdatedReplicas deploy)])), w'))"

definition VerifyFIPSOperatorHealthy ::
  "'w kube_client \<Rightarrow> FIPSOperator \<Rightarrow> 'w \<Rightarrow> (bool \<times> go_error option) \<times> 'w" where
  "VerifyFIPSOperatorHealthy client op = verifyOperatorDeploymentHealthy client (fo_Namespace op) (fo_Deployment op)"

definition VerifyPackageOperatorHealthy :: "'w kube_client \<Rightarrow> 'w \<Rightarrow> (bool \<times> go_error option) \<times> 'w" where
  "VerifyPackageOperatorHealthy client =
     verifyOperatorDeploymentHealthy client ''openshift-package-operator'' ''package-operator-manager''"

fun fips_operator_loop :: "'w kube_client \<Rightarrow> FIPSOperator list \<Rightarrow> FIPSOperatorResult list \<Rightarrow> string list \<Rightarrow> 'w
    \<Rightarrow> FIPSOperatorResult list \<times> string list \<times> 'w" where
  "fips_operator_loop client [] results unhealthy w = (results, unhealthy, w)"
| "fips_operator_loop client (op # ops) results unhealthy w =
     (case verifyOperatorDeploymentHealthy client (fo_Namespace op) (fo_Deployment op) w of
        ((found, err), w') \<Rightarrow>
          (let r = \<lparr>fr_Operator = op, fr_Found = found, fr_Healthy = (found \<and> err = None), fr_ErrDetail = []\<rparr>;
               (r', unhealthy') = (case err of
                   None \<Rightarrow> (r, unhealthy)
                 | Some e \<Rightarrow> (r\<lparr>fr_ErrDetail := error_text e\<rparr>,
                     unhealthy @ [fmt_Sprintf ''%s/%s: %s'' [FStr (fo_Namespace op), FStr (fo_Deployment op), FStr (error_text e)]]))
           in fips_operator_loop client ops (results @ [r']) unhealthy' w'))"

definition VerifyFIPSOperatorsHealthy ::
  "'w kube_client \<Rightarrow> FIPSOperator list \<Rightarrow> 'w \<Rightarrow> (FIPSOperatorResult list \<times> go_error option) \<times> 'w" where
  "VerifyFIPSOperatorsHealthy client operators w =
     (case fips_operator_loop client operators [] [] w of
        (results, unhealthy, w') \<Rightarrow>
          if unhealthy \<noteq> []
          then ((results, Some (Errorf (''%d FIPS operator(s) unhealthy:'' @ nl @ ''%s'')
                   [FInt (int (length unhealthy)), FStr (str_join nl unhealthy)])), w')
          else ((results, None), w'))"

section \<open>Packages\<close>

fun package_available :: "json list \<Rightarrow> bool" where
  "package_available [] = False"
| "package_available (cond # conds) =
     (case as_obj cond of
        None \<Rightarrow> package_available conds
      | Some condMap \<Rightarrow>
          if ctype condMap = ''Available'' \<and> cstatus condMap = ''True'' then True else package_available conds)"

definition VerifyClusterPackageHealthy ::
  "'w dynamic_client \<Rightarrow> string \<Rightarrow> 'w \<Rightarrow> (bool \<times> go_error option) \<times> 'w" where
  "VerifyClusterPackageHealthy dc name w =
     (case dyn_Get dc clusterPackageGVR [] name w of
        (Inl err, w') \<Rightarrow>
          if dyn_IsNotFound dc err then ((False, None), w')
          else ((False, Some (Errorf ''getting ClusterPackage %s: %w'' [FStr name, FErr err])), w')
      | (Inr cp, w') \<Rightarrow> (case NestedSlice dc cp [''status'', ''conditions''] of
          (conditions, found, err) \<Rightarrow> (case err of
            Some e \<Rightarrow> ((True, Some (Errorf ''extracting conditions from ClusterPackage %s: %w'' [FStr name, FErr e])), w')
          | None \<Rightarrow>
              if \<not> found then ((True, Some (Errorf ''ClusterPackage %s has no status conditions'' [FStr name])), w')
              else if package_available conditions then ((True, None), w')
              else ((True, Some (Errorf ''ClusterPackage %s is not Available'' [FStr name])), w'))))"

fun fips_package_loop :: "'w dynamic_client \<Rightarrow> string list \<Rightarrow> string list \<Rightarrow> 'w \<Rightarrow> string list \<times> 'w" where
  "fips_package_loop dc [] unhealthy w = (unhealthy, w)"
| "fips_package_loop dc (pkg # pkgs) unhealthy w =
     (case VerifyClusterPackageHealthy dc pkg w of
        ((found, err), w') \<Rightarrow>
          if \<not> found then fips_package_loop dc pkgs unhealthy w'
          else (case err of
            None \<Rightarrow> fips_package_loop dc pkgs unhealthy w'
          | Some e \<Rightarrow> fips_package_loop dc pkgs
              (unhealthy @ [fmt_Sprintf ''%s: %s'' [FStr pkg, FStr (error_text e)]]) w'))"

definition VerifyFIPSClusterPackagesHealthy :: "'w dynamic_client \<Rightarrow> string list \<Rightarrow> 'w \<Rightarrow> go_error option \<times> 'w" where
  "VerifyFIPSClusterPackagesHealthy dc packages w =
     (case fips_package_loop dc packages [] w of
        (unhealthy, w') \<Rightarrow>
          if unhealthy \<noteq> []
          then (Some (Errorf (''%d FIPS ClusterPackage(s) unhealthy:'' @ nl @ ''%s'')
                  [FInt (int (length unhealthy)), FStr (str_join nl unhealthy)]), w')
          else (None, w'))"

section \<open>Clusters and nodes\<close>

definition VerifyClusterFIPSEnabled ::
  "(string \<Rightarrow> 'w \<Rightarrow> (go_error + bool) \<times> 'w) \<Rightarrow> string \<Rightarrow> 'w \<Rightarrow> (bool \<times> go_error option) \<times> 'w" where
  "VerifyClusterFIPSEnabled get_FIPS clusterID w =
     (case get_FIPS clusterID w of
        (Inl err, w') \<Rightarrow> ((False, Some (Errorf ''fetching cluster %s: %w'' [FStr clusterID, FErr err])), w')
      | (Inr fips, w') \<Rightarrow> ((fips, None), w'))"

definition VerifyHCPFIPSEnabled :: "'w dynamic_client \<Rightarrow> string \<Rightarrow> string \<Rightarrow> 'w \<Rightarrow> go_error option \<times> 'w" where
  "VerifyHCPFIPSEnabled dc namespace name w =
     (case dyn_Get dc hostedClusterGVR namespace name w of
        (Inl err, w') \<Rightarrow> (Some (Errorf ''getting HostedCluster %s/%s: %w'' [FStr namespace, FStr name, FErr err]), w')
      | (Inr hc, w') \<Rightarrow> (case NestedBool dc hc [''spec'', ''fips''] of
          (fips, found, err) \<Rightarrow> (case err of
            Some e \<Rightarrow> (Some (Errorf ''reading spec.fips from HostedCluster %s/%s: %w'' [FStr namespace, FStr name, FErr e]), w')
          | None \<Rightarrow>
              if \<not> found \<or> \<not> fips
              then (Some (Errorf ''HostedCluster %s/%s does not have spec.fips=true'' [FStr namespace, FStr name]), w')
              else (None, w'))))"

definition em_dash :: string where
  "em_dash = [CHR 0xE2, CHR 0x80, CHR 0x94]"

definition rendered_config_item :: "'w dynamic_client \<Rightarrow> json_object \<Rightarrow> go_error + string list" where
  "rendered_config_item dc mc =
     (case NestedBool dc mc [''spec'', ''fips''] of
        (fips, found, err) \<Rightarrow> (case err of
          Some e \<Rightarrow> Inl (Errorf ''reading spec.fips from MachineConfig %s: %w'' [FStr (GetName dc mc), FErr e])
        | None \<Rightarrow> if \<not> found \<or> \<not> fips then Inr [GetName dc mc] else Inr []))"

definition verifyRenderedMachineConfigsFIPS :: "'w dynamic_client \<Rightarrow> 'w \<Rightarrow> go_error option \<times> 'w" where
  "verifyRenderedMachineConfigsFIPS dc w =
     (case dyn_List dc machineConfigGVR [] w of
        (Inl err, w') \<Rightarrow> (Some (Errorf ''listing MachineConfig resources: %w'' [FErr err]), w')
      | (Inr items, w') \<Rightarrow>
          (let renderedConfigs = filter (\<lambda>mc. has_prefix (GetName dc mc) ''rendered-'') items in
           if renderedConfigs = []
           then (Some (Errorf (''no rendered MachineConfig resources found '' @ em_dash @ '' cannot verify FIPS at node level'') []), w')
           else (case scan_items (rendered_config_item dc) renderedConfigs of
             Inl e \<Rightarrow> (Some e, w')
           | Inr nonFIPS \<Rightarrow>
               if nonFIPS \<noteq> []
               then (Some (Errorf ''FIPS not enabled on %d rendered MachineConfig(s): %s''
                       [FInt (int (length nonFIPS)), FStr (str_join '', '' nonFIPS)]), w')
               else (None, w'))))"

fun pool_degraded :: "string \<Rightarrow> json list \<Rightarrow> string list" where
  "pool_degraded name [] = []"
| "pool_degraded name (cond # conds) =
     (case as_obj cond of
        None \<Rightarrow> pool_degraded name conds
      | Some condMap \<Rightarrow>
          if ctype condMap = ''Degraded'' \<and> cstatus condMap = ''True''
          then fmt_Sprintf ''%s: Degraded (reason: %s)'' [FStr name, FStr (str_or_empty condMap ''reason'')] # pool_degraded name conds
          else pool_degraded name conds)"

definition machine_pool_item :: "'w dynamic_client \<Rightarrow> json_object \<Rightarrow> go_error + string list" where
  "machine_pool_item dc mcp =
     (let name = GetName dc mcp;
          machineCount = fst (NestedInt64 dc mcp [''status'', ''machineCount'']);
          updatedCount = fst (NestedInt64 dc mcp [''status'', ''updatedMachineCount'']);
          readyCount = fst (NestedInt64 dc mcp [''status'', ''readyMachineCount''])
      in if machineCount = 0 then Inr []
         else if updatedCount \<noteq> machineCount
         then Inr [fmt_Sprintf ''%s: %d/%d nodes updated (rollout incomplete)'' [FStr name, FInt updatedCount, FInt machineCount]]
         else if readyCount \<noteq> machineCount
         then Inr [fmt_Sprintf ''%s: %d/%d nodes ready'' [FStr name, FInt readyCount, FInt machineCount]]
         else (case NestedSlice dc mcp [''status'', ''conditions''] of
           (conditions, found, _) \<Rightarrow> if \<not> found then Inr [] else Inr (pool_degraded name conditions)))"

definition verifyMachineConfigPoolsUpdated :: "'w dynamic_client \<Rightarrow> 'w \<Rightarrow> go_error option \<times> 'w" where
  "verifyMachineConfigPoolsUpdated dc w =
     (case dyn_List dc machineConfigPoolGVR [] w of
        (Inl err, w') \<Rightarrow> (Some (Errorf ''listing MachineConfigPool resources: %w'' [FErr err]), w')
      | (Inr items, w') \<Rightarrow>
          if items = [] then (Some (Errorf ''no MachineConfigPool resources found'' []), w')
          else (case scan_items (machine_pool_item dc) items of
            Inl e \<Rightarrow> (Some e, w')
          | Inr problems \<Rightarrow>
              if problems \<noteq> []
              then (Some (Errorf (''MachineConfigPool(s) not fully updated '' @ em_dash @
                      '' FIPS config may not be applied to all nodes:'' @ nl @ ''%s'') [FStr (str_join nl problems)]), w')
              else (None, w')))"

definition VerifyNodeFIPSEnabled :: "'w dynamic_client \<Rightarrow> 'w \<Rightarrow> go_error option \<times> 'w" where
  "VerifyNodeFIPSEnabled dc w =
     (case verifyRenderedMachineConfigsFIPS dc w of
        (Some err, w') \<Rightarrow> (Some err, w')
      | (None, w') \<Rightarrow> verifyMachineConfigPoolsUpdated dc w')"

section \<open>What the operator report says\<close>

definition result_consistent :: "FIPSOperatorResult \<Rightarrow> bool" where
  "result_consistent r \<longleftrightarrow> (fr_Healthy r \<longleftrightarrow> fr_Found r \<and> fr_ErrDetail r = [])"

lemma operator_error_text:
  "fst (verifyOperatorDeploymentHealthy client ns name w) = (found, Some e) \<Longrightarrow> error_text e \<noteq> []"
  by (auto simp: verifyOperatorDeploymentHealthy_def split: prod.splits sum.splits if_splits)

lemma fips_operator_loop_report:
  assumes "fips_operator_loop client ops rs un w = (rs', un', w')"
    and "list_all result_consistent rs"
    and "un = [] \<longleftrightarrow> list_all (\<lambda>r. fr_ErrDetail r = []) rs"
    and "list_all (\<lambda>r. fr_ErrDetail r \<noteq> [] \<longrightarrow> (\<exists>p \<in> set un. contains p (fr_ErrDetail r))) rs"
  shows "map fr_Operator rs' = map fr_Operator rs @ ops \<and> list_all result_consistent rs'
    \<and> (un' = [] \<longleftrightarrow> list_all (\<lambda>r. fr_ErrDetail r = []) rs')
    \<and> list_all (\<lambda>r. fr_ErrDetail r \<noteq> [] \<longrightarrow> (\<exists>p \<in> set un'. contains p (fr_ErrDetail r))) rs'"
  using assms
proof (induction client ops rs un w arbitrary: rs' un' w' rule: fips_operator_loop.induct)
  case (2 client op ops rs un w)
  obtain found err w1 where v: "verifyOperatorDeploymentHealthy client (fo_Namespace op) (fo_Deployment op) w = ((found, err), w1)"
    by (metis surj_pair)
  let ?r = "\<lparr>fr_Operator = op, fr_Found = found, fr_Healthy = (found \<and> err = None), fr_ErrDetail = []\<rparr>"
  show ?case
  proof (cases err)
    case None
    with 2(2) v have "fips_operator_loop client ops (rs @ [?r]) un w1 = (rs', un', w')" by simp
    with 2(1) [OF v [symmetric] refl] None 2(3-5) show ?thesis by (simp add: result_consistent_def)
  next
    case (Some e)
    let ?p = "fmt_Sprintf ''%s/%s: %s'' [FStr (fo_Namespace op), FStr (fo_Deployment op), FStr (error_text e)]"
    have ne: "error_text e \<noteq> []" using operator_error_text [of client "fo_Namespace op" "fo_Deployment op" w found e] v Some by simp
    have c: "contains ?p (error_text e)"
      by (rule Sprintf_contains_str [where i = 2]) (simp_all add: eval_nat_numeral)
    from 2(2) v Some have
      "fips_operator_loop client ops (rs @ [?r\<lparr>fr_ErrDetail := error_text e\<rparr>]) (un @ [?p]) w1 = (rs', un', w')"
      by simp
    with 2(1) [OF v [symmetric] refl] Some 2(3-5) ne c show ?thesis
      by (auto simp: result_consistent_def list_all_iff)
  qed
qed simp

text \<open>
  VerifyFIPSOperatorsHealthy reports one result per requested operator, in order; a result is
  healthy exactly when the deployment was found and no error was recorded for it; the returned
  error is nil exactly when no result has an error, and otherwise its text holds the detail of
  every result that has one.
\<close>

theorem fips_operators_report:
  assumes "VerifyFIPSOperatorsHealthy client ops w = ((results, err), w')"
  shows "map fr_Operator results = ops \<and> list_all result_consistent results
    \<and> (err = None \<longleftrightarrow> list_all (\<lambda>r. fr_ErrDetail r = []) results)
    \<and> (\<forall>e. err = Some e \<longrightarrow> (\<forall>r \<in> set results. contains (error_text e) (fr_ErrDetail r)))"
proof -
  obtain rs un u where l: "fips_operator_loop client ops [] [] w = (rs, un, u)" by (metis prod_cases3)
  note R = fips_operator_loop_report [OF l]
  let ?e = "Errorf (''%d FIPS operator(s) unhealthy:'' @ nl @ ''%s'') [FInt (int (length un)), FStr (str_join nl un)]"
  have err: "results = rs" "err = (if un = [] then None else Some ?e)"
    using assms unfolding VerifyFIPSOperatorsHealthy_def l by (auto split: if_splits)
  have j: "contains (error_text ?e) (str_join nl un)"
    by (rule Errorf_contains_str [where i = 1]) (simp_all add: nl_def)
  have "contains (error_text ?e) (fr_ErrDetail r)" if "r \<in> set rs" for r
  proof (cases "fr_ErrDetail r = []")
    case True
    then show ?thesis by (simp add: contains_iff_sublist)
  next
    case False
    with R that obtain p where "p \<in> set un" "contains p (fr_ErrDetail r)" by (auto simp: list_all_iff)
    then show ?thesis using contains_trans [OF j] contains_join contains_trans by blast
  qed
  with R err show ?thesis by auto
qed

section \<open>What the package check accepts\<close>

fun package_outcomes :: "'w dynamic_client \<Rightarrow> string list \<Rightarrow> 'w \<Rightarrow> (bool \<times> go_error option) list" where
  "package_outcomes dc [] w = []"
| "package_outcomes dc (pkg # pkgs) w =
     fst (VerifyClusterPackageHealthy dc pkg w) # package_outcomes dc pkgs (snd (VerifyClusterPackageHealthy dc pkg w))"

lemma fips_package_loop_Nil:
  "fst (fips_package_loop dc pkgs un w) = [] \<longleftrightarrow>
     un = [] \<and> list_all (\<lambda>(found, err). \<not> found \<or> err = None) (package_outcomes dc pkgs w)"
proof (induction dc pkgs un w rule: fips_package_loop.induct)
  case (2 dc pkg pkgs un w)
  obtain found err w1 where v: "VerifyClusterPackageHealthy dc pkg w = ((found, err), w1)" by (metis surj_pair)
  with 2 show ?case by (cases found; cases err) simp_all
qed simp

text \<open>
  C39. VerifyFIPSClusterPackagesHealthy returns nil exactly when no package that was found is
  unhealthy. A package whose lookup failed counts as not found, whatever the reason: when every
  lookup fails the check passes, also when the failure is not that the package is absent.
\<close>

theorem fips_packages_verdict:
  "(fst (VerifyFIPSClusterPackagesHealthy dc pkgs w) = None \<longleftrightarrow>
     list_all (\<lambda>(found, err). \<not> found \<or> err = None) (package_outcomes dc pkgs w))
   \<and> ((\<forall>pkg u. \<exists>e. dyn_Get dc clusterPackageGVR [] pkg u = (Inl e, u)) \<longrightarrow>
        VerifyFIPSClusterPackagesHealthy dc pkgs w = (None, w))"
proof
  have "fst (VerifyFIPSClusterPackagesHealthy dc pkgs w) = None \<longleftrightarrow> fst (fips_package_loop dc pkgs [] w) = []"
    by (simp add: VerifyFIPSClusterPackagesHealthy_def split_beta)
  then show "fst (VerifyFIPSClusterPackagesHealthy dc pkgs w) = None \<longleftrightarrow>
     list_all (\<lambda>(found, err). \<not> found \<or> err = None) (package_outcomes dc pkgs w)"
    by (simp add: fips_package_loop_Nil)
next
  show "(\<forall>pkg u. \<exists>e. dyn_Get dc clusterPackageGVR [] pkg u = (Inl e, u)) \<longrightarrow>
        VerifyFIPSClusterPackagesHealthy dc pkgs w = (None, w)"
  proof
    assume fails: "\<forall>pkg u. \<exists>e. dyn_Get dc clusterPackageGVR [] pkg u = (Inl e, u)"
    have skip: "\<exists>err. VerifyClusterPackageHealthy dc pkg u = ((False, err), u)" for pkg u
      using fails [rule_format, of pkg u] by (auto simp: VerifyClusterPackageHealthy_def)
    have "fips_package_loop dc pkgs un u = (un, u)" for un u
    proof (induction pkgs)
      case (Cons p ps)
      then show ?case using skip [of p u] by auto
    qed simp
    then show "VerifyFIPSClusterPackagesHealthy dc pkgs w = (None, w)"
      by (simp add: VerifyFIPSClusterPackagesHealthy_def)
  qed
qed

section \<open>What the node check accepts\<close>

definition config_fips :: "'w dynamic_client \<Rightarrow> json_object \<Rightarrow> bool" where
  "config_fips dc mc \<longleftrightarrow> NestedBool dc mc [''spec'', ''fips''] = (True, True, None)"

definition pool_applied :: "'w dynamic_client \<Rightarrow> json_object \<Rightarrow> bool" where
  "pool_applied dc mcp \<longleftrightarrow>
     (let n = fst (NestedInt64 dc mcp [''status'', ''machineCount'']) in
      n = 0 \<or> fst (NestedInt64 dc mcp [''status'', ''updatedMachineCount'']) = n
        \<and> fst (NestedInt64 dc mcp [''status'', ''readyMachineCount'']) = n
        \<and> (\<not> fst (snd (NestedSlice dc mcp [''status'', ''conditions'']))
           \<or> \<not> has_condition ''Degraded'' ''True'' (obj_conditions (fst (NestedSlice dc mcp [''status'', ''conditions''])))))"

lemma pool_degraded_Nil: "pool_degraded name js = [] \<longleftrightarrow> \<not> has_condition ''Degraded'' ''True'' (obj_conditions js)"
  by (induction name js rule: pool_degraded.induct) (auto simp: has_condition_def split: option.splits)

interpretation rendered_configs: item_check "rendered_config_item dc" "config_fips dc"
proof
  fix mc
  obtain b f e where g: "NestedBool dc mc [''spec'', ''fips''] = (b, f, e)" by (metis prod_cases3)
  show "rendered_config_item dc mc = Inr [] \<longleftrightarrow> config_fips dc mc"
    by (cases e) (auto simp: rendered_config_item_def config_fips_def g)
qed

interpretation machine_pools: item_check "machine_pool_item dc" "pool_applied dc"
  by unfold_locales (simp add: machine_pool_item_def pool_applied_def Let_def prod3_split pool_degraded_Nil)

text \<open>
  VerifyNodeFIPSEnabled returns nil exactly when there are rendered MachineConfigs, all with
  spec.fips=true, and there are MachineConfigPools, each without machines or with every machine
  updated and ready and no condition Degraded=True. No condition of type Updated takes part in
  the decision.
\<close>

theorem node_fips_verdict:
  "VerifyNodeFIPSEnabled dc w = (None, w') \<longleftrightarrow>
     (\<exists>mcs w1 pools. dyn_List dc machineConfigGVR [] w = (Inr mcs, w1)
        \<and> filter (\<lambda>mc. has_prefix (GetName dc mc) ''rendered-'') mcs \<noteq> []
        \<and> list_all (config_fips dc) (filter (\<lambda>mc. has_prefix (GetName dc mc) ''rendered-'') mcs)
        \<and> dyn_List dc machineConfigPoolGVR [] w1 = (Inr pools, w') \<and> pools \<noteq> []
        \<and> list_all (pool_applied dc) pools)"
proof -
  obtain r1 w1 where 1: "dyn_List dc machineConfigGVR [] w = (r1, w1)" by (metis surj_pair)
  obtain r2 w2 where 2: "dyn_List dc machineConfigPoolGVR [] w1 = (r2, w2)" by (metis surj_pair)
  have a: "verifyRenderedMachineConfigsFIPS dc w = (None, u) \<longleftrightarrow> u = w1 \<and>
      (\<exists>mcs. r1 = Inr mcs \<and> filter (\<lambda>mc. has_prefix (GetName dc mc) ''rendered-'') mcs \<noteq> []
        \<and> list_all (config_fips dc) (filter (\<lambda>mc. has_prefix (GetName dc mc) ''rendered-'') mcs))" for u
    unfolding verifyRenderedMachineConfigsFIPS_def 1 Let_def list_all_iff rendered_configs.scan_accepts [symmetric]
    by (auto split: sum.splits simp del: set_filter filter_empty_conv)
  have b: "verifyMachineConfigPoolsUpdated dc w1 = (None, u) \<longleftrightarrow> u = w2 \<and>
      (\<exists>pools. r2 = Inr pools \<and> pools \<noteq> [] \<and> list_all (pool_applied dc) pools)" for u
    unfolding verifyMachineConfigPoolsUpdated_def 2 list_all_iff machine_pools.scan_accepts [symmetric]
    by (auto split: sum.splits)
  have "VerifyNodeFIPSEnabled dc w = (None, w') \<longleftrightarrow>
      (\<exists>u. verifyRenderedMachineConfigsFIPS dc w = (None, u) \<and> verifyMachineConfigPoolsUpdated dc u = (None, w'))"
    by (auto simp: VerifyNodeFIPSEnabled_def split: prod.splits option.splits)
  also have "\<dots> \<longleftrightarrow> verifyRenderedMachineConfigsFIPS dc w = (None, w1) \<and> verifyMachineConfigPoolsUpdated dc w1 = (None, w')"
    using a by auto
  finally show ?thesis unfolding a b using 1 2 by auto
qed

section \<open>Concrete checks\<close>

theorem fips_operators_report_witness:
  "\<exists>results e. fst (VerifyFIPSOperatorsHealthy (static_kube [] [sample_deployment ''route-monitor-operator'' []])
       CrossPlatformFIPSOperators ()) = (results, Some e)
     \<and> map fr_Operator results = CrossPlatformFIPSOperators \<and> list_ex (\<lambda>r. fr_ErrDetail r \<noteq> []) results"
proof -
  let ?c = "static_kube [] [sample_deployment ''route-monitor-operator'' []]"
  obtain results err u where r: "VerifyFIPSOperatorsHealthy ?c CrossPlatformFIPSOperators () = ((results, err), u)"
    by (metis surj_pair)
  have "snd (fst (VerifyFIPSOperatorsHealthy ?c CrossPlatformFIPSOperators ())) \<noteq> None"
    by (simp add: VerifyFIPSOperatorsHealthy_def CrossPlatformFIPSOperators_def verifyOperatorDeploymentHealthy_def
        static_kube_def sample_deployment_def)
  with r obtain e where "err = Some e" by auto
  with fips_operators_report [OF r] r show ?thesis by (auto simp: list_ex_iff list_all_iff)
qed

theorem fips_packages_verdict_witness:
  "VerifyFIPSClusterPackagesHealthy (static_dynamic []) CrossPlatformFIPSClusterPackages () = (None, ())"
  using fips_packages_verdict [of "static_dynamic []" CrossPlatformFIPSClusterPackages "()"]
  by (simp add: static_dynamic_def)

end
