(* ===== verification/Mc_Diagnostics.thy ===== *)
theory Mc_Diagnostics
  imports Kube_Api "HOL-Library.Word"
begin

text \<open>
  pkg/reporting/mc_diagnostics.go: a bounded snapshot of the rollout state of a hosted control
  plane, written to a file when a test on the management cluster fails, and its registration in
  test/e2e/mc_diagnostics.go.

  The clients, the JSON encoder (whose output depends on the encoding of the Kubernetes time
  type) and the operating system are parameters: operations on the state \<open>'w\<close> of the outside
  world. The run keeps the history of its file operations next to that state. Replica counts
  and restarts are machine integers; the restart counters are added up in 64 bits.
\<close>

section \<open>Data\<close>

definition diagnosticLimit :: nat where "diagnosticLimit = 100"
definition diagnosticMaxBytes :: nat where "diagnosticMaxBytes = 512 * 1024"

record MCNamespaces =
  mn_HCPNamespace :: string
  mn_HCNamespace :: string
  mn_ClusterName :: string

record rolloutIdentity =
  ri_Name :: string
  ri_Namespace :: string
  ri_UID :: string
  ri_Generation :: int
  ri_Created :: string

record healthCondition =
  hc_Type :: string
  hc_Status :: string
  hc_ObservedGeneration :: int
  hc_LastTransitionTime :: string

record rolloutSnapshot =
  rs_Identity :: rolloutIdentity
  rs_Revision :: int
  rs_OwnerName :: string
  rs_OwnerUID :: string
  rs_Desired :: "32 word option"
  rs_Replicas :: "32 word"
  rs_Ready :: "32 word"
  rs_Available :: "32 word"
  rs_Updated :: "32 word"
  rs_Unavailable :: "32 word"
  rs_ObservedGeneration :: int
  rs_Conditions :: "healthCondition list"

record podSnapshot =
  ps_Identity :: rolloutIdentity
  ps_OwnerName :: string
  ps_OwnerUID :: string
  ps_Phase :: string
  ps_Conditions :: "healthCondition list"
  ps_Restarts :: "64 word"

record mcSnapshot =
  ms_CapturedAt :: int
  ms_Deployments :: "rolloutSnapshot list"
  ms_ReplicaSets :: "rolloutSnapshot list"
  ms_Pods :: "podSnapshot list"
  ms_HostedCluster :: "rolloutIdentity option"
  ms_HCConditions :: "healthCondition list"
  ms_ReadStatus :: "string \<rightharpoonup> string"

text \<open>The fields that are read of the API objects. A time is its RFC 3339 text.\<close>

record owner_reference =
  or_Kind :: string
  or_Name :: string
  or_UID :: string
  or_Controller :: "bool option"

record object_meta =
  om_Name :: string
  om_Namespace :: string
  om_UID :: string
  om_Generation :: int
  om_Created :: string
  om_OwnerReferences :: "owner_reference list"
  om_Annotations :: "(string \<times> string) list"

record api_condition =
  ac_Type :: string
  ac_Status :: string
  ac_ObservedGeneration :: int
  ac_LastTransitionTime :: string

record api_rollout =
  ar_Meta :: object_meta
  ar_SpecReplicas :: "32 word option"
  ar_Replicas :: "32 word"
  ar_ReadyReplicas :: "32 word"
  ar_AvailableReplicas :: "32 word"
  ar_UpdatedReplicas :: "32 word"
  ar_UnavailableReplicas :: "32 word"
  ar_ObservedGeneration :: int
  ar_Conditions :: "api_condition list"

record api_pod =
  ap_Meta :: object_meta
  ap_Phase :: string
  ap_Conditions :: "api_condition list"
  ap_RestartCounts :: "32 word list"

text \<open>A listing is its items and the continue token.\<close>

record 'w diag_kube =
  dk_ListDeployments :: "string \<Rightarrow> nat \<Rightarrow> 'w \<Rightarrow> (go_error + api_rollout list \<times> string) \<times> 'w"
  dk_ListReplicaSets :: "string \<Rightarrow> nat \<Rightarrow> 'w \<Rightarrow> (go_error + api_rollout list \<times> string) \<times> 'w"
  dk_ListPods :: "string \<Rightarrow> nat \<Rightarrow> 'w \<Rightarrow> (go_error + api_pod list \<times> string) \<times> 'w"

record 'w diag_dynamic =
  dd_GetHostedCluster :: "string \<Rightarrow> string \<Rightarrow> 'w \<Rightarrow> (go_error + json_object) \<times> 'w"
  dd_Meta :: "json_object \<Rightarrow> object_meta"
  dd_NestedFieldNoCopy :: "json_object \<Rightarrow> string list \<Rightarrow> json \<times> bool \<times> go_error option"
  dd_NestedString :: "json_object \<Rightarrow> string list \<Rightarrow> string \<times> bool \<times> go_error option"
  dd_NestedInt64 :: "json_object \<Rightarrow> string list \<Rightarrow> int \<times> bool \<times> go_error option"

record 'w diag_env =
  de_now :: "'w \<Rightarrow> int"
  de_IsTimeout :: "go_error \<Rightarrow> bool"
  de_IsServerTimeout :: "go_error \<Rightarrow> bool"
  de_IsForbidden :: "go_error \<Rightarrow> bool"
  de_IsUnauthorized :: "go_error \<Rightarrow> bool"
  de_MarshalIndent :: "mcSnapshot \<Rightarrow> go_error + string"
  de_Getenv :: "string \<Rightarrow> 'w \<Rightarrow> string"
  de_MkdirAll :: "string \<Rightarrow> 'w \<Rightarrow> go_error option \<times> 'w"
  de_CreateTemp :: "string \<Rightarrow> string \<Rightarrow> 'w \<Rightarrow> (go_error + string) \<times> 'w" \<comment> \<open>the name of the open file\<close>
  de_Write :: "string \<Rightarrow> string \<Rightarrow> 'w \<Rightarrow> go_error option \<times> 'w"
  de_Chmod :: "string \<Rightarrow> nat \<Rightarrow> 'w \<Rightarrow> go_error option \<times> 'w"
  de_Close :: "string \<Rightarrow> 'w \<Rightarrow> go_error option \<times> 'w"
  de_Remove :: "string \<Rightarrow> 'w \<Rightarrow> go_error option \<times> 'w"

section \<open>Sanitising\<close>

definition boundedIdentity :: "string \<Rightarrow> string" where
  "boundedIdentity value = (if 253 < length value then take 253 value else value)"

definition diagnosticIdentity :: "object_meta \<Rightarrow> rolloutIdentity" where
  "diagnosticIdentity meta = \<lparr>ri_Name = boundedIdentity (om_Name meta), ri_Namespace = boundedIdentity (om_Namespace meta),
     ri_UID = boundedIdentity (om_UID meta), ri_Generation = om_Generation meta, ri_Created = om_Created meta\<rparr>"

fun all_digits :: "string \<Rightarrow> bool" where
  "all_digits [] = True"
| "all_digits (digit # rest) =
     (if (of_char digit :: nat) < of_char (CHR ''0'') \<or> (of_char digit :: nat) > of_char (CHR ''9'') then False
      else all_digits rest)"

definition numericRevision :: "string \<Rightarrow> int" where
  "numericRevision value =
     (if value = [] \<or> 19 < length value then 0
      else if \<not> all_digits value then 0
      else (case strconv_ParseInt value of Inl err \<Rightarrow> 0 | Inr revision \<Rightarrow> revision))"

fun rollout_owner_in :: "owner_reference list \<Rightarrow> string \<Rightarrow> string \<times> string" where
  "rollout_owner_in [] kind = ([], [])"
| "rollout_owner_in (ow # ows) kind =
     (if or_Kind ow = kind \<and> or_Controller ow = Some True
      then (boundedIdentity (or_Name ow), boundedIdentity (or_UID ow))
      else rollout_owner_in ows kind)"

definition rolloutOwner :: "object_meta \<Rightarrow> string \<Rightarrow> string \<times> string" where
  "rolloutOwner meta kind = rollout_owner_in (om_OwnerReferences meta) kind"

definition condition_kinds :: "string list" where
  "condition_kinds = [''Available'', ''Degraded'', ''Progressing'', ''ReplicaFailure'', ''Ready'',
     ''ContainersReady'', ''Initialized'', ''PodScheduled'']"

definition safeCondition :: "string \<Rightarrow> string \<Rightarrow> int \<Rightarrow> string \<Rightarrow> healthCondition option" where
  "safeCondition kind status generation transition =
     (if kind \<notin> set condition_kinds then None
      else if status \<noteq> ''True'' \<and> status \<noteq> ''False'' \<and> status \<noteq> ''Unknown'' then None
      else Some \<lparr>hc_Type = kind, hc_Status = status, hc_ObservedGeneration = generation,
                 hc_LastTransitionTime = (if rfc3339_ok transition then transition else [])\<rparr>)"

definition readStatus :: "'w diag_env \<Rightarrow> go_error \<Rightarrow> string" where
  "readStatus env err =
     (if errors_is err DeadlineExceeded \<or> errors_is err Canceled \<or> de_IsTimeout env err \<or> de_IsServerTimeout env err
      then ''timeout''
      else if de_IsForbidden env err \<or> de_IsUnauthorized env err then ''access-denied''
      else ''read-failed'')"

section \<open>Collecting\<close>

text \<open>
  A collector is the closure given to \<open>read\<close>: it may add to the snapshot, and it returns whether
  it left something out, or an error. What it added before an error stays in the snapshot.
\<close>

type_synonym 'w collector = "mcSnapshot \<times> 'w \<Rightarrow> (bool \<times> go_error option) \<times> mcSnapshot \<times> 'w"

definition diag_read :: "'w diag_env \<Rightarrow> string \<Rightarrow> 'w collector \<Rightarrow> mcSnapshot \<times> 'w \<Rightarrow> mcSnapshot \<times> 'w" where
  "diag_read env resource collect st =
     (case collect st of
        ((truncated, err), snap, w) \<Rightarrow>
          (snap\<lparr>ms_ReadStatus := (ms_ReadStatus snap)(resource \<mapsto>
             (case err of
                Some e \<Rightarrow> readStatus env e
              | None \<Rightarrow> if truncated then ''truncated'' else ''complete''))\<rparr>, w))"

definition api_conditions :: "(api_condition \<Rightarrow> int) \<Rightarrow> api_condition list \<Rightarrow> healthCondition list" where
  "api_conditions gen conds =
     List.map_filter (\<lambda>c. safeCondition (ac_Type c) (ac_Status c) (gen c) (ac_LastTransitionTime c))
       (take (min (length conds) 16) conds)"

definition annotation :: "object_meta \<Rightarrow> string \<Rightarrow> string" where
  "annotation meta k = (case map_of (om_Annotations meta) k of None \<Rightarrow> [] | Some v \<Rightarrow> v)"

definition deployment_snapshot :: "api_rollout \<Rightarrow> rolloutSnapshot" where
  "deployment_snapshot d = \<lparr>rs_Identity = diagnosticIdentity (ar_Meta d),
     rs_Revision = numericRevision (annotation (ar_Meta d) ''deployment.kubernetes.io/revision''),
     rs_OwnerName = [], rs_OwnerUID = [], rs_Desired = ar_SpecReplicas d, rs_Replicas = ar_Replicas d,
     rs_Ready = ar_ReadyReplicas d, rs_Available = ar_AvailableReplicas d, rs_Updated = ar_UpdatedReplicas d,
     rs_Unavailable = ar_UnavailableReplicas d, rs_ObservedGeneration = ar_ObservedGeneration d,
     rs_Conditions = api_conditions (\<lambda>_. 0) (ar_Conditions d)\<rparr>"

definition collect_deployments :: "'w diag_kube \<Rightarrow> string \<Rightarrow> 'w collector" where
  "collect_deployments kube ns st =
     (case st of (snap, w) \<Rightarrow> (case dk_ListDeployments kube ns diagnosticLimit w of
        (Inl err, w') \<Rightarrow> ((False, Some err), snap, w')
      | (Inr (items, cont), w') \<Rightarrow>
          (let kept = take (min (length items) diagnosticLimit) items;
               truncated = foldl (\<lambda>t d. t \<or> 16 < length (ar_Conditions d)) (cont \<noteq> [] \<or> diagnosticLimit < length items) kept
           in ((truncated, None), snap\<lparr>ms_Deployments := ms_Deployments snap @ map deployment_snapshot kept\<rparr>, w'))))"

definition replica_set_snapshot :: "api_rollout \<Rightarrow> rolloutSnapshot" where
  "replica_set_snapshot r =
     (let (ownerName, ownerUID) = rolloutOwner (ar_Meta r) ''Deployment'' in
      \<lparr>rs_Identity = diagnosticIdentity (ar_Meta r),
       rs_Revision = numericRevision (annotation (ar_Meta r) ''deployment.kubernetes.io/revision''),
       rs_OwnerName = ownerName, rs_OwnerUID = ownerUID, rs_Desired = ar_SpecReplicas r, rs_Replicas = ar_Replicas r,
       rs_Ready = ar_ReadyReplicas r, rs_Available = ar_AvailableReplicas r, rs_Updated = 0,
       rs_Unavailable = 0, rs_ObservedGeneration = ar_ObservedGeneration r, rs_Conditions = []\<rparr>)"

definition collect_replica_sets :: "'w diag_kube \<Rightarrow> string \<Rightarrow> 'w collector" where
  "collect_replica_sets kube ns st =
     (case st of (snap, w) \<Rightarrow> (case dk_ListReplicaSets kube ns diagnosticLimit w of
        (Inl err, w') \<Rightarrow> ((False, Some err), snap, w')
      | (Inr (items, cont), w') \<Rightarrow>
          ((cont \<noteq> [] \<or> diagnosticLimit < length items, None),
           snap\<lparr>ms_ReplicaSets := ms_ReplicaSets snap @ map replica_set_snapshot (take (min (length items) diagnosticLimit) items)\<rparr>,
           w')))"

definition pod_phases :: "string list" where
  "pod_phases = [''Pending'', ''Running'', ''Succeeded'', ''Failed'', ''Unknown'']"

definition pod_snapshot :: "api_pod \<Rightarrow> podSnapshot" where
  "pod_snapshot p =
     (let (ownerName, ownerUID) = rolloutOwner (ap_Meta p) ''ReplicaSet'' in
      \<lparr>ps_Identity = diagnosticIdentity (ap_Meta p), ps_OwnerName = ownerName, ps_OwnerUID = ownerUID,
       ps_Phase = (if ap_Phase p \<in> set pod_phases then ap_Phase p else ''Unknown''),
       ps_Conditions = api_conditions ac_ObservedGeneration (ap_Conditions p),
       ps_Restarts = foldl (\<lambda>acc c. acc + scast c) 0
         (take (min (length (ap_RestartCounts p)) 32) (ap_RestartCounts p))\<rparr>)"

definition collect_pods :: "'w diag_kube \<Rightarrow> string \<Rightarrow> 'w collector" where
  "collect_pods kube ns st =
     (case st of (snap, w) \<Rightarrow> (case dk_ListPods kube ns diagnosticLimit w of
        (Inl err, w') \<Rightarrow> ((False, Some err), snap, w')
      | (Inr (items, cont), w') \<Rightarrow>
          (let kept = take (min (length items) diagnosticLimit) items;
               truncated = foldl (\<lambda>t p. t \<or> 16 < length (ap_Conditions p) \<or> 32 < length (ap_RestartCounts p))
                 (cont \<noteq> [] \<or> diagnosticLimit < length items) kept
           in ((truncated, None), snap\<lparr>ms_Pods := ms_Pods snap @ map pod_snapshot kept\<rparr>, w'))))"

text \<open>The condition loop of the hosted cluster, with the map \<open>seen\<close> of the kinds already taken.\<close>

fun hosted_conditions :: "'w diag_dynamic \<Rightarrow> json list \<Rightarrow> string list \<Rightarrow> healthCondition list" where
  "hosted_conditions dyn [] seen = []"
| "hosted_conditions dyn (raw # raws) seen =
     (case as_obj raw of
        None \<Rightarrow> hosted_conditions dyn raws seen
      | Some condition \<Rightarrow>
          (let kind = fst (dd_NestedString dyn condition [''type'']);
               status = fst (dd_NestedString dyn condition [''status'']);
               generation = fst (dd_NestedInt64 dyn condition [''observedGeneration'']);
               transition = fst (dd_NestedString dyn condition [''lastTransitionTime''])
           in case safeCondition kind status generation transition of
                Some safe \<Rightarrow> if kind \<notin> set seen then safe # hosted_conditions dyn raws (kind # seen)
                             else hosted_conditions dyn raws seen
              | None \<Rightarrow> hosted_conditions dyn raws seen))"

definition collect_hosted_cluster :: "'w diag_dynamic \<Rightarrow> MCNamespaces \<Rightarrow> 'w collector" where
  "collect_hosted_cluster dyn nss st =
     (case st of (snap, w) \<Rightarrow> (case dd_GetHostedCluster dyn (mn_HCNamespace nss) (mn_ClusterName nss) w of
        (Inl err, w') \<Rightarrow> ((False, Some err), snap, w')
      | (Inr obj, w') \<Rightarrow>
          (let snap1 = snap\<lparr>ms_HostedCluster := Some (diagnosticIdentity (dd_Meta dyn obj))\<rparr> in
           case dd_NestedFieldNoCopy dyn obj [''status'', ''conditions''] of
             (rawConditions, _, err) \<Rightarrow>
               if err \<noteq> None then ((False, Some (ErrorsNew ''invalid conditions'')), snap1, w')
               else (let conditions = (case as_arr rawConditions of None \<Rightarrow> [] | Some cs \<Rightarrow> cs) in
                 if rawConditions \<noteq> JNull \<and> as_arr rawConditions = None
                 then ((False, Some (ErrorsNew ''invalid conditions'')), snap1, w')
                 else ((diagnosticLimit < length conditions, None),
                   snap1\<lparr>ms_HCConditions := ms_HCConditions snap1 @
                     hosted_conditions dyn (take (min (length conditions) diagnosticLimit) conditions) []\<rparr>, w')))))"

definition empty_snapshot :: "int \<Rightarrow> mcSnapshot" where
  "empty_snapshot t = \<lparr>ms_CapturedAt = t, ms_Deployments = [], ms_ReplicaSets = [], ms_Pods = [],
     ms_HostedCluster = None, ms_HCConditions = [], ms_ReadStatus = Map.empty\<rparr>"

definition collect_snapshot ::
  "'w diag_env \<Rightarrow> 'w diag_kube \<Rightarrow> 'w diag_dynamic \<Rightarrow> MCNamespaces \<Rightarrow> 'w \<Rightarrow> mcSnapshot \<times> 'w" where
  "collect_snapshot env kube dyn nss w =
     diag_read env ''hostedCluster'' (collect_hosted_cluster dyn nss)
       (diag_read env ''pods'' (collect_pods kube (mn_HCPNamespace nss))
         (diag_read env ''replicaSets'' (collect_replica_sets kube (mn_HCPNamespace nss))
           (diag_read env ''deployments'' (collect_deployments kube (mn_HCPNamespace nss))
             (empty_snapshot (de_now env w), w))))"

section \<open>Shrinking and writing\<close>

definition drop_last_item :: "mcSnapshot \<Rightarrow> mcSnapshot option" where
  "drop_last_item snap =
     (if ms_Pods snap \<noteq> []
      then Some (snap\<lparr>ms_Pods := butlast (ms_Pods snap), ms_ReadStatus := (ms_ReadStatus snap)(''pods'' \<mapsto> ''truncated'')\<rparr>)
      else if ms_ReplicaSets snap \<noteq> []
      then Some (snap\<lparr>ms_ReplicaSets := butlast (ms_ReplicaSets snap),
                      ms_ReadStatus := (ms_ReadStatus snap)(''replicaSets'' \<mapsto> ''truncated'')\<rparr>)
      else if ms_Deployments snap \<noteq> []
      then Some (snap\<lparr>ms_Deployments := butlast (ms_Deployments snap),
                      ms_ReadStatus := (ms_ReadStatus snap)(''deployments'' \<mapsto> ''truncated'')\<rparr>)
      else None)"

definition item_count :: "mcSnapshot \<Rightarrow> nat" where
  "item_count snap = length (ms_Pods snap) + length (ms_ReplicaSets snap) + length (ms_Deployments snap)"

lemma drop_last_item_count: "drop_last_item snap = Some snap' \<Longrightarrow> Suc (item_count snap') = item_count snap"
  by (auto simp: drop_last_item_def item_count_def split: if_splits)

function shrink_output :: "(mcSnapshot \<Rightarrow> go_error + string) \<Rightarrow> mcSnapshot \<Rightarrow> string \<Rightarrow> go_error + mcSnapshot \<times> string" where
  "shrink_output marshal snap output =
     (if length output + 1 \<le> diagnosticMaxBytes then Inr (snap, output)
      else (case drop_last_item snap of
        None \<Rightarrow> Inl (ErrorsNew ''MC diagnostics size limit exceeded'')
      | Some snap' \<Rightarrow> (case marshal snap' of
          Inl err \<Rightarrow> Inl (ErrorsNew ''MC diagnostics serialization failed'')
        | Inr output' \<Rightarrow> shrink_output marshal snap' output')))"
  by pat_completeness auto
termination
  by (relation "measure (\<lambda>(m, snap, out). item_count snap)") (auto dest: drop_last_item_count)

declare shrink_output.simps [simp del]

datatype file_event =
    Mkdir string "go_error option"
  | Created string "go_error + string"
  | Wrote string string "go_error option"
  | Chmodded string nat "go_error option"
  | Closed string "go_error option"
  | Removed string "go_error option"

definition writeDiagnosticFile :: "'w diag_env \<Rightarrow> string \<Rightarrow> string \<Rightarrow> 'w \<Rightarrow> go_error option \<times> file_event list \<times> 'w" where
  "writeDiagnosticFile env file output w =
     (let data = output @ nl;
          (writeErr, w1) = de_Write env file data w;
          (modeErr, w2) = de_Chmod env file 420 w1;
          (closeErr, w3) = de_Close env file w2;
          evs = [Wrote file data writeErr, Chmodded file 420 modeErr, Closed file closeErr]
      in if writeErr \<noteq> None \<or> modeErr \<noteq> None \<or> closeErr \<noteq> None
         then (case de_Remove env file w3 of (removeErr, w4) \<Rightarrow>
           (Some (ErrorsNew ''MC diagnostics write failed''), evs @ [Removed file removeErr], w4))
         else (None, evs, w3))"

definition store_output :: "'w diag_env \<Rightarrow> string \<Rightarrow> 'w \<Rightarrow> go_error option \<times> file_event list \<times> 'w" where
  "store_output env output w =
     (let env_dir = de_Getenv env ''ARTIFACT_DIR'' w;
          directory = path_join (if env_dir = [] then ''/tmp'' else env_dir) ''mc-failure-diagnostics'';
          (mkErr, w1) = de_MkdirAll env directory w
      in if mkErr \<noteq> None then (Some (ErrorsNew ''MC diagnostics directory unavailable''), [Mkdir directory mkErr], w1)
         else (case de_CreateTemp env directory ''snapshot-*.json'' w1 of
           (Inl err, w2) \<Rightarrow> (Some (ErrorsNew ''MC diagnostics file unavailable''),
                              [Mkdir directory mkErr, Created directory (Inl err)], w2)
         | (Inr file, w2) \<Rightarrow> (case writeDiagnosticFile env file output w2 of
             (r, evs, w3) \<Rightarrow> (r, [Mkdir directory mkErr, Created directory (Inr file)] @ evs, w3))))"

definition WriteMCFailureDiagnostics ::
  "'w diag_env \<Rightarrow> 'w diag_kube option \<Rightarrow> 'w diag_dynamic option \<Rightarrow> MCNamespaces \<Rightarrow> 'w
   \<Rightarrow> go_error option \<times> file_event list \<times> 'w" where
  "WriteMCFailureDiagnostics env client dynamicClient nss w =
     (case (client, dynamicClient) of
        (Some kube, Some dyn) \<Rightarrow>
          if mn_HCPNamespace nss = [] \<or> mn_HCNamespace nss = [] \<or> mn_ClusterName nss = []
          then (Some (ErrorsNew ''MC diagnostics require initialized clients and resolved namespaces''), [], w)
          else (case collect_snapshot env kube dyn nss w of
            (snapshot, w1) \<Rightarrow> (case de_MarshalIndent env snapshot of
              Inl err \<Rightarrow> (Some (ErrorsNew ''MC diagnostics serialization failed''), [], w1)
            | Inr output \<Rightarrow> (case shrink_output (de_MarshalIndent env) snapshot output of
                Inl err \<Rightarrow> (Some err, [], w1)
              | Inr (snap', output') \<Rightarrow> store_output env output' w1)))
      | _ \<Rightarrow> (Some (ErrorsNew ''MC diagnostics require initialized clients and resolved namespaces''), [], w))"

section \<open>test/e2e/mc_diagnostics.go\<close>

text \<open>The collection runs only after a failed spec, and its error is only a line on the test log.\<close>

definition collectMCFailureDiagnostics ::
  "bool \<Rightarrow> ('w \<Rightarrow> go_error option \<times> 'w) \<Rightarrow> 'w \<times> string list \<Rightarrow> 'w \<times> string list" where
  "collectMCFailureDiagnostics failed collect st =
     (case st of (w, log) \<Rightarrow>
        if \<not> failed then (w, log)
        else (case collect w of
          (None, w') \<Rightarrow> (w', log)
        | (Some err, w') \<Rightarrow> (w', log @ [''WARNING: MC failure diagnostics could not be written'' @ nl])))"

section \<open>Bounds of a snapshot\<close>

definition identity_bounded :: "rolloutIdentity \<Rightarrow> bool" where
  "identity_bounded i \<longleftrightarrow> length (ri_Name i) \<le> 253 \<and> length (ri_Namespace i) \<le> 253 \<and> length (ri_UID i) \<le> 253"

definition condition_safe :: "healthCondition \<Rightarrow> bool" where
  "condition_safe c \<longleftrightarrow> hc_Type c \<in> set condition_kinds \<and> hc_Status c \<in> {''True'', ''False'', ''Unknown''}
     \<and> (hc_LastTransitionTime c = [] \<or> rfc3339_ok (hc_LastTransitionTime c))"

definition rollout_bounded :: "rolloutSnapshot \<Rightarrow> bool" where
  "rollout_bounded r \<longleftrightarrow> identity_bounded (rs_Identity r) \<and> length (rs_OwnerName r) \<le> 253 \<and> length (rs_OwnerUID r) \<le> 253
     \<and> 0 \<le> rs_Revision r \<and> rs_Revision r \<le> int64_max
     \<and> length (rs_Conditions r) \<le> 16 \<and> list_all condition_safe (rs_Conditions r)"

definition pod_bounded :: "podSnapshot \<Rightarrow> bool" where
  "pod_bounded p \<longleftrightarrow> identity_bounded (ps_Identity p) \<and> length (ps_OwnerName p) \<le> 253 \<and> length (ps_OwnerUID p) \<le> 253
     \<and> ps_Phase p \<in> set pod_phases \<and> length (ps_Conditions p) \<le> 16 \<and> list_all condition_safe (ps_Conditions p)"

definition snapshot_bounded :: "mcSnapshot \<Rightarrow> bool" where
  "snapshot_bounded s \<longleftrightarrow> length (ms_Deployments s) \<le> diagnosticLimit \<and> length (ms_ReplicaSets s) \<le> diagnosticLimit
     \<and> length (ms_Pods s) \<le> diagnosticLimit
     \<and> list_all rollout_bounded (ms_Deployments s) \<and> list_all rollout_bounded (ms_ReplicaSets s)
     \<and> list_all pod_bounded (ms_Pods s)
     \<and> list_all condition_safe (ms_HCConditions s) \<and> distinct (map hc_Type (ms_HCConditions s))
     \<and> (case ms_HostedCluster s of None \<Rightarrow> True | Some i \<Rightarrow> identity_bounded i)"

lemma boundedIdentity_le [simp]: "length (boundedIdentity v) \<le> 253"
  by (simp add: boundedIdentity_def)

lemma boundedIdentity_id [simp]: "length v \<le> 253 \<Longrightarrow> boundedIdentity v = v"
  by (simp add: boundedIdentity_def)

lemma identity_bounded_diagnostic [simp]: "identity_bounded (diagnosticIdentity meta)"
  by (simp add: identity_bounded_def diagnosticIdentity_def)

lemma all_digits_iff: "all_digits s \<longleftrightarrow> list_all is_digit s"
  by (induction s) (auto simp: is_digit_def)

lemma numericRevision_range: "0 \<le> numericRevision v \<and> numericRevision v \<le> int64_max"
proof (cases "v = [] \<or> 19 < length v \<or> \<not> list_all is_digit v")
  case False
  then have "strconv_ParseInt v =
      (if int64_max < int (nat_of_digits v) then Inl (num_error ''ParseInt'' v ''value out of range'') else Inr (int (nat_of_digits v)))"
    unfolding strconv_ParseInt_def by (intro parse_int64_digits) auto
  with False show ?thesis by (auto simp: numericRevision_def all_digits_iff int64_max_def)
qed (auto simp: numericRevision_def all_digits_iff int64_max_def)

lemma rollout_owner_in_bounded:
  "length (fst (rollout_owner_in ows kind)) \<le> 253 \<and> length (snd (rollout_owner_in ows kind)) \<le> 253"
  by (induction ows) auto

lemma map_filter_safe:
  "list_all condition_safe (List.map_filter (\<lambda>c. safeCondition (ty c) (st c) (gen c) (tr c)) cs)"
  by (auto simp: list_all_iff List.map_filter_def condition_safe_def safeCondition_def split: if_splits)

lemma length_map_filter_le: "length (List.map_filter f xs) \<le> length xs"
  by (simp add: List.map_filter_def)

lemma api_conditions_bounded [simp]:
  "length (api_conditions gen cs) \<le> 16" "list_all condition_safe (api_conditions gen cs)"
  using length_map_filter_le [of _ "take (min (length cs) 16) cs"]
  by (auto simp: api_conditions_def map_filter_safe intro: order_trans)

lemma item_snapshots_bounded:
  "rollout_bounded (deployment_snapshot d)" "rollout_bounded (replica_set_snapshot r)" "pod_bounded (pod_snapshot p)"
  using numericRevision_range rollout_owner_in_bounded
  by (auto simp: rollout_bounded_def pod_bounded_def deployment_snapshot_def replica_set_snapshot_def pod_snapshot_def
      rolloutOwner_def split_beta pod_phases_def int64_max_def)

lemma hosted_conditions_safe:
  "list_all condition_safe (hosted_conditions dyn js seen)
   \<and> distinct (map hc_Type (hosted_conditions dyn js seen))
   \<and> set (map hc_Type (hosted_conditions dyn js seen)) \<inter> set seen = {}"
proof (induction js arbitrary: seen)
  case (Cons raw raws)
  show ?case
  proof (cases "as_obj raw")
    case None
    with Cons [of seen] show ?thesis by simp
  next
    case (Some m)
    note m = this
    let ?kind = "fst (dd_NestedString dyn m [''type''])"
    let ?safe = "safeCondition ?kind (fst (dd_NestedString dyn m [''status'']))
      (fst (dd_NestedInt64 dyn m [''observedGeneration''])) (fst (dd_NestedString dyn m [''lastTransitionTime'']))"
    show ?thesis
    proof (cases ?safe)
      case None
      with m Cons [of seen] show ?thesis by (simp add: Let_def)
    next
      case (Some c)
      then have "hc_Type c = ?kind" "condition_safe c"
        by (auto simp: safeCondition_def condition_safe_def split: if_splits)
      with m Some Cons [of seen] Cons [of "?kind # seen"] show ?thesis
        by (cases "?kind \<in> set seen") (auto simp: Let_def)
    qed
  qed
qed simp

section \<open>The invariant through the four reads\<close>

definition read_statuses :: "string list" where
  "read_statuses = [''timeout'', ''access-denied'', ''read-failed'', ''truncated'', ''complete'']"

definition statuses_known :: "mcSnapshot \<Rightarrow> bool" where
  "statuses_known s \<longleftrightarrow> ran (ms_ReadStatus s) \<subseteq> set read_statuses"

lemma readStatus_known: "readStatus env e \<in> set read_statuses"
  by (simp add: readStatus_def read_statuses_def)

lemma ran_upd_subset: "ran m \<subseteq> A \<Longrightarrow> v \<in> A \<Longrightarrow> ran (m(k \<mapsto> v)) \<subseteq> A"
  by (auto simp: ran_def)

lemma diag_read_known:
  assumes "statuses_known (fst (snd (collect st)))"
  shows "statuses_known (fst (diag_read env res collect st))"
proof -
  obtain t e snap w where c: "collect st = ((t, e), snap, w)" by (metis surj_pair)
  have "(case e of Some e \<Rightarrow> readStatus env e | None \<Rightarrow> if t then ''truncated'' else ''complete'') \<in> set read_statuses"
    using readStatus_known [of env] by (cases e) (simp_all add: read_statuses_def)
  with assms show ?thesis by (simp add: diag_read_def statuses_known_def c ran_upd_subset)
qed

text \<open>
  Each collector fills only its own part of the snapshot: what it keeps of a listing, and for the
  hosted cluster what it takes from the object.
\<close>

definition kept :: "('a \<Rightarrow> 'b) \<Rightarrow> (go_error + 'a list \<times> string) \<times> 'w \<Rightarrow> 'b list" where
  "kept f r = (case fst r of Inl _ \<Rightarrow> [] | Inr (items, _) \<Rightarrow> map f (take diagnosticLimit items))"

definition hosted_kept :: "'w diag_dynamic \<Rightarrow> (go_error + json_object) \<times> 'w \<Rightarrow> healthCondition list" where
  "hosted_kept dyn r =
     (case fst r of
        Inl _ \<Rightarrow> []
      | Inr obj \<Rightarrow> (case dd_NestedFieldNoCopy dyn obj [''status'', ''conditions''] of
          (raw, _, err) \<Rightarrow> if err \<noteq> None then [] else (case as_arr raw of
            None \<Rightarrow> [] | Some cs \<Rightarrow> hosted_conditions dyn (take diagnosticLimit cs) [])))"

definition hosted_identity :: "'w diag_dynamic \<Rightarrow> (go_error + json_object) \<times> 'w \<Rightarrow> rolloutIdentity option \<Rightarrow> rolloutIdentity option" where
  "hosted_identity dyn r old = (case fst r of Inl _ \<Rightarrow> old | Inr obj \<Rightarrow> Some (diagnosticIdentity (dd_Meta dyn obj)))"

lemma take_min_length [simp]: "take (min (length xs) n) xs = take n xs"
  by (simp add: min_def)

lemma collect_frames:
  "fst (snd (collect_deployments kube ns (snap, w))) =
     snap\<lparr>ms_Deployments := ms_Deployments snap @ kept deployment_snapshot (dk_ListDeployments kube ns diagnosticLimit w)\<rparr>"
  "fst (snd (collect_replica_sets kube ns (snap, w))) =
     snap\<lparr>ms_ReplicaSets := ms_ReplicaSets snap @ kept replica_set_snapshot (dk_ListReplicaSets kube ns diagnosticLimit w)\<rparr>"
  "fst (snd (collect_pods kube ns (snap, w))) =
     snap\<lparr>ms_Pods := ms_Pods snap @ kept pod_snapshot (dk_ListPods kube ns diagnosticLimit w)\<rparr>"
  by (simp_all add: collect_deployments_def collect_replica_sets_def collect_pods_def kept_def Let_def
      split: prod.splits sum.splits)

lemma collect_hosted_frame:
  "fst (snd (collect_hosted_cluster dyn nss (snap, w))) =
     (let r = dd_GetHostedCluster dyn (mn_HCNamespace nss) (mn_ClusterName nss) w in
      snap\<lparr>ms_HostedCluster := hosted_identity dyn r (ms_HostedCluster snap),
           ms_HCConditions := ms_HCConditions snap @ hosted_kept dyn r\<rparr>)"
  by (simp add: collect_hosted_cluster_def hosted_kept_def hosted_identity_def Let_def split: prod.splits sum.splits option.splits)

lemma kept_bounded:
  "length (kept f r) \<le> diagnosticLimit" "(\<And>x. P (f x)) \<Longrightarrow> list_all P (kept f r)"
  by (auto simp: kept_def list_all_iff split: sum.splits)

lemma hosted_kept_safe: "list_all condition_safe (hosted_kept dyn r)" "distinct (map hc_Type (hosted_kept dyn r))"
  using hosted_conditions_safe by (auto simp: hosted_kept_def split: sum.splits prod.splits option.splits)

definition list_status :: "'w diag_env \<Rightarrow> ('a \<Rightarrow> bool) \<Rightarrow> (go_error + 'a list \<times> string) \<times> 'w \<Rightarrow> string" where
  "list_status env oversized r =
     (case fst r of
        Inl e \<Rightarrow> readStatus env e
      | Inr (items, cont) \<Rightarrow>
          if cont \<noteq> [] \<or> diagnosticLimit < length items \<or> list_ex oversized (take diagnosticLimit items)
          then ''truncated'' else ''complete'')"

definition oversized_deployment :: "api_rollout \<Rightarrow> bool" where
  "oversized_deployment d \<longleftrightarrow> 16 < length (ar_Conditions d)"

definition oversized_pod :: "api_pod \<Rightarrow> bool" where
  "oversized_pod p \<longleftrightarrow> 16 < length (ap_Conditions p) \<or> 32 < length (ap_RestartCounts p)"

lemma foldl_or: "foldl (\<lambda>t x. t \<or> P x) b xs \<longleftrightarrow> b \<or> list_ex P xs"
  by (induction xs arbitrary: b) auto

lemma list_reads:
  "diag_read env res (collect_deployments kube ns) (snap, w) =
     (let r = dk_ListDeployments kube ns diagnosticLimit w in
      (snap\<lparr>ms_Deployments := ms_Deployments snap @ kept deployment_snapshot r,
            ms_ReadStatus := (ms_ReadStatus snap)(res \<mapsto> list_status env oversized_deployment r)\<rparr>, snd r))"
  "diag_read env res (collect_replica_sets kube ns) (snap, w) =
     (let r = dk_ListReplicaSets kube ns diagnosticLimit w in
      (snap\<lparr>ms_ReplicaSets := ms_ReplicaSets snap @ kept replica_set_snapshot r,
            ms_ReadStatus := (ms_ReadStatus snap)(res \<mapsto> list_status env (\<lambda>_. False) r)\<rparr>, snd r))"
  "diag_read env res (collect_pods kube ns) (snap, w) =
     (let r = dk_ListPods kube ns diagnosticLimit w in
      (snap\<lparr>ms_Pods := ms_Pods snap @ kept pod_snapshot r,
            ms_ReadStatus := (ms_ReadStatus snap)(res \<mapsto> list_status env oversized_pod r)\<rparr>, snd r))"
  by (simp_all add: diag_read_def collect_deployments_def collect_replica_sets_def collect_pods_def kept_def
      list_status_def foldl_or oversized_deployment_def [abs_def] oversized_pod_def [abs_def] Let_def list_ex_iff
      split: prod.splits sum.splits)

lemma hosted_read:
  "\<exists>st \<in> set read_statuses. fst (diag_read env res (collect_hosted_cluster dyn nss) (snap, w)) =
     (let r = dd_GetHostedCluster dyn (mn_HCNamespace nss) (mn_ClusterName nss) w in
      snap\<lparr>ms_HostedCluster := hosted_identity dyn r (ms_HostedCluster snap),
           ms_HCConditions := ms_HCConditions snap @ hosted_kept dyn r,
           ms_ReadStatus := (ms_ReadStatus snap)(res \<mapsto> st)\<rparr>)"
proof -
  obtain t e s' w' where c: "collect_hosted_cluster dyn nss (snap, w) = ((t, e), s', w')" by (metis surj_pair)
  let ?st = "case e of Some e \<Rightarrow> readStatus env e | None \<Rightarrow> if t then ''truncated'' else ''complete''"
  have "?st \<in> set read_statuses"
    using readStatus_known [of env] by (cases e) (simp_all add: read_statuses_def)
  moreover have "fst (diag_read env res (collect_hosted_cluster dyn nss) (snap, w)) =
      s'\<lparr>ms_ReadStatus := (ms_ReadStatus s')(res \<mapsto> ?st)\<rparr>" by (simp add: diag_read_def c)
  ultimately show ?thesis
    using collect_hosted_frame [of dyn nss snap w] by (intro bexI [of _ ?st]) (simp_all add: c Let_def)
qed

text \<open>The snapshot that the four reads produce, read by read.\<close>

lemma collect_snapshot_eq:
  "\<exists>l1 l2 l3 hc hcs st. st \<in> set read_statuses
     \<and> l1 = dk_ListDeployments kube (mn_HCPNamespace nss) diagnosticLimit w
     \<and> l2 = dk_ListReplicaSets kube (mn_HCPNamespace nss) diagnosticLimit (snd l1)
     \<and> l3 = dk_ListPods kube (mn_HCPNamespace nss) diagnosticLimit (snd l2)
     \<and> list_all condition_safe hcs \<and> distinct (map hc_Type hcs)
     \<and> (case hc of None \<Rightarrow> True | Some i \<Rightarrow> identity_bounded i)
     \<and> fst (collect_snapshot env kube dyn nss w) =
         \<lparr>ms_CapturedAt = de_now env w, ms_Deployments = kept deployment_snapshot l1,
          ms_ReplicaSets = kept replica_set_snapshot l2, ms_Pods = kept pod_snapshot l3,
          ms_HostedCluster = hc, ms_HCConditions = hcs,
          ms_ReadStatus = [''deployments'' \<mapsto> list_status env oversized_deployment l1,
            ''replicaSets'' \<mapsto> list_status env (\<lambda>_. False) l2, ''pods'' \<mapsto> list_status env oversized_pod l3,
            ''hostedCluster'' \<mapsto> st]\<rparr>"
proof -
  let ?ns = "mn_HCPNamespace nss"
  define l1 where "l1 = dk_ListDeployments kube ?ns diagnosticLimit w"
  define l2 where "l2 = dk_ListReplicaSets kube ?ns diagnosticLimit (snd l1)"
  define l3 where "l3 = dk_ListPods kube ?ns diagnosticLimit (snd l2)"
  define snap where "snap = \<lparr>ms_CapturedAt = de_now env w, ms_Deployments = kept deployment_snapshot l1,
      ms_ReplicaSets = kept replica_set_snapshot l2, ms_Pods = kept pod_snapshot l3,
      ms_HostedCluster = None, ms_HCConditions = [],
      ms_ReadStatus = [''deployments'' \<mapsto> list_status env oversized_deployment l1,
        ''replicaSets'' \<mapsto> list_status env (\<lambda>_. False) l2, ''pods'' \<mapsto> list_status env oversized_pod l3]\<rparr>"
  have c: "collect_snapshot env kube dyn nss w =
      diag_read env ''hostedCluster'' (collect_hosted_cluster dyn nss) (snap, snd l3)"
    by (simp add: collect_snapshot_def list_reads empty_snapshot_def Let_def l1_def l2_def l3_def snap_def)
  let ?r = "dd_GetHostedCluster dyn (mn_HCNamespace nss) (mn_ClusterName nss) (snd l3)"
  obtain st where st: "st \<in> set read_statuses" "fst (collect_snapshot env kube dyn nss w) =
      snap\<lparr>ms_HostedCluster := hosted_identity dyn ?r None, ms_HCConditions := hosted_kept dyn ?r,
           ms_ReadStatus := (ms_ReadStatus snap)(''hostedCluster'' \<mapsto> st)\<rparr>"
    using hosted_read [of env "''hostedCluster''" dyn nss snap "snd l3"] unfolding c Let_def by (auto simp: snap_def)
  have hc: "case hosted_identity dyn ?r None of None \<Rightarrow> True | Some i \<Rightarrow> identity_bounded i"
    by (auto simp: hosted_identity_def split: sum.splits)
  show ?thesis
    using st hc hosted_kept_safe [of dyn ?r]
    by (intro exI [of _ l1] exI [of _ l2] exI [of _ l3] exI [of _ "hosted_identity dyn ?r None"]
        exI [of _ "hosted_kept dyn ?r"] exI [of _ st]) (simp add: snap_def l1_def l2_def l3_def)
qed

lemma list_status_known: "list_status env P r \<in> set read_statuses"
  using readStatus_known [of env] by (auto simp: list_status_def read_statuses_def split: sum.splits)

lemma collect_snapshot_bounded: "snapshot_bounded (fst (collect_snapshot env kube dyn nss w))"
  using collect_snapshot_eq [of kube nss w env dyn]
  by (elim exE conjE) (simp add: snapshot_bounded_def kept_bounded item_snapshots_bounded)

section \<open>Shrinking\<close>

text \<open>
  \<open>shrunk a b\<close>: \<open>b\<close> is \<open>a\<close> with the ends of its lists dropped, pods first, replica sets only when no
  pod is left, deployments only when neither is left; a list that lost an item is marked
  truncated and the status of every other resource is unchanged.
\<close>

definition shrunk :: "mcSnapshot \<Rightarrow> mcSnapshot \<Rightarrow> bool" where
  "shrunk a b \<longleftrightarrow> prefix (ms_Pods b) (ms_Pods a) \<and> prefix (ms_ReplicaSets b) (ms_ReplicaSets a)
     \<and> prefix (ms_Deployments b) (ms_Deployments a)
     \<and> (ms_ReplicaSets b \<noteq> ms_ReplicaSets a \<longrightarrow> ms_Pods b = [])
     \<and> (ms_Deployments b \<noteq> ms_Deployments a \<longrightarrow> ms_ReplicaSets b = [] \<and> ms_Pods b = [])
     \<and> (ms_Pods b = ms_Pods a \<and> ms_ReadStatus b ''pods'' = ms_ReadStatus a ''pods''
        \<or> ms_Pods b \<noteq> ms_Pods a \<and> ms_ReadStatus b ''pods'' = Some ''truncated'')
     \<and> (ms_ReplicaSets b = ms_ReplicaSets a \<and> ms_ReadStatus b ''replicaSets'' = ms_ReadStatus a ''replicaSets''
        \<or> ms_ReplicaSets b \<noteq> ms_ReplicaSets a \<and> ms_ReadStatus b ''replicaSets'' = Some ''truncated'')
     \<and> (ms_Deployments b = ms_Deployments a \<and> ms_ReadStatus b ''deployments'' = ms_ReadStatus a ''deployments''
        \<or> ms_Deployments b \<noteq> ms_Deployments a \<and> ms_ReadStatus b ''deployments'' = Some ''truncated'')
     \<and> ms_ReadStatus b ''hostedCluster'' = ms_ReadStatus a ''hostedCluster''
     \<and> ms_CapturedAt b = ms_CapturedAt a \<and> ms_HostedCluster b = ms_HostedCluster a
     \<and> ms_HCConditions b = ms_HCConditions a"

lemma shrunk_refl [simp]: "shrunk a a"
  by (simp add: shrunk_def)

lemma prefix_butlast: "prefix (butlast xs) xs"
  by (cases xs rule: rev_cases) auto

lemma butlast_shorter: "prefix ys xs \<Longrightarrow> ys \<noteq> [] \<Longrightarrow> butlast ys \<noteq> xs"
  by (metis append_butlast_last_id append_self_conv not_Cons_self2 prefix_def prefix_order.antisym)

lemma shrunk_drop:
  assumes "shrunk a b" and "drop_last_item b = Some c"
  shows "shrunk a c"
proof -
  consider (pods) "ms_Pods b \<noteq> []"
      "c = b\<lparr>ms_Pods := butlast (ms_Pods b), ms_ReadStatus := (ms_ReadStatus b)(''pods'' \<mapsto> ''truncated'')\<rparr>"
    | (sets) "ms_Pods b = []" "ms_ReplicaSets b \<noteq> []"
      "c = b\<lparr>ms_ReplicaSets := butlast (ms_ReplicaSets b), ms_ReadStatus := (ms_ReadStatus b)(''replicaSets'' \<mapsto> ''truncated'')\<rparr>"
    | (deps) "ms_Pods b = []" "ms_ReplicaSets b = []" "ms_Deployments b \<noteq> []"
      "c = b\<lparr>ms_Deployments := butlast (ms_Deployments b), ms_ReadStatus := (ms_ReadStatus b)(''deployments'' \<mapsto> ''truncated'')\<rparr>"
    using assms(2) by (auto simp: drop_last_item_def split: if_splits)
  then show ?thesis
  proof cases
    case pods
    with assms(1) butlast_shorter [of "ms_Pods b" "ms_Pods a"] prefix_order.trans [OF prefix_butlast, of "ms_Pods b" "ms_Pods a"]
    show ?thesis unfolding shrunk_def by auto
  next
    case sets
    with assms(1) butlast_shorter [of "ms_ReplicaSets b" "ms_ReplicaSets a"]
      prefix_order.trans [OF prefix_butlast, of "ms_ReplicaSets b" "ms_ReplicaSets a"]
    show ?thesis unfolding shrunk_def by auto
  next
    case deps
    with assms(1) butlast_shorter [of "ms_Deployments b" "ms_Deployments a"]
      prefix_order.trans [OF prefix_butlast, of "ms_Deployments b" "ms_Deployments a"]
    show ?thesis unfolding shrunk_def by auto
  qed
qed

lemma shrink_output_spec:
  assumes "shrink_output marshal snap out = Inr (snap', out')" and "shrunk a snap" and "marshal snap = Inr out"
  shows "shrunk a snap' \<and> marshal snap' = Inr out' \<and> length out' + 1 \<le> diagnosticMaxBytes"
  using assms
proof (induction marshal snap out rule: shrink_output.induct)
  case (1 marshal snap out)
  show ?case
  proof (cases "length out + 1 \<le> diagnosticMaxBytes")
    case True
    with 1(2-4) show ?thesis by (simp add: shrink_output.simps [of marshal snap out])
  next
    case False
    with 1(2) obtain c o' where c: "drop_last_item snap = Some c" "marshal c = Inr o'"
        "shrink_output marshal c o' = Inr (snap', out')"
      by (auto simp: shrink_output.simps [of marshal snap out] split: option.splits sum.splits)
    from 1(1) [OF False c(1,2) c(3) shrunk_drop [OF 1(3) c(1)] c(2)] show ?thesis .
  qed
qed

lemma prefix_list_all: "prefix ys xs \<Longrightarrow> list_all P xs \<Longrightarrow> list_all P ys"
  by (auto simp: prefix_def)

lemma shrunk_bounded:
  assumes "snapshot_bounded a" and "shrunk a b"
  shows "snapshot_bounded b"
proof -
  have p: "prefix (ms_Pods b) (ms_Pods a)" "prefix (ms_ReplicaSets b) (ms_ReplicaSets a)"
    "prefix (ms_Deployments b) (ms_Deployments a)" "ms_HostedCluster b = ms_HostedCluster a"
    "ms_HCConditions b = ms_HCConditions a"
    using assms(2) by (simp_all add: shrunk_def)
  show ?thesis
    using assms(1) p(1-3) [THEN prefix_list_all] p(1-3) [THEN prefix_length_le]
    unfolding snapshot_bounded_def p(4,5) by auto
qed

section \<open>Properties\<close>

text \<open>
  C19. Whatever the clients answer, the collected snapshot is bounded and sanitised: at most 100
  items of each kind, identities of at most 253 bytes, revisions within 0 and the largest int64,
  at most 16 conditions per item, only whitelisted condition types and statuses, well-formed or
  empty transition times, no condition type twice for the hosted cluster; and each of the four
  reads, no other, has a status of the fixed vocabulary.
\<close>

theorem mc_snapshot_sanitised:
  "snapshot_bounded (fst (collect_snapshot env kube dyn nss w))
   \<and> dom (ms_ReadStatus (fst (collect_snapshot env kube dyn nss w)))
       = {''deployments'', ''replicaSets'', ''pods'', ''hostedCluster''}
   \<and> ran (ms_ReadStatus (fst (collect_snapshot env kube dyn nss w))) \<subseteq> set read_statuses"
proof (intro conjI)
  show "snapshot_bounded (fst (collect_snapshot env kube dyn nss w))" by (rule collect_snapshot_bounded)
  show "dom (ms_ReadStatus (fst (collect_snapshot env kube dyn nss w)))
       = {''deployments'', ''replicaSets'', ''pods'', ''hostedCluster''}"
    using collect_snapshot_eq [of kube nss w env dyn] by (elim exE conjE) auto
  show "ran (ms_ReadStatus (fst (collect_snapshot env kube dyn nss w))) \<subseteq> set read_statuses"
    using collect_snapshot_eq [of kube nss w env dyn]
    by (elim exE conjE) (simp only: mcSnapshot.simps, intro ran_upd_subset list_status_known, simp_all)
qed

lemma listed_complete:
  assumes "list_status env P r = ''complete''"
  shows "\<exists>items w'. r = (Inr (items, []), w') \<and> length items \<le> diagnosticLimit \<and> \<not> list_ex P items \<and> kept f r = map f items"
proof (cases "fst r")
  case (Inl e)
  then show ?thesis using assms by (simp add: list_status_def readStatus_def split: if_splits)
next
  case (Inr l)
  then show ?thesis using assms
    by (cases l; cases r) (auto simp: list_status_def kept_def split: if_splits)
qed

lemma shrunk_complete:
  assumes "shrunk a b"
  shows "ms_ReadStatus b ''pods'' = Some ''complete'' \<Longrightarrow> ms_Pods b = ms_Pods a \<and> ms_ReadStatus a ''pods'' = Some ''complete''"
    and "ms_ReadStatus b ''replicaSets'' = Some ''complete'' \<Longrightarrow>
      ms_ReplicaSets b = ms_ReplicaSets a \<and> ms_ReadStatus a ''replicaSets'' = Some ''complete''"
    and "ms_ReadStatus b ''deployments'' = Some ''complete'' \<Longrightarrow>
      ms_Deployments b = ms_Deployments a \<and> ms_ReadStatus a ''deployments'' = Some ''complete''"
  using assms unfolding shrunk_def by auto

text \<open>
  C22. The status \<open>complete\<close> is honest, also after the output was shrunk to fit: when the snapshot
  that is written has the status complete for pods, the client listed at most 100 pods with no
  continue token, none with more than 16 conditions or 32 containers, and the snapshot has exactly
  one entry for each of them, in order; likewise for replica sets and deployments.
\<close>

theorem mc_complete_is_complete:
  assumes "de_MarshalIndent env (fst (collect_snapshot env kube dyn nss w)) = Inr out"
    and "shrink_output (de_MarshalIndent env) (fst (collect_snapshot env kube dyn nss w)) out = Inr (snap, out')"
  shows "(ms_ReadStatus snap ''pods'' = Some ''complete'' \<longrightarrow>
       (\<exists>items w1 w2. dk_ListPods kube (mn_HCPNamespace nss) diagnosticLimit w1 = (Inr (items, []), w2)
          \<and> length items \<le> diagnosticLimit \<and> \<not> list_ex oversized_pod items \<and> ms_Pods snap = map pod_snapshot items))
    \<and> (ms_ReadStatus snap ''replicaSets'' = Some ''complete'' \<longrightarrow>
       (\<exists>items w1 w2. dk_ListReplicaSets kube (mn_HCPNamespace nss) diagnosticLimit w1 = (Inr (items, []), w2)
          \<and> length items \<le> diagnosticLimit \<and> ms_ReplicaSets snap = map replica_set_snapshot items))
    \<and> (ms_ReadStatus snap ''deployments'' = Some ''complete'' \<longrightarrow>
       (\<exists>items w2. dk_ListDeployments kube (mn_HCPNamespace nss) diagnosticLimit w = (Inr (items, []), w2)
          \<and> length items \<le> diagnosticLimit \<and> \<not> list_ex oversized_deployment items
          \<and> ms_Deployments snap = map deployment_snapshot items))"
proof -
  let ?s = "fst (collect_snapshot env kube dyn nss w)"
  obtain l1 l2 l3 where l: "l1 = dk_ListDeployments kube (mn_HCPNamespace nss) diagnosticLimit w"
    "l2 = dk_ListReplicaSets kube (mn_HCPNamespace nss) diagnosticLimit (snd l1)"
    "l3 = dk_ListPods kube (mn_HCPNamespace nss) diagnosticLimit (snd l2)"
    "ms_Deployments ?s = kept deployment_snapshot l1" "ms_ReplicaSets ?s = kept replica_set_snapshot l2"
    "ms_Pods ?s = kept pod_snapshot l3"
    "ms_ReadStatus ?s ''deployments'' = Some (list_status env oversized_deployment l1)"
    "ms_ReadStatus ?s ''replicaSets'' = Some (list_status env (\<lambda>_. False) l2)"
    "ms_ReadStatus ?s ''pods'' = Some (list_status env oversized_pod l3)"
    using collect_snapshot_eq [of kube nss w env dyn] by (elim exE conjE) auto
  have sh: "shrunk ?s snap" using shrink_output_spec [OF assms(2) shrunk_refl assms(1)] by blast
  note same = shrunk_complete [OF sh]
  show ?thesis
  proof (intro conjI impI)
    assume "ms_ReadStatus snap ''pods'' = Some ''complete''"
    with same(1) l listed_complete [of env oversized_pod l3 pod_snapshot]
    show "\<exists>items w1 w2. dk_ListPods kube (mn_HCPNamespace nss) diagnosticLimit w1 = (Inr (items, []), w2)
        \<and> length items \<le> diagnosticLimit \<and> \<not> list_ex oversized_pod items \<and> ms_Pods snap = map pod_snapshot items"
      by (metis option.inject)
  next
    assume "ms_ReadStatus snap ''replicaSets'' = Some ''complete''"
    with same(2) l listed_complete [of env "\<lambda>_. False" l2 replica_set_snapshot]
    show "\<exists>items w1 w2. dk_ListReplicaSets kube (mn_HCPNamespace nss) diagnosticLimit w1 = (Inr (items, []), w2)
        \<and> length items \<le> diagnosticLimit \<and> ms_ReplicaSets snap = map replica_set_snapshot items"
      by (metis option.inject)
  next
    assume "ms_ReadStatus snap ''deployments'' = Some ''complete''"
    with same(3) l listed_complete [of env oversized_deployment l1 deployment_snapshot]
    show "\<exists>items w2. dk_ListDeployments kube (mn_HCPNamespace nss) diagnosticLimit w = (Inr (items, []), w2)
        \<and> length items \<le> diagnosticLimit \<and> \<not> list_ex oversized_deployment items
        \<and> ms_Deployments snap = map deployment_snapshot items"
      by (metis option.inject)
  qed
qed

text \<open>How a failed run of the file operations ends: the events, and the message of the error.\<close>

definition store_failed :: "'w diag_env \<Rightarrow> string \<Rightarrow> string \<Rightarrow> file_event list \<Rightarrow> 'w \<Rightarrow> bool" where
  "store_failed env out m evs w' \<longleftrightarrow>
     (\<exists>dir err. m = ''MC diagnostics directory unavailable'' \<and> evs = [Mkdir dir (Some err)])
   \<or> (\<exists>dir err. m = ''MC diagnostics file unavailable'' \<and> evs = [Mkdir dir None, Created dir (Inl err)])
   \<or> (\<exists>dir f writeErr modeErr closeErr removeErr w3.
        m = ''MC diagnostics write failed''
      \<and> evs = [Mkdir dir None, Created dir (Inr f), Wrote f (out @ nl) writeErr, Chmodded f 420 modeErr,
               Closed f closeErr, Removed f removeErr]
      \<and> \<not> (writeErr = None \<and> modeErr = None \<and> closeErr = None)
      \<and> de_Remove env f w3 = (removeErr, w'))"

lemma writeDiagnosticFile_cases:
  obtains (written) w' where "writeDiagnosticFile env f out w =
      (None, [Wrote f (out @ nl) None, Chmodded f 420 None, Closed f None], w')"
  | (failed) we me ce re w3 w' where "writeDiagnosticFile env f out w =
      (Some (ErrorsNew ''MC diagnostics write failed''),
       [Wrote f (out @ nl) we, Chmodded f 420 me, Closed f ce, Removed f re], w')"
      "\<not> (we = None \<and> me = None \<and> ce = None)" "de_Remove env f w3 = (re, w')"
proof -
  obtain we w1 where 1: "de_Write env f (out @ nl) w = (we, w1)" by (metis surj_pair)
  obtain me w2 where 2: "de_Chmod env f 420 w1 = (me, w2)" by (metis surj_pair)
  obtain ce w3 where 3: "de_Close env f w2 = (ce, w3)" by (metis surj_pair)
  obtain re w4 where 4: "de_Remove env f w3 = (re, w4)" by (metis surj_pair)
  show thesis
    using written failed [of we me ce re w4 w3] 4
    by (cases "we = None \<and> me = None \<and> ce = None")
       (simp_all add: writeDiagnosticFile_def Let_def 1 2 3 4)
qed

lemma store_output_cases:
  obtains (stored) dir f w' where "store_output env out w =
      (None, [Mkdir dir None, Created dir (Inr f), Wrote f (out @ nl) None, Chmodded f 420 None, Closed f None], w')"
  | (failed) m evs w' where "store_output env out w = (Some (ErrorsNew m), evs, w')"
      "store_failed env out m evs w'"
proof -
  define dir where "dir = path_join (if de_Getenv env ''ARTIFACT_DIR'' w = [] then ''/tmp'' else de_Getenv env ''ARTIFACT_DIR'' w) ''mc-failure-diagnostics''"
  obtain mk w1 where 1: "de_MkdirAll env dir w = (mk, w1)" by (metis surj_pair)
  obtain cr w2 where 2: "de_CreateTemp env dir ''snapshot-*.json'' w1 = (cr, w2)" by (metis surj_pair)
  note eq = store_output_def [of env out w, folded dir_def, unfolded Let_def, folded dir_def, unfolded 1 prod.case 2]
  show thesis
  proof (cases "mk = None")
    case False
    then show thesis using failed eq by (auto simp: store_failed_def)
  next
    case True
    show thesis
    proof (cases cr)
      case (Inl e)
      then show thesis using failed eq True by (simp add: store_failed_def)
    next
      case (Inr f)
      show thesis
      proof (cases rule: writeDiagnosticFile_cases [of env f out w2])
        case (written w')
        then show thesis using stored eq True Inr by simp
      next
        case (failed we me ce re w3 w')
        have "store_failed env out ''MC diagnostics write failed''
           [Mkdir dir None, Created dir (Inr f), Wrote f (out @ nl) we, Chmodded f 420 me, Closed f ce, Removed f re] w'"
          unfolding store_failed_def using failed(2,3) by blast
        with \<open>writeDiagnosticFile env f out w2 = _\<close> show thesis using that(2) eq True Inr by simp
      qed
    qed
  qed
qed

lemma WriteMC_cases:
  assumes "WriteMCFailureDiagnostics env client dynamicClient nss w = (r, evs, w')"
  obtains (early) m where "r = Some (ErrorsNew m)" "evs = []"
      "m \<in> {''MC diagnostics require initialized clients and resolved namespaces'',
            ''MC diagnostics serialization failed'', ''MC diagnostics size limit exceeded''}"
  | (stored) kube dyn snap out w1 where "client = Some kube" "dynamicClient = Some dyn"
      "shrunk (fst (collect_snapshot env kube dyn nss w)) snap" "de_MarshalIndent env snap = Inr out"
      "length out + 1 \<le> diagnosticMaxBytes" "store_output env out w1 = (r, evs, w')"
proof -
  have sherr: "e \<in> {ErrorsNew ''MC diagnostics serialization failed'', ErrorsNew ''MC diagnostics size limit exceeded''}"
    if "shrink_output mar snap out = Inl e" for mar snap out e
    using that
  proof (induction mar snap out rule: shrink_output.induct)
    case (1 mar snap out)
    show ?case
      using 1(2) 1(1) by (auto simp: shrink_output.simps [of mar snap out] split: if_splits option.splits sum.splits)
  qed
  show thesis
  proof (cases "\<exists>kube dyn. client = Some kube \<and> dynamicClient = Some dyn
      \<and> mn_HCPNamespace nss \<noteq> [] \<and> mn_HCNamespace nss \<noteq> [] \<and> mn_ClusterName nss \<noteq> []")
    case False
    then show thesis using assms early
      by (auto simp: WriteMCFailureDiagnostics_def split: option.splits if_splits)
  next
    case True
    then obtain kube dyn where c: "client = Some kube" "dynamicClient = Some dyn"
      "mn_HCPNamespace nss \<noteq> []" "mn_HCNamespace nss \<noteq> []" "mn_ClusterName nss \<noteq> []" by blast
    obtain snap0 w1 where s: "collect_snapshot env kube dyn nss w = (snap0, w1)" by (metis surj_pair)
    show thesis
    proof (cases "de_MarshalIndent env snap0")
      case (Inl e)
      then show thesis using assms early c s by (auto simp: WriteMCFailureDiagnostics_def)
    next
      case (Inr out0)
      show thesis
      proof (cases "shrink_output (de_MarshalIndent env) snap0 out0")
        case (Inl e)
        then show thesis using assms early sherr [OF Inl] c s Inr by (auto simp: WriteMCFailureDiagnostics_def)
      next
        case (Inr p)
        obtain snap out where p: "p = (snap, out)" by (metis surj_pair)
        from shrink_output_spec [OF Inr [unfolded p] shrunk_refl \<open>de_MarshalIndent env snap0 = Inr out0\<close>]
        show thesis using assms stored [of kube dyn snap out w1] c s Inr p \<open>de_MarshalIndent env snap0 = Inr out0\<close>
          by (simp add: WriteMCFailureDiagnostics_def)
      qed
    qed
  qed
qed

text \<open>
  C12. When WriteMCFailureDiagnostics returns nil, exactly one file was created and written
  without an error: its contents are the JSON text of the collected snapshot, shrunk if need be,
  followed by a newline; the snapshot is bounded and the whole file has at most 512 KiB.
\<close>

theorem mc_diagnostics_written:
  assumes "WriteMCFailureDiagnostics env client dynamicClient nss w = (None, evs, w')"
  shows "\<exists>kube dyn snap out dir f. client = Some kube \<and> dynamicClient = Some dyn
    \<and> shrunk (fst (collect_snapshot env kube dyn nss w)) snap \<and> snapshot_bounded snap
    \<and> de_MarshalIndent env snap = Inr out \<and> length (out @ nl) \<le> diagnosticMaxBytes
    \<and> evs = [Mkdir dir None, Created dir (Inr f), Wrote f (out @ nl) None, Chmodded f 420 None, Closed f None]"
  using assms
proof (cases rule: WriteMC_cases)
  case (stored kube dyn snap out w1)
  have b: "snapshot_bounded snap" by (rule shrunk_bounded [OF collect_snapshot_bounded stored(3)])
  show ?thesis
  proof (cases rule: store_output_cases [of env out w1])
    case (stored dir f w2)
    with \<open>store_output env out w1 = (None, evs, w')\<close> have
      e: "evs = [Mkdir dir None, Created dir (Inr f), Wrote f (out @ nl) None, Chmodded f 420 None, Closed f None]"
      by simp
    show ?thesis
      using b \<open>client = Some kube\<close> \<open>dynamicClient = Some dyn\<close> \<open>shrunk _ snap\<close> \<open>de_MarshalIndent env snap = Inr out\<close>
        \<open>length out + 1 \<le> diagnosticMaxBytes\<close> e
      by (intro exI [of _ kube] exI [of _ dyn] exI [of _ snap] exI [of _ out] exI [of _ dir] exI [of _ f])
         (simp add: nl_def)
  next
    case (failed m evs2 w2)
    with \<open>store_output env out w1 = (None, evs, w')\<close> show ?thesis by simp
  qed
qed simp

text \<open>
  C24. When WriteMCFailureDiagnostics fails, the error tells how far it came and the file operations
  are exactly these. With one of three messages nothing was done to the file system; the directory
  or the file could not be created, and then nothing follows; or the file was created and writing,
  setting its mode or closing it failed, and then all three were tried and the last operation is
  the attempt to remove the file. The answer of that attempt is ignored, so the file is gone if it
  succeeded, and only then. The error is one of six fixed messages, so no text from a client or from
  the operating system gets into it.
\<close>

theorem mc_diagnostics_failure_cleans_up:
  assumes "WriteMCFailureDiagnostics env client dynamicClient nss w = (Some e, evs, w')"
  shows "(evs = [] \<and> e \<in> ErrorsNew ` {''MC diagnostics require initialized clients and resolved namespaces'',
            ''MC diagnostics serialization failed'', ''MC diagnostics size limit exceeded''})
    \<or> (\<exists>dir err. e = ErrorsNew ''MC diagnostics directory unavailable'' \<and> evs = [Mkdir dir (Some err)])
    \<or> (\<exists>dir err. e = ErrorsNew ''MC diagnostics file unavailable'' \<and> evs = [Mkdir dir None, Created dir (Inl err)])
    \<or> (\<exists>dir f data writeErr modeErr closeErr removeErr w3. e = ErrorsNew ''MC diagnostics write failed''
        \<and> evs = [Mkdir dir None, Created dir (Inr f), Wrote f data writeErr, Chmodded f 420 modeErr,
                 Closed f closeErr, Removed f removeErr]
        \<and> \<not> (writeErr = None \<and> modeErr = None \<and> closeErr = None)
        \<and> de_Remove env f w3 = (removeErr, w'))"
  using assms
proof (cases rule: WriteMC_cases)
  case (early m)
  then show ?thesis by auto
next
  case (stored kube dyn snap out w1)
  show ?thesis
  proof (cases rule: store_output_cases [of env out w1])
    case (failed m evs2 w2)
    with stored(6) have "store_failed env out m evs w'" "e = ErrorsNew m" using assms stored by auto
    then show ?thesis unfolding store_failed_def by blast
  qed (use stored in simp)
qed

lemma sint_scast_64: "sint (scast (c :: 32 word) :: 64 word) = sint c"
proof -
  have "- (2 ^ 31) \<le> sint c" "sint c < 2 ^ 31" using sint_range_size [of c] by (simp_all add: word_size)
  then have "signed_take_bit 63 (sint c) = sint c" by (intro signed_take_bit_int_eq_self) simp_all
  then show ?thesis by (simp add: signed_scast_eq)
qed

lemma sint_add_64:
  fixes a b :: "64 word"
  assumes "- (2 ^ 63) \<le> sint a + sint b" and "sint a + sint b < 2 ^ 63"
  shows "sint (a + b) = sint a + sint b"
  using assms by (simp add: sint_word_add signed_take_bit_int_eq_self)

lemma restart_sum:
  fixes acc :: "64 word" and cs :: "32 word list"
  assumes "\<bar>sint acc\<bar> \<le> int n * 2 ^ 31" and "n + length cs \<le> 32"
  shows "sint (foldl (\<lambda>acc c. acc + scast c) acc cs) = sint acc + sum_list (map sint cs)"
  using assms
proof (induction cs arbitrary: acc n)
  case (Cons c cs)
  have c: "- (2 ^ 31) \<le> sint c" "sint c < 2 ^ 31" using sint_range_size [of c] by (simp_all add: word_size)
  have "int n * 2 ^ 31 \<le> 31 * 2 ^ 31" using Cons(3) by simp
  then have s: "sint (acc + scast c) = sint acc + sint c"
    using Cons(2) c by (subst sint_add_64) (simp_all add: sint_scast_64)
  have "\<bar>sint (acc + scast c)\<bar> \<le> int (Suc n) * 2 ^ 31" using Cons(2) c unfolding s by simp
  from Cons(1) [OF this] Cons(3) show ?case by (simp add: s)
qed simp

text \<open>
  The restart total of a pod, added up in 64 bits over its first 32 containers, is the exact
  sum of the 32-bit counters: it never wraps around.
\<close>

theorem pod_restarts_exact:
  "sint (ps_Restarts (pod_snapshot p)) = sum_list (map sint (take 32 (ap_RestartCounts p)))"
  using restart_sum [of 0 0 "take 32 (ap_RestartCounts p)"]
  by (simp add: pod_snapshot_def split_beta)

section \<open>A concrete run\<close>

text \<open>
  A client with one deployment and two pods, one of them with a long name and an unknown phase,
  and a hosted cluster with a repeated condition; the operating system fails to change the mode
  of the file when \<open>broken\<close> is set. The encoder writes one line per pod.
\<close>

definition sample_meta :: "string \<Rightarrow> object_meta" where
  "sample_meta name = \<lparr>om_Name = name, om_Namespace = ''hcp'', om_UID = ''u'', om_Generation = 1,
     om_Created = ''2026-01-02T03:04:05Z'', om_OwnerReferences = [],
     om_Annotations = [(''deployment.kubernetes.io/revision'', ''7'')]\<rparr>"

definition sample_rollout :: api_rollout where
  "sample_rollout = \<lparr>ar_Meta = sample_meta ''d'', ar_SpecReplicas = Some 2, ar_Replicas = 2, ar_ReadyReplicas = 1,
     ar_AvailableReplicas = 1, ar_UpdatedReplicas = 2, ar_UnavailableReplicas = 1, ar_ObservedGeneration = 1,
     ar_Conditions = [\<lparr>ac_Type = ''Available'', ac_Status = ''False'', ac_ObservedGeneration = 0,
       ac_LastTransitionTime = ''2026-01-02T03:04:05Z''\<rparr>]\<rparr>"

definition sample_pod :: "string \<Rightarrow> api_pod" where
  "sample_pod phase = \<lparr>ap_Meta = sample_meta ''p'', ap_Phase = phase, ap_Conditions = [], ap_RestartCounts = [3, 4]\<rparr>"

definition sample_diag_kube :: "unit diag_kube" where
  "sample_diag_kube = \<lparr>dk_ListDeployments = (\<lambda>ns n w. (Inr ([sample_rollout], []), w)),
     dk_ListReplicaSets = (\<lambda>ns n w. (Inl (External ''Forbidden'' ''no'' None), w)),
     dk_ListPods = (\<lambda>ns n w. (Inr ([sample_pod ''Running'', sample_pod ''Odd''], []), w))\<rparr>"

definition sample_diag_dynamic :: "unit diag_dynamic" where
  "sample_diag_dynamic = \<lparr>dd_GetHostedCluster = (\<lambda>ns n w. (Inr (sample_object ''hc''
       [sample_condition ''Available'' ''True'', sample_condition ''Available'' ''False'']), w)),
     dd_Meta = (\<lambda>m. sample_meta ''hc''),
     dd_NestedFieldNoCopy = (\<lambda>m ks. case json_path (JObj m) ks of None \<Rightarrow> (JNull, False, None) | Some v \<Rightarrow> (v, True, None)),
     dd_NestedString = nested_as as_str [], dd_NestedInt64 = nested_as as_int 0\<rparr>"

definition sample_diag_env :: "bool \<Rightarrow> unit diag_env" where
  "sample_diag_env broken = \<lparr>de_now = (\<lambda>w. 0), de_IsTimeout = (\<lambda>e. False), de_IsServerTimeout = (\<lambda>e. False),
     de_IsForbidden = (\<lambda>e. case e of External r t c \<Rightarrow> r = ''Forbidden'' | _ \<Rightarrow> False), de_IsUnauthorized = (\<lambda>e. False),
     de_MarshalIndent = (\<lambda>s. Inr (concat (map (\<lambda>p. ps_Phase p @ nl) (ms_Pods s)))),
     de_Getenv = (\<lambda>k w. ''/a''), de_MkdirAll = (\<lambda>d w. (None, w)), de_CreateTemp = (\<lambda>d p w. (Inr ''f'', w)),
     de_Write = (\<lambda>f d w. (None, w)), de_Chmod = (\<lambda>f m w. (if broken then Some (ErrorsNew ''chmod'') else None, w)),
     de_Close = (\<lambda>f w. (None, w)), de_Remove = (\<lambda>f w. (Some (ErrorsNew ''busy''), w))\<rparr>"

definition sample_nss :: MCNamespaces where
  "sample_nss = \<lparr>mn_HCPNamespace = ''hcp'', mn_HCNamespace = ''hc'', mn_ClusterName = ''c''\<rparr>"

lemma sample_snapshot:
  "ms_Pods (fst (collect_snapshot (sample_diag_env b) sample_diag_kube sample_diag_dynamic sample_nss ())) =
     [pod_snapshot (sample_pod ''Running''), pod_snapshot (sample_pod ''Odd'')]"
  "ms_ReadStatus (fst (collect_snapshot (sample_diag_env b) sample_diag_kube sample_diag_dynamic sample_nss ())) ''pods''
     = Some ''complete''"
  using collect_snapshot_eq [of sample_diag_kube sample_nss "()" "sample_diag_env b" sample_diag_dynamic]
  by (auto simp: sample_diag_kube_def kept_def list_status_def oversized_pod_def sample_pod_def diagnosticLimit_def)

definition sample_text :: string where
  "sample_text = ''Running'' @ nl @ ''Unknown'' @ nl"

lemma sample_output:
  "de_MarshalIndent (sample_diag_env b) (fst (collect_snapshot (sample_diag_env b) sample_diag_kube sample_diag_dynamic sample_nss ()))
     = Inr sample_text"
  by (simp add: sample_diag_env_def sample_snapshot [unfolded sample_diag_env_def] pod_snapshot_def sample_pod_def
      rolloutOwner_def sample_meta_def pod_phases_def sample_text_def)

lemma sample_shrink:
  "shrink_output m s sample_text = Inr (s, sample_text)"
  by (subst shrink_output.simps) (simp add: diagnosticMaxBytes_def nl_def sample_text_def)

theorem mc_complete_is_complete_witness:
  "\<exists>snap out. shrink_output (de_MarshalIndent (sample_diag_env False))
       (fst (collect_snapshot (sample_diag_env False) sample_diag_kube sample_diag_dynamic sample_nss ()))
       sample_text = Inr (snap, out)
     \<and> (\<exists>items w1 w2. dk_ListPods sample_diag_kube ''hcp'' diagnosticLimit w1 = (Inr (items, []), w2)
          \<and> ms_Pods snap = map pod_snapshot items)"
proof -
  let ?s = "fst (collect_snapshot (sample_diag_env False) sample_diag_kube sample_diag_dynamic sample_nss ())"
  have ns: "mn_HCPNamespace sample_nss = ''hcp''" by (simp add: sample_nss_def)
  obtain items w1 w2 where "dk_ListPods sample_diag_kube ''hcp'' diagnosticLimit w1 = (Inr (items, []), w2)"
    "ms_Pods ?s = map pod_snapshot items"
    using mc_complete_is_complete [OF sample_output sample_shrink, of False] sample_snapshot(2) [of False]
    unfolding ns by blast
  with sample_shrink [of "de_MarshalIndent (sample_diag_env False)" ?s] show ?thesis by blast
qed

lemma sample_store:
  "\<exists>r evs. store_output (sample_diag_env b) out () = (r, evs, ())
     \<and> (r = None \<longleftrightarrow> \<not> b) \<and> Created ''/a/mc-failure-diagnostics'' (Inr ''f'') \<in> set evs"
proof -
  have "path_join ''/a'' ''mc-failure-diagnostics'' = ''/a/mc-failure-diagnostics''" by code_simp
  then show ?thesis
    by (cases b) (simp_all add: store_output_def writeDiagnosticFile_def Let_def sample_diag_env_def)
qed

lemma sample_write:
  "\<exists>r evs. WriteMCFailureDiagnostics (sample_diag_env b) (Some sample_diag_kube) (Some sample_diag_dynamic) sample_nss ()
     = (r, evs, ()) \<and> (r = None \<longleftrightarrow> \<not> b) \<and> Created ''/a/mc-failure-diagnostics'' (Inr ''f'') \<in> set evs"
proof -
  obtain snap where s: "collect_snapshot (sample_diag_env b) sample_diag_kube sample_diag_dynamic sample_nss () = (snap, ())"
    by (metis old.unit.exhaust surj_pair)
  have m: "de_MarshalIndent (sample_diag_env b) snap = Inr sample_text" using sample_output [of b] s by simp
  have n: "mn_HCPNamespace sample_nss \<noteq> []" "mn_HCNamespace sample_nss \<noteq> []" "mn_ClusterName sample_nss \<noteq> []"
    by (simp_all add: sample_nss_def)
  have "WriteMCFailureDiagnostics (sample_diag_env b) (Some sample_diag_kube) (Some sample_diag_dynamic) sample_nss ()
      = store_output (sample_diag_env b) sample_text ()"
    by (simp add: WriteMCFailureDiagnostics_def s m n sample_shrink)
  then show ?thesis using sample_store by simp
qed

theorem mc_diagnostics_written_witness:
  "\<exists>evs snap out. WriteMCFailureDiagnostics (sample_diag_env False) (Some sample_diag_kube) (Some sample_diag_dynamic) sample_nss ()
     = (None, evs, ()) \<and> snapshot_bounded snap \<and> de_MarshalIndent (sample_diag_env False) snap = Inr out
     \<and> Wrote ''f'' (out @ nl) None \<in> set evs"
proof -
  obtain evs where w: "WriteMCFailureDiagnostics (sample_diag_env False) (Some sample_diag_kube) (Some sample_diag_dynamic) sample_nss ()
      = (None, evs, ())" "Created ''/a/mc-failure-diagnostics'' (Inr ''f'') \<in> set evs"
    using sample_write [of False] by auto
  with mc_diagnostics_written [OF w(1)] show ?thesis by auto
qed

theorem mc_diagnostics_failure_cleans_up_witness:
  "\<exists>e evs. WriteMCFailureDiagnostics (sample_diag_env True) (Some sample_diag_kube) (Some sample_diag_dynamic) sample_nss ()
     = (Some e, evs, ()) \<and> e = ErrorsNew ''MC diagnostics write failed''
     \<and> last evs = Removed ''f'' (Some (ErrorsNew ''busy''))"
proof -
  obtain e evs where w: "WriteMCFailureDiagnostics (sample_diag_env True) (Some sample_diag_kube) (Some sample_diag_dynamic) sample_nss ()
      = (Some e, evs, ())" "Created ''/a/mc-failure-diagnostics'' (Inr ''f'') \<in> set evs"
    using sample_write [of True] by auto
  have b: "de_Remove (sample_diag_env True) f v = (r, v') \<Longrightarrow> r = Some (ErrorsNew ''busy'')" for f v r v'
    by (simp add: sample_diag_env_def)
  from mc_diagnostics_failure_cleans_up [OF w(1)] have "e = ErrorsNew ''MC diagnostics write failed''
      \<and> last evs = Removed ''f'' (Some (ErrorsNew ''busy''))"
    using w(2) by (elim disjE exE conjE) (auto dest: b)
  with w(1) show ?thesis by blast
qed

end
