(* ===== verification/Sippy.thy ===== *)
theory Sippy
  imports Go_Prelude
begin

text \<open>
  pkg/reporting/sippy.go and test/e2e/sippy_signals.go: the suite report is condensed into the
  signals that Sippy reads (install, infrastructure, upgrade), and they are written as a JUnit
  file. The report types of Ginkgo, the XML encoder and the file system are parameters: a spec
  report is the record of what the code reads of it, with \<open>sr_Failed\<close> for its method Failed.
\<close>

section \<open>sippy.go\<close>

definition InstallTestName :: string where "InstallTestName = ''install should succeed: overall''"
definition InfrastructureTestName :: string where "InfrastructureTestName = ''install should succeed: infrastructure''"
definition UpgradeTestName :: string where "UpgradeTestName = ''[sig-sippy] upgrade should work''"
definition suiteName :: string where "suiteName = ''rosa-e2e-sippy-signals''"

record SignalResult =
  InstallPassed :: bool
  InfrastructurePassed :: bool
  UpgradeRan :: bool
  UpgradePassed :: bool
  InstallFailureMsg :: string
  InfraFailureMsg :: string
  UpgradeFailureMsg :: string

record junitFailure =
  jf_Message :: string
  jf_Text :: string

record junitTestCase =
  jc_Name :: string
  jc_ClassName :: string
  jc_Status :: string
  jc_Time :: string
  jc_Failure :: "junitFailure option"

record junitTestSuite =
  js_Name :: string
  js_Tests :: nat
  js_Failures :: nat
  js_Cases :: "junitTestCase list"

record junitTestSuites =
  jss_Tests :: nat
  jss_Failures :: nat
  jss_Suites :: "junitTestSuite list"

definition makeTestCase :: "string \<Rightarrow> bool \<Rightarrow> string \<Rightarrow> junitTestCase" where
  "makeTestCase name passed failureMsg =
     (let tc = \<lparr>jc_Name = name, jc_ClassName = suiteName, jc_Status = ''passed'', jc_Time = ''0'', jc_Failure = None\<rparr> in
      if \<not> passed
      then tc\<lparr>jc_Status := ''failed'', jc_Failure := Some \<lparr>jf_Message = failureMsg, jf_Text = failureMsg\<rparr>\<rparr>
      else tc)"

text \<open>The suites that WriteSippyJUnit builds before it encodes them.\<close>

definition sippy_suites :: "SignalResult \<Rightarrow> junitTestSuites" where
  "sippy_suites result =
     (let cases1 = [makeTestCase InstallTestName (InstallPassed result) (InstallFailureMsg result)];
          failures1 = (if \<not> InstallPassed result then 1 else 0);
          cases2 = cases1 @ [makeTestCase InfrastructureTestName (InfrastructurePassed result) (InfraFailureMsg result)];
          failures2 = (if \<not> InfrastructurePassed result then failures1 + 1 else failures1);
          (cases, failures) =
            (if UpgradeRan result
             then (cases2 @ [makeTestCase UpgradeTestName (UpgradePassed result) (UpgradeFailureMsg result)],
                   if \<not> UpgradePassed result then failures2 + 1 else failures2)
             else (cases2, failures2))
      in \<lparr>jss_Tests = length cases, jss_Failures = failures,
          jss_Suites = [\<lparr>js_Name = suiteName, js_Tests = length cases, js_Failures = failures, js_Cases = cases\<rparr>]\<rparr>)"

definition xml_header :: string where
  "xml_header = ''<?xml version='' @ [CHR 0x22] @ ''1.0'' @ [CHR 0x22] @ '' encoding='' @ [CHR 0x22] @ ''UTF-8'' @ [CHR 0x22] @ ''?>'' @ nl"

definition WriteSippyJUnit ::
  "(junitTestSuites \<Rightarrow> go_error + string) \<Rightarrow> (string \<Rightarrow> string \<Rightarrow> 'w \<Rightarrow> go_error option \<times> 'w)
   \<Rightarrow> SignalResult \<Rightarrow> string \<Rightarrow> 'w \<Rightarrow> go_error option \<times> 'w" where
  "WriteSippyJUnit marshal write_file result outputPath w =
     (case marshal (sippy_suites result) of
        Inl err \<Rightarrow> (Some err, w)
      | Inr data \<Rightarrow> write_file outputPath (xml_header @ data) w)"

section \<open>sippy_signals.go\<close>

datatype node_type = NodeTypeBeforeSuite | NodeTypeIt | NodeTypeOther
datatype spec_state = SpecStateSkipped | SpecStatePending | SpecStateOther

record SpecReport =
  sr_LeafNodeType :: node_type
  sr_State :: spec_state
  sr_Failed :: bool
  sr_Labels :: "string list"
  sr_FullText :: string
  sr_FailureMessage :: string

text \<open>The two blocks of the loop body for a spec that was executed.\<close>

definition note_upgrade :: "SpecReport \<Rightarrow> SignalResult \<Rightarrow> bool \<Rightarrow> SignalResult \<times> bool" where
  "note_upgrade spec result upgradeAnyFailed =
     (if ''Area:Upgrade'' \<in> set (sr_Labels spec)
      then (let r = result\<lparr>UpgradeRan := True\<rparr> in
            if sr_Failed spec
            then (if UpgradeFailureMsg r = []
                  then r\<lparr>UpgradeFailureMsg := sr_FullText spec @ '': '' @ sr_FailureMessage spec\<rparr> else r, True)
            else (r, upgradeAnyFailed))
      else (result, upgradeAnyFailed))"

definition note_infra :: "SpecReport \<Rightarrow> SignalResult \<Rightarrow> bool \<Rightarrow> SignalResult \<times> bool" where
  "note_infra spec result infraSpecsRan =
     (if ''Area:ManagedService'' \<in> set (sr_Labels spec) \<or> ''Area:ClusterLifecycle'' \<in> set (sr_Labels spec)
      then (if sr_Failed spec
            then (let r = result\<lparr>InfrastructurePassed := False\<rparr> in
                  if InfraFailureMsg r = []
                  then r\<lparr>InfraFailureMsg := sr_FullText spec @ '': '' @ sr_FailureMessage spec\<rparr> else r)
            else result, True)
      else (result, infraSpecsRan))"

text \<open>The loop, with the result so far and the flags infraSpecsRan and upgradeAnyFailed; the flag of the
  outcome tells whether the loop returned early.\<close>

fun analyze_specs :: "SpecReport list \<Rightarrow> SignalResult \<Rightarrow> bool \<Rightarrow> bool \<Rightarrow> bool \<times> SignalResult \<times> bool \<times> bool" where
  "analyze_specs [] result infraSpecsRan upgradeAnyFailed = (False, result, infraSpecsRan, upgradeAnyFailed)"
| "analyze_specs (spec # specs) result infraSpecsRan upgradeAnyFailed =
     (if sr_LeafNodeType spec = NodeTypeBeforeSuite \<and> sr_Failed spec
      then (True, result\<lparr>InstallPassed := False, InfrastructurePassed := False,
              InstallFailureMsg := ''BeforeSuite failed: '' @ sr_FailureMessage spec,
              InfraFailureMsg := ''cluster unreachable (BeforeSuite failed)''\<rparr>, infraSpecsRan, upgradeAnyFailed)
      else if sr_LeafNodeType spec \<noteq> NodeTypeIt then analyze_specs specs result infraSpecsRan upgradeAnyFailed
      else if sr_State spec = SpecStateSkipped \<or> sr_State spec = SpecStatePending
      then analyze_specs specs result infraSpecsRan upgradeAnyFailed
      else (case note_upgrade spec result upgradeAnyFailed of
        (result1, upgradeAnyFailed1) \<Rightarrow> (case note_infra spec result1 infraSpecsRan of
          (result2, infraSpecsRan1) \<Rightarrow> analyze_specs specs result2 infraSpecsRan1 upgradeAnyFailed1)))"

definition initial_signals :: SignalResult where
  "initial_signals = \<lparr>InstallPassed = True, InfrastructurePassed = True, UpgradeRan = False, UpgradePassed = False,
     InstallFailureMsg = [], InfraFailureMsg = [], UpgradeFailureMsg = []\<rparr>"

definition analyzeSuiteReport :: "SpecReport list \<Rightarrow> SignalResult" where
  "analyzeSuiteReport specs =
     (case analyze_specs specs initial_signals False False of
        (returned, result, infraSpecsRan, upgradeAnyFailed) \<Rightarrow>
          if returned then result
          else
            (let result1 = (if UpgradeRan result then result\<lparr>UpgradePassed := \<not> upgradeAnyFailed\<rparr> else result) in
             if \<not> infraSpecsRan then result1\<lparr>InfrastructurePassed := True\<rparr> else result1))"

definition generate_sippy_signals ::
  "(junitTestSuites \<Rightarrow> go_error + string) \<Rightarrow> (string \<Rightarrow> string \<Rightarrow> 'w \<Rightarrow> go_error option \<times> 'w)
   \<Rightarrow> (string \<Rightarrow> string) \<Rightarrow> SpecReport list \<Rightarrow> 'w \<times> string list \<Rightarrow> 'w \<times> string list" where
  "generate_sippy_signals marshal write_file getenv report st =
     (let outputDir = (if getenv ''ARTIFACT_DIR'' = [] then ''/tmp'' else getenv ''ARTIFACT_DIR'');
          outputPath = path_join outputDir ''junit-rosa-e2e-sippy.xml'';
          result = analyzeSuiteReport report; (w, log) = st
      in case WriteSippyJUnit marshal write_file result outputPath w of
           (Some err, w') \<Rightarrow> (w', log @ [fmt_Sprintf (''WARNING: failed to write Sippy signals: %v'' @ nl) [FErr err]])
         | (None, w') \<Rightarrow> (w', log @ [fmt_Sprintf (''Sippy signals written to %s'' @ nl) [FStr outputPath]]))"

section \<open>The counts of the JUnit file\<close>

definition failed_cases :: "junitTestCase list \<Rightarrow> nat" where
  "failed_cases cs = length (filter (\<lambda>c. jc_Failure c \<noteq> None) cs)"

text \<open>
  The JUnit file that WriteSippyJUnit encodes is consistent: one suite, whose counts of tests
  and failures are those of its cases and are repeated at the top; the install and infrastructure
  cases are always there, the upgrade case exactly when an upgrade ran; a case has a failure
  element, with the signal's message, exactly when its signal did not pass, and says failed.
\<close>

theorem sippy_junit_consistent:
  "\<exists>suite. jss_Suites (sippy_suites result) = [suite]
     \<and> jss_Tests (sippy_suites result) = length (js_Cases suite) \<and> js_Tests suite = length (js_Cases suite)
     \<and> jss_Failures (sippy_suites result) = failed_cases (js_Cases suite) \<and> js_Failures suite = failed_cases (js_Cases suite)
     \<and> map jc_Name (js_Cases suite) =
         [InstallTestName, InfrastructureTestName] @ (if UpgradeRan result then [UpgradeTestName] else [])
     \<and> map (\<lambda>c. map_option jf_Message (jc_Failure c)) (js_Cases suite) =
         [if InstallPassed result then None else Some (InstallFailureMsg result),
          if InfrastructurePassed result then None else Some (InfraFailureMsg result)]
         @ (if UpgradeRan result then [if UpgradePassed result then None else Some (UpgradeFailureMsg result)] else [])
     \<and> list_all (\<lambda>c. jc_Status c = (if jc_Failure c = None then ''passed'' else ''failed'')) (js_Cases suite)"
  by (cases "InstallPassed result"; cases "InfrastructurePassed result"; cases "UpgradeRan result"; cases "UpgradePassed result")
     (simp_all add: sippy_suites_def makeTestCase_def failed_cases_def)

section \<open>What the analysis decides\<close>

definition executed :: "SpecReport \<Rightarrow> bool" where
  "executed spec \<longleftrightarrow> sr_LeafNodeType spec = NodeTypeIt \<and> sr_State spec \<noteq> SpecStateSkipped \<and> sr_State spec \<noteq> SpecStatePending"

definition upgrade_spec :: "SpecReport \<Rightarrow> bool" where
  "upgrade_spec spec \<longleftrightarrow> executed spec \<and> ''Area:Upgrade'' \<in> set (sr_Labels spec)"

definition infra_spec :: "SpecReport \<Rightarrow> bool" where
  "infra_spec spec \<longleftrightarrow> executed spec
     \<and> (''Area:ManagedService'' \<in> set (sr_Labels spec) \<or> ''Area:ClusterLifecycle'' \<in> set (sr_Labels spec))"

definition suite_broken :: "SpecReport \<Rightarrow> bool" where
  "suite_broken spec \<longleftrightarrow> sr_LeafNodeType spec = NodeTypeBeforeSuite \<and> sr_Failed spec"

definition failure_text :: "SpecReport \<Rightarrow> string" where
  "failure_text spec = sr_FullText spec @ '': '' @ sr_FailureMessage spec"

definition first_failure :: "(SpecReport \<Rightarrow> bool) \<Rightarrow> SpecReport list \<Rightarrow> string" where
  "first_failure P specs = (case find (\<lambda>s. P s \<and> sr_Failed s) specs of None \<Rightarrow> [] | Some s \<Rightarrow> failure_text s)"

lemma failure_text_nonempty [simp]: "failure_text s \<noteq> []"
  by (simp add: failure_text_def)

lemma first_failure_simps [simp]:
  "first_failure P [] = []"
  "first_failure P (s # ss) = (if P s \<and> sr_Failed s then failure_text s else first_failure P ss)"
  by (simp_all add: first_failure_def)

definition signals_after :: "SpecReport list \<Rightarrow> SignalResult \<Rightarrow> SignalResult" where
  "signals_after specs r =
     r\<lparr>InfrastructurePassed := InfrastructurePassed r \<and> \<not> list_ex (\<lambda>s. infra_spec s \<and> sr_Failed s) specs,
       UpgradeRan := UpgradeRan r \<or> list_ex upgrade_spec specs,
       InfraFailureMsg := (if InfraFailureMsg r = [] then first_failure infra_spec specs else InfraFailureMsg r),
       UpgradeFailureMsg := (if UpgradeFailureMsg r = [] then first_failure upgrade_spec specs else UpgradeFailureMsg r)\<rparr>"

lemma signals_after_Cons:
  "signals_after (s # ss) r = signals_after ss (signals_after [s] r)"
  by (cases r) (auto simp: signals_after_def)

lemma executed_step:
  assumes "executed s"
  shows "note_upgrade s r u = (r1, u') \<Longrightarrow> note_infra s r1 i = (r2, i') \<Longrightarrow>
    r2 = signals_after [s] r \<and> u' = (u \<or> (upgrade_spec s \<and> sr_Failed s)) \<and> i' = (i \<or> infra_spec s)"
  using assms by (cases r) (auto simp: note_upgrade_def note_infra_def signals_after_def upgrade_spec_def infra_spec_def
      failure_text_def Let_def split: if_splits)

lemma analyze_specs_unbroken:
  assumes "list_all (\<lambda>s. \<not> suite_broken s) specs"
  shows "analyze_specs specs r i u =
    (False, signals_after specs r, i \<or> list_ex infra_spec specs, u \<or> list_ex (\<lambda>s. upgrade_spec s \<and> sr_Failed s) specs)"
  using assms
proof (induction specs arbitrary: r i u)
  case Nil
  then show ?case by (cases r) (simp add: signals_after_def)
next
  case (Cons spec specs)
  show ?case
  proof (cases "executed spec")
    case False
    then have "analyze_specs (spec # specs) r i u = analyze_specs specs r i u"
      using Cons(2) by (auto simp: executed_def suite_broken_def)
    moreover have "signals_after [spec] r = r" "\<not> infra_spec spec" "\<not> upgrade_spec spec"
      using False by (cases r; simp add: infra_spec_def upgrade_spec_def signals_after_def)+
    ultimately show ?thesis using Cons by (simp add: signals_after_Cons [of spec specs])
  next
    case True
    obtain r1 u' where 1: "note_upgrade spec r u = (r1, u')" by (metis surj_pair)
    obtain r2 i' where 2: "note_infra spec r1 i = (r2, i')" by (metis surj_pair)
    have "analyze_specs (spec # specs) r i u = analyze_specs specs r2 i' u'"
      using True 1 2 by (simp add: executed_def)
    with executed_step [OF True 1 2] Cons show ?thesis
      by (simp add: signals_after_Cons [of spec specs])
  qed
qed

text \<open>
  C30. The signals of a suite whose setup did not fail: install passed; infrastructure passed exactly
  when no executed spec of the areas ManagedService and ClusterLifecycle failed; an upgrade ran
  exactly when a spec of the area Upgrade was executed, and it passed exactly when one ran and none
  of them failed. The failure messages are those of the first spec that failed. Skipped and
  pending specs and the order of the others do not change a verdict.
\<close>

theorem sippy_signals_unbroken:
  assumes "list_all (\<lambda>s. \<not> suite_broken s) specs"
  shows "InstallPassed (analyzeSuiteReport specs)
    \<and> (InfrastructurePassed (analyzeSuiteReport specs) \<longleftrightarrow> \<not> list_ex (\<lambda>s. infra_spec s \<and> sr_Failed s) specs)
    \<and> (UpgradeRan (analyzeSuiteReport specs) \<longleftrightarrow> list_ex upgrade_spec specs)
    \<and> (UpgradePassed (analyzeSuiteReport specs) \<longleftrightarrow>
         list_ex upgrade_spec specs \<and> \<not> list_ex (\<lambda>s. upgrade_spec s \<and> sr_Failed s) specs)
    \<and> InfraFailureMsg (analyzeSuiteReport specs) = first_failure infra_spec specs
    \<and> UpgradeFailureMsg (analyzeSuiteReport specs) = first_failure upgrade_spec specs"
proof -
  have none: "\<not> list_ex infra_spec specs \<Longrightarrow> \<not> list_ex (\<lambda>s. infra_spec s \<and> sr_Failed s) specs"
    by (auto simp: list_ex_iff)
  show ?thesis
    unfolding analyzeSuiteReport_def analyze_specs_unbroken [OF assms]
    using none by (auto simp: signals_after_def initial_signals_def Let_def)
qed

text \<open>
  When the setup of the suite failed and no spec before it did anything, install and infrastructure
  are both reported as failed with the setup's message, whatever the later specs say, and no
  upgrade is reported.
\<close>

theorem sippy_signals_broken_setup:
  assumes "list_all (\<lambda>s. \<not> executed s \<and> \<not> suite_broken s) before" and "suite_broken spec"
  shows "analyzeSuiteReport (before @ spec # after) =
    initial_signals\<lparr>InstallPassed := False, InfrastructurePassed := False,
      InstallFailureMsg := ''BeforeSuite failed: '' @ sr_FailureMessage spec,
      InfraFailureMsg := ''cluster unreachable (BeforeSuite failed)''\<rparr>"
proof -
  have "analyze_specs (before @ spec # after) r i u = analyze_specs (spec # after) r i u" for r i u
    using assms(1) by (induction before) (auto simp: executed_def suite_broken_def)
  with assms(2) show ?thesis by (simp add: analyzeSuiteReport_def suite_broken_def)
qed

section \<open>Concrete reports\<close>

definition sample_spec :: "node_type \<Rightarrow> bool \<Rightarrow> string list \<Rightarrow> SpecReport" where
  "sample_spec t failed labels = \<lparr>sr_LeafNodeType = t, sr_State = SpecStateOther, sr_Failed = failed,
     sr_Labels = labels, sr_FullText = ''spec'', sr_FailureMessage = ''boom''\<rparr>"

theorem sippy_signals_unbroken_witness:
  "\<not> InfrastructurePassed (analyzeSuiteReport [sample_spec NodeTypeIt True [''Area:ManagedService'']])
   \<and> \<not> UpgradeRan (analyzeSuiteReport [sample_spec NodeTypeIt True [''Area:ManagedService'']])"
  using sippy_signals_unbroken [of "[sample_spec NodeTypeIt True [''Area:ManagedService'']]"]
  by (simp add: suite_broken_def sample_spec_def infra_spec_def upgrade_spec_def executed_def)

theorem sippy_signals_broken_setup_witness:
  "InstallFailureMsg (analyzeSuiteReport ([] @ sample_spec NodeTypeBeforeSuite True [] # [])) = ''BeforeSuite failed: boom''"
  using sippy_signals_broken_setup [of "[]" "sample_spec NodeTypeBeforeSuite True []" "[]"]
  by (simp add: suite_broken_def sample_spec_def)

end
