(* ===== verification/Config.thy ===== *)
theory Config
  imports Go_Prelude
begin

text \<open>
  pkg/config/config.go: the configuration of the suite, read from an optional YAML file and
  from environment variables. The environment is a function from names to values, where the
  empty string is the value of an unset variable, as os.Getenv returns it; reading the file and the
  YAML decoder are parameters. Decoding starts from the configuration built so far, as
  yaml.Unmarshal does.
\<close>

section \<open>The configuration\<close>

record Config =
  OCMEnv :: string
  OCMToken :: string
  OCMClientID :: string
  OCMClientSecret :: string
  OCMTokenURL :: string
  ClusterTopology :: string
  ClusterID :: string
  AWSRegion :: string
  AWSAccountID :: string
  SubnetIDs :: "string list"
  OIDCConfigID :: string
  AccountRolePrefix :: string
  OperatorRolePrefix :: string
  BillingAccountID :: string
  CreatorARN :: string
  GCPProjectID :: string
  GCPRegion :: string
  ClusterNamePrefix :: string
  ComputeMachineType :: string
  ComputeNodes :: int
  ChannelGroup :: string
  OpenShiftVersion :: string
  ManagementClusterID :: string
  ServiceClusterID :: string
  SectorName :: string
  ProvisionShardID :: string
  UpgradeTargetVersion :: string
  ExcludeClusterOperators :: "string list"
  RHOBSProbeAPIURL :: string
  RHOBSMetricsAPIURL :: string
  RHOBSOIDCClientID :: string
  RHOBSOIDCClientSecret :: string
  RHOBSOIDCIssuerURL :: string

text \<open>The fields that are tagged to be left out of YAML: the decoder does not touch them.\<close>

definition secrets :: "Config \<Rightarrow> string list" where
  "secrets c = [OCMToken c, OCMClientID c, OCMClientSecret c, RHOBSOIDCClientSecret c]"

definition default_config :: Config where
  "default_config = \<lparr>OCMEnv = ''staging'', OCMToken = [], OCMClientID = [], OCMClientSecret = [],
     OCMTokenURL = ''https://sso.redhat.com/auth/realms/redhat-external/protocol/openid-connect/token'',
     ClusterTopology = [], ClusterID = [], AWSRegion = ''us-east-2'', AWSAccountID = [], SubnetIDs = [],
     OIDCConfigID = [], AccountRolePrefix = [], OperatorRolePrefix = [], BillingAccountID = [], CreatorARN = [],
     GCPProjectID = [], GCPRegion = [], ClusterNamePrefix = ''rosa-e2e'', ComputeMachineType = ''m5.xlarge'',
     ComputeNodes = 2, ChannelGroup = ''stable'', OpenShiftVersion = [], ManagementClusterID = [],
     ServiceClusterID = [], SectorName = [], ProvisionShardID = [], UpgradeTargetVersion = [],
     ExcludeClusterOperators = [], RHOBSProbeAPIURL = [], RHOBSMetricsAPIURL = [], RHOBSOIDCClientID = [],
     RHOBSOIDCClientSecret = [], RHOBSOIDCIssuerURL = []\<rparr>"

definition OCMBaseURL :: "(string \<Rightarrow> string) \<Rightarrow> Config \<Rightarrow> string" where
  "OCMBaseURL ge c =
     (if ge ''OCM_BASE_URL'' \<noteq> [] then ge ''OCM_BASE_URL''
      else if OCMEnv c = ''production'' \<or> OCMEnv c = ''prod'' then ''https://api.openshift.com''
      else if OCMEnv c = ''staging'' \<or> OCMEnv c = ''stage'' then ''https://api.stage.openshift.com''
      else ''https://api.integration.openshift.com'')"

section \<open>Load\<close>

text \<open>One block of the form: if the variable is not empty, set the field from it.\<close>

definition override :: "(string \<Rightarrow> string) \<Rightarrow> string \<Rightarrow> (string \<Rightarrow> Config \<Rightarrow> Config) \<Rightarrow> Config \<Rightarrow> Config" where
  "override ge name upd c = (if ge name \<noteq> [] then upd (ge name) c else c)"

text \<open>The overrides before and after COMPUTE_NODES, which can fail, in the order of the source.\<close>

definition overrides_before :: "(string \<Rightarrow> string) \<Rightarrow> Config \<Rightarrow> Config" where
  "overrides_before ge = fold (\<lambda>f. f) [
    override ge ''OCM_ENV'' (\<lambda>v c. c\<lparr>OCMEnv := v\<rparr>),
    override ge ''OCM_TOKEN'' (\<lambda>v c. c\<lparr>OCMToken := v\<rparr>),
    override ge ''OCM_TOKEN_URL'' (\<lambda>v c. c\<lparr>OCMTokenURL := v\<rparr>),
    override ge ''OCM_CLIENT_ID'' (\<lambda>v c. c\<lparr>OCMClientID := v\<rparr>),
    override ge ''OCM_CLIENT_SECRET'' (\<lambda>v c. c\<lparr>OCMClientSecret := v\<rparr>),
    override ge ''CLUSTER_TOPOLOGY'' (\<lambda>v c. c\<lparr>ClusterTopology := to_lower (trim_space v)\<rparr>),
    override ge ''CLUSTER_ID'' (\<lambda>v c. c\<lparr>ClusterID := v\<rparr>),
    override ge ''AWS_REGION'' (\<lambda>v c. c\<lparr>AWSRegion := v\<rparr>),
    override ge ''AWS_ACCOUNT_ID'' (\<lambda>v c. c\<lparr>AWSAccountID := v\<rparr>),
    override ge ''SUBNET_IDS'' (\<lambda>v c. c\<lparr>SubnetIDs := split_on (CHR '','') v\<rparr>),
    override ge ''OIDC_CONFIG_ID'' (\<lambda>v c. c\<lparr>OIDCConfigID := v\<rparr>),
    override ge ''ACCOUNT_ROLE_PREFIX'' (\<lambda>v c. c\<lparr>AccountRolePrefix := v\<rparr>),
    override ge ''OPERATOR_ROLE_PREFIX'' (\<lambda>v c. c\<lparr>OperatorRolePrefix := v\<rparr>),
    override ge ''BILLING_ACCOUNT_ID'' (\<lambda>v c. c\<lparr>BillingAccountID := v\<rparr>),
    override ge ''CREATOR_ARN'' (\<lambda>v c. c\<lparr>CreatorARN := v\<rparr>),
    override ge ''GCP_PROJECT_ID'' (\<lambda>v c. c\<lparr>GCPProjectID := v\<rparr>),
    override ge ''GCP_REGION'' (\<lambda>v c. c\<lparr>GCPRegion := v\<rparr>),
    override ge ''CLUSTER_NAME_PREFIX'' (\<lambda>v c. c\<lparr>ClusterNamePrefix := v\<rparr>),
    override ge ''COMPUTE_MACHINE_TYPE'' (\<lambda>v c. c\<lparr>ComputeMachineType := v\<rparr>)]"

definition compute_nodes_override :: "(string \<Rightarrow> string) \<Rightarrow> Config \<Rightarrow> go_error + Config" where
  "compute_nodes_override ge c =
     (let v = ge ''COMPUTE_NODES'' in
      if v \<noteq> [] then
        (case strconv_Atoi v of
           Inl err \<Rightarrow> Inl (Errorf ''invalid COMPUTE_NODES value %q: %w'' [FStr v, FErr err])
         | Inr n \<Rightarrow> Inr (c\<lparr>ComputeNodes := n\<rparr>))
      else Inr c)"

definition overrides_after :: "(string \<Rightarrow> string) \<Rightarrow> Config \<Rightarrow> Config" where
  "overrides_after ge = fold (\<lambda>f. f) [
    override ge ''CHANNEL_GROUP'' (\<lambda>v c. c\<lparr>ChannelGroup := v\<rparr>),
    override ge ''OPENSHIFT_VERSION'' (\<lambda>v c. c\<lparr>OpenShiftVersion := v\<rparr>),
    override ge ''MANAGEMENT_CLUSTER_ID'' (\<lambda>v c. c\<lparr>ManagementClusterID := v\<rparr>),
    override ge ''SERVICE_CLUSTER_ID'' (\<lambda>v c. c\<lparr>ServiceClusterID := v\<rparr>),
    override ge ''PROVISION_SHARD_ID'' (\<lambda>v c. c\<lparr>ProvisionShardID := v\<rparr>),
    override ge ''SECTOR_NAME'' (\<lambda>v c. c\<lparr>SectorName := v\<rparr>),
    override ge ''UPGRADE_TARGET_VERSION'' (\<lambda>v c. c\<lparr>UpgradeTargetVersion := v\<rparr>),
    override ge ''EXCLUDE_CLUSTER_OPERATORS'' (\<lambda>v c. c\<lparr>ExcludeClusterOperators := split_on (CHR '','') v\<rparr>),
    override ge ''RHOBS_PROBE_API_URL'' (\<lambda>v c. c\<lparr>RHOBSProbeAPIURL := v\<rparr>),
    override ge ''RHOBS_METRICS_API_URL'' (\<lambda>v c. c\<lparr>RHOBSMetricsAPIURL := v\<rparr>),
    override ge ''RHOBS_OIDC_CLIENT_ID'' (\<lambda>v c. c\<lparr>RHOBSOIDCClientID := v\<rparr>),
    override ge ''RHOBS_OIDC_CLIENT_SECRET'' (\<lambda>v c. c\<lparr>RHOBSOIDCClientSecret := v\<rparr>),
    override ge ''RHOBS_OIDC_ISSUER_URL'' (\<lambda>v c. c\<lparr>RHOBSOIDCIssuerURL := v\<rparr>)]"

definition derive_metrics_url :: "Config \<Rightarrow> Config" where
  "derive_metrics_url c =
     (if RHOBSMetricsAPIURL c = [] \<and> RHOBSProbeAPIURL c \<noteq> []
      then c\<lparr>RHOBSMetricsAPIURL := trim_suffix (RHOBSProbeAPIURL c) ''/probes''\<rparr> else c)"

definition read_config_file ::
  "(string \<Rightarrow> string) \<Rightarrow> (string \<Rightarrow> go_error + string) \<Rightarrow> (string \<Rightarrow> Config \<Rightarrow> go_error + Config) \<Rightarrow> Config \<Rightarrow> go_error + Config" where
  "read_config_file ge read_file yaml_Unmarshal c =
     (let configPath = ge ''CLUSTER_CONFIG'' in
      if configPath \<noteq> [] then
        (case read_file configPath of
           Inl err \<Rightarrow> Inl (Errorf ''reading config file %s: %w'' [FStr configPath, FErr err])
         | Inr data \<Rightarrow> (case yaml_Unmarshal data c of
             Inl err \<Rightarrow> Inl (Errorf ''parsing config file %s: %w'' [FStr configPath, FErr err])
           | Inr c' \<Rightarrow> Inr c'))
      else Inr c)"

definition credentials_missing :: "Config \<Rightarrow> bool" where
  "credentials_missing c \<longleftrightarrow> OCMToken c = [] \<and> (OCMClientID c = [] \<or> OCMClientSecret c = [])"

definition Load ::
  "(string \<Rightarrow> string) \<Rightarrow> (string \<Rightarrow> go_error + string) \<Rightarrow> (string \<Rightarrow> Config \<Rightarrow> go_error + Config) \<Rightarrow> go_error + Config" where
  "Load ge read_file yaml_Unmarshal =
     (case read_config_file ge read_file yaml_Unmarshal default_config of
        Inl err \<Rightarrow> Inl err
      | Inr c0 \<Rightarrow> (case compute_nodes_override ge (overrides_before ge c0) of
          Inl err \<Rightarrow> Inl err
        | Inr c1 \<Rightarrow>
            (let c = derive_metrics_url (overrides_after ge c1) in
             if credentials_missing c
             then Inl (Errorf ''OCM_TOKEN or OCM_CLIENT_ID and OCM_CLIENT_SECRET environment variables are required'' [])
             else Inr c)))"

section \<open>What Load returns\<close>

text \<open>The string fields that a variable sets as it is, and the variable.\<close>

definition plain_fields :: "(string \<times> (Config \<Rightarrow> string)) list" where
  "plain_fields = [(''OCM_ENV'', OCMEnv), (''OCM_TOKEN'', OCMToken), (''OCM_TOKEN_URL'', OCMTokenURL),
     (''OCM_CLIENT_ID'', OCMClientID), (''OCM_CLIENT_SECRET'', OCMClientSecret), (''CLUSTER_ID'',
     ClusterID), (''AWS_REGION'', AWSRegion), (''AWS_ACCOUNT_ID'', AWSAccountID), (''OIDC_CONFIG_ID'',
     OIDCConfigID), (''ACCOUNT_ROLE_PREFIX'', AccountRolePrefix), (''OPERATOR_ROLE_PREFIX'',
     OperatorRolePrefix), (''BILLING_ACCOUNT_ID'', BillingAccountID), (''CREATOR_ARN'', CreatorARN),
     (''GCP_PROJECT_ID'', GCPProjectID), (''GCP_REGION'', GCPRegion), (''CLUSTER_NAME_PREFIX'',
     ClusterNamePrefix), (''COMPUTE_MACHINE_TYPE'', ComputeMachineType), (''CHANNEL_GROUP'',
     ChannelGroup), (''OPENSHIFT_VERSION'', OpenShiftVersion), (''MANAGEMENT_CLUSTER_ID'',
     ManagementClusterID), (''SERVICE_CLUSTER_ID'', ServiceClusterID), (''PROVISION_SHARD_ID'',
     ProvisionShardID), (''SECTOR_NAME'', SectorName), (''UPGRADE_TARGET_VERSION'',
     UpgradeTargetVersion), (''RHOBS_PROBE_API_URL'', RHOBSProbeAPIURL), (''RHOBS_OIDC_CLIENT_ID'',
     RHOBSOIDCClientID), (''RHOBS_OIDC_CLIENT_SECRET'', RHOBSOIDCClientSecret),
     (''RHOBS_OIDC_ISSUER_URL'', RHOBSOIDCIssuerURL)]"

definition env_or :: "(string \<Rightarrow> string) \<Rightarrow> string \<Rightarrow> (string \<Rightarrow> 'a) \<Rightarrow> 'a \<Rightarrow> 'a" where
  "env_or ge name f dflt = (if ge name = [] then dflt else f (ge name))"

lemma override_fields:
  "override ge n (\<lambda>v c. c\<lparr>OCMEnv := g v\<rparr>) c = c\<lparr>OCMEnv := env_or ge n g (OCMEnv c)\<rparr>"
  "override ge n (\<lambda>v c. c\<lparr>OCMToken := g v\<rparr>) c = c\<lparr>OCMToken := env_or ge n g (OCMToken c)\<rparr>"
  "override ge n (\<lambda>v c. c\<lparr>OCMClientID := g v\<rparr>) c = c\<lparr>OCMClientID := env_or ge n g (OCMClientID c)\<rparr>"
  "override ge n (\<lambda>v c. c\<lparr>OCMClientSecret := g v\<rparr>) c = c\<lparr>OCMClientSecret := env_or ge n g (OCMClientSecret c)\<rparr>"
  "override ge n (\<lambda>v c. c\<lparr>OCMTokenURL := g v\<rparr>) c = c\<lparr>OCMTokenURL := env_or ge n g (OCMTokenURL c)\<rparr>"
  "override ge n (\<lambda>v c. c\<lparr>ClusterTopology := g v\<rparr>) c = c\<lparr>ClusterTopology := env_or ge n g (ClusterTopology c)\<rparr>"
  "override ge n (\<lambda>v c. c\<lparr>ClusterID := g v\<rparr>) c = c\<lparr>ClusterID := env_or ge n g (ClusterID c)\<rparr>"
  "override ge n (\<lambda>v c. c\<lparr>AWSRegion := g v\<rparr>) c = c\<lparr>AWSRegion := env_or ge n g (AWSRegion c)\<rparr>"
  "override ge n (\<lambda>v c. c\<lparr>AWSAccountID := g v\<rparr>) c = c\<lparr>AWSAccountID := env_or ge n g (AWSAccountID c)\<rparr>"
  "override ge n (\<lambda>v c. c\<lparr>SubnetIDs := h v\<rparr>) c = c\<lparr>SubnetIDs := env_or ge n h (SubnetIDs c)\<rparr>"
  "override ge n (\<lambda>v c. c\<lparr>OIDCConfigID := g v\<rparr>) c = c\<lparr>OIDCConfigID := env_or ge n g (OIDCConfigID c)\<rparr>"
  "override ge n (\<lambda>v c. c\<lparr>AccountRolePrefix := g v\<rparr>) c = c\<lparr>AccountRolePrefix := env_or ge n g (AccountRolePrefix c)\<rparr>"
  "override ge n (\<lambda>v c. c\<lparr>OperatorRolePrefix := g v\<rparr>) c = c\<lparr>OperatorRolePrefix := env_or ge n g (OperatorRolePrefix c)\<rparr>"
  "override ge n (\<lambda>v c. c\<lparr>BillingAccountID := g v\<rparr>) c = c\<lparr>BillingAccountID := env_or ge n g (BillingAccountID c)\<rparr>"
  "override ge n (\<lambda>v c. c\<lparr>CreatorARN := g v\<rparr>) c = c\<lparr>CreatorARN := env_or ge n g (CreatorARN c)\<rparr>"
  "override ge n (\<lambda>v c. c\<lparr>GCPProjectID := g v\<rparr>) c = c\<lparr>GCPProjectID := env_or ge n g (GCPProjectID c)\<rparr>"
  "override ge n (\<lambda>v c. c\<lparr>GCPRegion := g v\<rparr>) c = c\<lparr>GCPRegion := env_or ge n g (GCPRegion c)\<rparr>"
  "override ge n (\<lambda>v c. c\<lparr>ClusterNamePrefix := g v\<rparr>) c = c\<lparr>ClusterNamePrefix := env_or ge n g (ClusterNamePrefix c)\<rparr>"
  "override ge n (\<lambda>v c. c\<lparr>ComputeMachineType := g v\<rparr>) c = c\<lparr>ComputeMachineType := env_or ge n g (ComputeMachineType c)\<rparr>"
  "override ge n (\<lambda>v c. c\<lparr>ChannelGroup := g v\<rparr>) c = c\<lparr>ChannelGroup := env_or ge n g (ChannelGroup c)\<rparr>"
  "override ge n (\<lambda>v c. c\<lparr>OpenShiftVersion := g v\<rparr>) c = c\<lparr>OpenShiftVersion := env_or ge n g (OpenShiftVersion c)\<rparr>"
  "override ge n (\<lambda>v c. c\<lparr>ManagementClusterID := g v\<rparr>) c = c\<lparr>ManagementClusterID := env_or ge n g (ManagementClusterID c)\<rparr>"
  "override ge n (\<lambda>v c. c\<lparr>ServiceClusterID := g v\<rparr>) c = c\<lparr>ServiceClusterID := env_or ge n g (ServiceClusterID c)\<rparr>"
  "override ge n (\<lambda>v c. c\<lparr>SectorName := g v\<rparr>) c = c\<lparr>SectorName := env_or ge n g (SectorName c)\<rparr>"
  "override ge n (\<lambda>v c. c\<lparr>ProvisionShardID := g v\<rparr>) c = c\<lparr>ProvisionShardID := env_or ge n g (ProvisionShardID c)\<rparr>"
  "override ge n (\<lambda>v c. c\<lparr>UpgradeTargetVersion := g v\<rparr>) c = c\<lparr>UpgradeTargetVersion := env_or ge n g (UpgradeTargetVersion c)\<rparr>"
  "override ge n (\<lambda>v c. c\<lparr>ExcludeClusterOperators := h v\<rparr>) c = c\<lparr>ExcludeClusterOperators := env_or ge n h (ExcludeClusterOperators c)\<rparr>"
  "override ge n (\<lambda>v c. c\<lparr>RHOBSProbeAPIURL := g v\<rparr>) c = c\<lparr>RHOBSProbeAPIURL := env_or ge n g (RHOBSProbeAPIURL c)\<rparr>"
  "override ge n (\<lambda>v c. c\<lparr>RHOBSMetricsAPIURL := g v\<rparr>) c = c\<lparr>RHOBSMetricsAPIURL := env_or ge n g (RHOBSMetricsAPIURL c)\<rparr>"
  "override ge n (\<lambda>v c. c\<lparr>RHOBSOIDCClientID := g v\<rparr>) c = c\<lparr>RHOBSOIDCClientID := env_or ge n g (RHOBSOIDCClientID c)\<rparr>"
  "override ge n (\<lambda>v c. c\<lparr>RHOBSOIDCClientSecret := g v\<rparr>) c = c\<lparr>RHOBSOIDCClientSecret := env_or ge n g (RHOBSOIDCClientSecret c)\<rparr>"
  "override ge n (\<lambda>v c. c\<lparr>RHOBSOIDCIssuerURL := g v\<rparr>) c = c\<lparr>RHOBSOIDCIssuerURL := env_or ge n g (RHOBSOIDCIssuerURL c)\<rparr>"
  by (simp_all add: override_def env_or_def)

lemma Load_Inr:
  "Load ge rf yaml = Inr c \<longleftrightarrow>
     (\<exists>c0 c1. read_config_file ge rf yaml default_config = Inr c0
        \<and> compute_nodes_override ge (overrides_before ge c0) = Inr c1
        \<and> c = derive_metrics_url (overrides_after ge c1) \<and> \<not> credentials_missing c)"
  by (auto simp: Load_def Let_def split: sum.splits)

lemma derive_fields:
  "OCMEnv (derive_metrics_url c) = OCMEnv c"
  "OCMToken (derive_metrics_url c) = OCMToken c"
  "OCMClientID (derive_metrics_url c) = OCMClientID c"
  "OCMClientSecret (derive_metrics_url c) = OCMClientSecret c"
  "OCMTokenURL (derive_metrics_url c) = OCMTokenURL c"
  "ClusterTopology (derive_metrics_url c) = ClusterTopology c"
  "ClusterID (derive_metrics_url c) = ClusterID c"
  "AWSRegion (derive_metrics_url c) = AWSRegion c"
  "AWSAccountID (derive_metrics_url c) = AWSAccountID c"
  "SubnetIDs (derive_metrics_url c) = SubnetIDs c"
  "OIDCConfigID (derive_metrics_url c) = OIDCConfigID c"
  "AccountRolePrefix (derive_metrics_url c) = AccountRolePrefix c"
  "OperatorRolePrefix (derive_metrics_url c) = OperatorRolePrefix c"
  "BillingAccountID (derive_metrics_url c) = BillingAccountID c"
  "CreatorARN (derive_metrics_url c) = CreatorARN c"
  "GCPProjectID (derive_metrics_url c) = GCPProjectID c"
  "GCPRegion (derive_metrics_url c) = GCPRegion c"
  "ClusterNamePrefix (derive_metrics_url c) = ClusterNamePrefix c"
  "ComputeMachineType (derive_metrics_url c) = ComputeMachineType c"
  "ComputeNodes (derive_metrics_url c) = ComputeNodes c"
  "ChannelGroup (derive_metrics_url c) = ChannelGroup c"
  "OpenShiftVersion (derive_metrics_url c) = OpenShiftVersion c"
  "ManagementClusterID (derive_metrics_url c) = ManagementClusterID c"
  "ServiceClusterID (derive_metrics_url c) = ServiceClusterID c"
  "SectorName (derive_metrics_url c) = SectorName c"
  "ProvisionShardID (derive_metrics_url c) = ProvisionShardID c"
  "UpgradeTargetVersion (derive_metrics_url c) = UpgradeTargetVersion c"
  "ExcludeClusterOperators (derive_metrics_url c) = ExcludeClusterOperators c"
  "RHOBSProbeAPIURL (derive_metrics_url c) = RHOBSProbeAPIURL c"
  "RHOBSOIDCClientID (derive_metrics_url c) = RHOBSOIDCClientID c"
  "RHOBSOIDCClientSecret (derive_metrics_url c) = RHOBSOIDCClientSecret c"
  "RHOBSOIDCIssuerURL (derive_metrics_url c) = RHOBSOIDCIssuerURL c"
  "RHOBSMetricsAPIURL (derive_metrics_url c) =
     (if RHOBSMetricsAPIURL c = [] \<and> RHOBSProbeAPIURL c \<noteq> [] then trim_suffix (RHOBSProbeAPIURL c) ''/probes''
      else RHOBSMetricsAPIURL c)"
  by (simp_all add: derive_metrics_url_def)

lemma compute_nodes_Inr:
  "compute_nodes_override ge c = Inr c1 \<longleftrightarrow>
     (\<exists>n. c1 = c\<lparr>ComputeNodes := n\<rparr> \<and> (if ge ''COMPUTE_NODES'' = [] then n = ComputeNodes c else strconv_Atoi (ge ''COMPUTE_NODES'') = Inr n))"
  by (cases c) (auto simp: compute_nodes_override_def Let_def split: sum.splits)

lemma plain_before_after:
  "list_all (\<lambda>(name, get). get (derive_metrics_url (overrides_after ge (overrides_before ge c0\<lparr>ComputeNodes := n\<rparr>)))
     = env_or ge name (\<lambda>v. v) (get c0)) plain_fields"
  by (simp add: plain_fields_def derive_fields overrides_after_def overrides_before_def override_fields)

lemma other_fields:
  fixes c0 n ge
  defines "c \<equiv> derive_metrics_url (overrides_after ge (overrides_before ge c0\<lparr>ComputeNodes := n\<rparr>))"
  shows "ComputeNodes c = n"
    and "ClusterTopology c = env_or ge ''CLUSTER_TOPOLOGY'' (\<lambda>v. to_lower (trim_space v)) (ClusterTopology c0)"
    and "SubnetIDs c = env_or ge ''SUBNET_IDS'' (split_on (CHR '','')) (SubnetIDs c0)"
    and "ExcludeClusterOperators c = env_or ge ''EXCLUDE_CLUSTER_OPERATORS'' (split_on (CHR '','')) (ExcludeClusterOperators c0)"
    and "ComputeNodes (overrides_before ge c0) = ComputeNodes c0"
    and "RHOBSMetricsAPIURL c =
      (let m = env_or ge ''RHOBS_METRICS_API_URL'' (\<lambda>v. v) (RHOBSMetricsAPIURL c0);
           p = env_or ge ''RHOBS_PROBE_API_URL'' (\<lambda>v. v) (RHOBSProbeAPIURL c0)
       in if m = [] \<and> p \<noteq> [] then trim_suffix p ''/probes'' else m)"
  unfolding c_def
  by (simp_all add: derive_fields overrides_after_def overrides_before_def
      override_fields Let_def)

lemma default_settings:
  "filter (\<lambda>(name, v). v \<noteq> []) (map (\<lambda>(name, get). (name, get default_config)) plain_fields) =
     [(''OCM_ENV'', ''staging''),
      (''OCM_TOKEN_URL'', ''https://sso.redhat.com/auth/realms/redhat-external/protocol/openid-connect/token''),
      (''AWS_REGION'', ''us-east-2''), (''CLUSTER_NAME_PREFIX'', ''rosa-e2e''), (''COMPUTE_MACHINE_TYPE'', ''m5.xlarge''),
      (''CHANNEL_GROUP'', ''stable'')]"
  "ComputeNodes default_config = 2" "ClusterTopology default_config = []" "RHOBSMetricsAPIURL default_config = []"
  by (simp_all add: plain_fields_def default_config_def)

text \<open>
  C25. A configuration that Load returns starts from defaults, over which a YAML file is decoded when CLUSTER_CONFIG names
  one. Six strings and the node count have a default, every other string starts empty. Each string setting but the
  topology and the RHOBS metrics URL is its environment variable when that is set and otherwise the value after the file.
  From its variable the topology is taken trimmed and in lower case, the two lists are split at commas, and the node count
  is the parsed number. The RHOBS metrics URL, when neither source sets it, is the probe URL of the result without the
  suffix \<open>/probes\<close>.
\<close>

theorem load_environment_precedence:
  assumes "Load ge rf yaml = Inr c"
  shows "\<exists>c0. read_config_file ge rf yaml default_config = Inr c0
    \<and> list_all (\<lambda>(name, get). get c = env_or ge name (\<lambda>v. v) (get c0)) plain_fields
    \<and> ClusterTopology c = env_or ge ''CLUSTER_TOPOLOGY'' (\<lambda>v. to_lower (trim_space v)) (ClusterTopology c0)
    \<and> SubnetIDs c = env_or ge ''SUBNET_IDS'' (split_on (CHR '','')) (SubnetIDs c0)
    \<and> ExcludeClusterOperators c = env_or ge ''EXCLUDE_CLUSTER_OPERATORS'' (split_on (CHR '','')) (ExcludeClusterOperators c0)
    \<and> Inr (ComputeNodes c) = env_or ge ''COMPUTE_NODES'' strconv_Atoi (Inr (ComputeNodes c0))
    \<and> RHOBSMetricsAPIURL c =
        (let m = env_or ge ''RHOBS_METRICS_API_URL'' (\<lambda>v. v) (RHOBSMetricsAPIURL c0);
             p = env_or ge ''RHOBS_PROBE_API_URL'' (\<lambda>v. v) (RHOBSProbeAPIURL c0)
         in if m = [] \<and> p \<noteq> [] then trim_suffix p ''/probes'' else m)
    \<and> (ge ''CLUSTER_CONFIG'' = [] \<longrightarrow> c0 = default_config)
    \<and> filter (\<lambda>(name, v). v \<noteq> []) (map (\<lambda>(name, get). (name, get default_config)) plain_fields) =
        [(''OCM_ENV'', ''staging''),
         (''OCM_TOKEN_URL'', ''https://sso.redhat.com/auth/realms/redhat-external/protocol/openid-connect/token''),
         (''AWS_REGION'', ''us-east-2''), (''CLUSTER_NAME_PREFIX'', ''rosa-e2e''), (''COMPUTE_MACHINE_TYPE'', ''m5.xlarge''),
         (''CHANNEL_GROUP'', ''stable'')]
    \<and> ComputeNodes default_config = 2 \<and> ClusterTopology default_config = [] \<and> RHOBSMetricsAPIURL default_config = []"
proof -
  obtain c0 n where r: "read_config_file ge rf yaml default_config = Inr c0"
    and c: "c = derive_metrics_url (overrides_after ge (overrides_before ge c0\<lparr>ComputeNodes := n\<rparr>))"
    and n: "if ge ''COMPUTE_NODES'' = [] then n = ComputeNodes (overrides_before ge c0) else strconv_Atoi (ge ''COMPUTE_NODES'') = Inr n"
    using assms by (auto simp: Load_Inr compute_nodes_Inr)
  have "Inr (ComputeNodes c) = env_or ge ''COMPUTE_NODES'' strconv_Atoi (Inr (ComputeNodes c0))"
    using n unfolding c other_fields(1,5) env_or_def by (auto split: if_splits)
  moreover have "ge ''CLUSTER_CONFIG'' = [] \<longrightarrow> c0 = default_config" using r by (auto simp: read_config_file_def Let_def)
  moreover note default_settings
  ultimately show ?thesis
    using r plain_before_after [where ge = ge and ?c0.0 = c0 and n = n, folded c]
      other_fields(2-4,6) [where ge = ge and ?c0.0 = c0 and n = n, folded c] by blast
qed

lemma load_outcome_iff:
  "(\<exists>c. Load ge rf yaml = Inr c) \<longleftrightarrow>
     (\<exists>c0. read_config_file ge rf yaml default_config = Inr c0
       \<and> (ge ''COMPUTE_NODES'' = [] \<or> (\<exists>n. strconv_Atoi (ge ''COMPUTE_NODES'') = Inr n))
       \<and> (env_or ge ''OCM_TOKEN'' (\<lambda>v. v) (OCMToken c0) \<noteq> []
          \<or> env_or ge ''OCM_CLIENT_ID'' (\<lambda>v. v) (OCMClientID c0) \<noteq> []
            \<and> env_or ge ''OCM_CLIENT_SECRET'' (\<lambda>v. v) (OCMClientSecret c0) \<noteq> []))"
proof -
  have cred: "credentials_missing (derive_metrics_url (overrides_after ge (overrides_before ge c0\<lparr>ComputeNodes := n\<rparr>))) \<longleftrightarrow>
      env_or ge ''OCM_TOKEN'' (\<lambda>v. v) (OCMToken c0) = [] \<and>
      (env_or ge ''OCM_CLIENT_ID'' (\<lambda>v. v) (OCMClientID c0) = [] \<or> env_or ge ''OCM_CLIENT_SECRET'' (\<lambda>v. v) (OCMClientSecret c0) = [])"
    for c0 n
    using plain_before_after [where ge = ge and ?c0.0 = c0 and n = n] by (simp add: plain_fields_def credentials_missing_def)
  have nodes: "(\<exists>n. (if ge ''COMPUTE_NODES'' = [] then n = k else strconv_Atoi (ge ''COMPUTE_NODES'') = Inr n)) \<longleftrightarrow>
      (ge ''COMPUTE_NODES'' = [] \<or> (\<exists>n. strconv_Atoi (ge ''COMPUTE_NODES'') = Inr n))" for k :: int
    by auto
  let ?cfg = "\<lambda>c0 n. derive_metrics_url (overrides_after ge (overrides_before ge c0\<lparr>ComputeNodes := n\<rparr>))"
  have "(\<exists>c. Load ge rf yaml = Inr c) \<longleftrightarrow> (\<exists>c0. read_config_file ge rf yaml default_config = Inr c0 \<and>
      (\<exists>n. (if ge ''COMPUTE_NODES'' = [] then n = ComputeNodes (overrides_before ge c0)
            else strconv_Atoi (ge ''COMPUTE_NODES'') = Inr n) \<and> \<not> credentials_missing (?cfg c0 n)))"
    unfolding Load_Inr compute_nodes_Inr by blast
  then show ?thesis unfolding cred using nodes by auto
qed

text \<open>
  Load succeeds exactly when the configuration file, if one is named, can be read and decoded, the
  node count, if set, is a number of 64 bits, and there is an OCM token or a pair of client
  credentials.
\<close>

theorem load_succeeds_iff:
  "(\<exists>c. Load ge rf yaml = Inr c) \<longleftrightarrow>
     (\<exists>c0. read_config_file ge rf yaml default_config = Inr c0
       \<and> (ge ''COMPUTE_NODES'' = [] \<or> (\<exists>n. strconv_Atoi (ge ''COMPUTE_NODES'') = Inr n))
       \<and> \<not> (env_or ge ''OCM_TOKEN'' (\<lambda>v. v) (OCMToken c0) = []
            \<and> (env_or ge ''OCM_CLIENT_ID'' (\<lambda>v. v) (OCMClientID c0) = []
               \<or> env_or ge ''OCM_CLIENT_SECRET'' (\<lambda>v. v) (OCMClientSecret c0) = [])))"
  unfolding load_outcome_iff by blast

definition yaml_keeps_secrets :: "(string \<Rightarrow> Config \<Rightarrow> go_error + Config) \<Rightarrow> bool" where
  "yaml_keeps_secrets yaml \<longleftrightarrow> (\<forall>d c c'. yaml d c = Inr c' \<longrightarrow> secrets c' = secrets c)"

lemma read_config_file_secrets:
  assumes "yaml_keeps_secrets yaml" and "read_config_file ge rf yaml c = Inr c0"
  shows "secrets c0 = secrets c"
  using assms by (auto simp: read_config_file_def yaml_keeps_secrets_def Let_def split: if_splits sum.splits)

text \<open>
  Tokens, client secrets and the client id never come from the file: with a decoder that leaves
  the fields tagged as not serialised alone, those of a loaded configuration are the values of
  their environment variables, and they are enough to connect.
\<close>

lemma load_secrets_from_environment:
  assumes "yaml_keeps_secrets yaml" and "Load ge rf yaml = Inr c"
  shows "secrets c = map ge [''OCM_TOKEN'', ''OCM_CLIENT_ID'', ''OCM_CLIENT_SECRET'', ''RHOBS_OIDC_CLIENT_SECRET'']
    \<and> (ge ''OCM_TOKEN'' \<noteq> [] \<or> ge ''OCM_CLIENT_ID'' \<noteq> [] \<and> ge ''OCM_CLIENT_SECRET'' \<noteq> [])"
proof -
  obtain c0 n where r: "read_config_file ge rf yaml default_config = Inr c0"
    and c: "c = derive_metrics_url (overrides_after ge (overrides_before ge c0\<lparr>ComputeNodes := n\<rparr>))"
    and ok: "\<not> credentials_missing c"
    using assms(2) by (auto simp: Load_Inr compute_nodes_Inr)
  have "secrets c0 = [[], [], [], []]"
    using read_config_file_secrets [OF assms(1) r] by (simp add: secrets_def default_config_def)
  moreover have "list_all (\<lambda>(name, get). get c = env_or ge name (\<lambda>v. v) (get c0)) plain_fields"
    unfolding c by (rule plain_before_after)
  ultimately have "secrets c = map ge [''OCM_TOKEN'', ''OCM_CLIENT_ID'', ''OCM_CLIENT_SECRET'', ''RHOBS_OIDC_CLIENT_SECRET'']"
    by (simp add: plain_fields_def secrets_def env_or_def)
  with ok show ?thesis by (auto simp: credentials_missing_def secrets_def)
qed

section \<open>A concrete environment\<close>

definition sample_env :: "string \<Rightarrow> string" where
  "sample_env k = (if k = ''OCM_TOKEN'' then ''t'' else if k = ''COMPUTE_NODES'' then ''3'' else if k = ''CLUSTER_CONFIG'' then ''c'' else [])"

definition sample_yaml :: "string \<Rightarrow> Config \<Rightarrow> go_error + Config" where
  "sample_yaml d c = Inr (c\<lparr>AWSRegion := d\<rparr>)"

lemma sample_load: "\<exists>c. Load sample_env (\<lambda>p. Inr ''eu-west-1'') sample_yaml = Inr c"
  unfolding load_outcome_iff
  by (simp add: read_config_file_def sample_env_def sample_yaml_def env_or_def strconv_Atoi_def parse_int64_def Let_def
      is_digit_def nat_of_digits_def digit_val_def int64_min_def int64_max_def)

theorem load_environment_precedence_witness:
  "\<exists>c. Load sample_env (\<lambda>p. Inr ''eu-west-1'') sample_yaml = Inr c \<and> OCMToken c = ''t'' \<and> AWSRegion c = ''eu-west-1''
     \<and> OCMEnv c = ''staging''"
proof -
  obtain c where l: "Load sample_env (\<lambda>p. Inr ''eu-west-1'') sample_yaml = Inr c" using sample_load by blast
  have r: "read_config_file sample_env (\<lambda>p. Inr ''eu-west-1'') sample_yaml default_config =
      Inr (default_config\<lparr>AWSRegion := ''eu-west-1''\<rparr>)"
    by (simp add: read_config_file_def sample_env_def sample_yaml_def)
  from load_environment_precedence [OF l] have
    "list_all (\<lambda>(name, get). get c = env_or sample_env name (\<lambda>v. v) (get (default_config\<lparr>AWSRegion := ''eu-west-1''\<rparr>))) plain_fields"
    unfolding r by auto
  then have "OCMToken c = ''t'' \<and> AWSRegion c = ''eu-west-1'' \<and> OCMEnv c = ''staging''"
    by (simp add: plain_fields_def env_or_def sample_env_def default_config_def)
  with l show ?thesis by blast
qed

lemma load_secrets_from_environment_witness:
  "\<exists>c. Load sample_env (\<lambda>p. Inr ''eu-west-1'') sample_yaml = Inr c \<and> secrets c = [''t'', [], [], []]"
proof -
  obtain c where l: "Load sample_env (\<lambda>p. Inr ''eu-west-1'') sample_yaml = Inr c" using sample_load by blast
  have "yaml_keeps_secrets sample_yaml" by (auto simp: yaml_keeps_secrets_def sample_yaml_def secrets_def)
  from load_secrets_from_environment [OF this l] l show ?thesis by (auto simp: sample_env_def)
qed

end
