(* ===== verification/Hcp.thy ===== *)
theory Hcp
  imports Kube_Api
begin

text \<open>
  pkg/framework/hcp.go: finding the HostedCluster of a cluster on its management cluster, by name
  or by the suffix of its namespace, and the names of its two namespaces.
\<close>

record HCPNamespaces =
  hn_HCNamespace :: string
  hn_HCPNamespace :: string
  hn_ClusterName :: string

definition framework_hostedClusterGVR :: gvr where
  "framework_hostedClusterGVR = \<lparr>gvr_Group = ''hypershift.openshift.io'', gvr_Version = ''v1beta1'',
     gvr_Resource = ''hostedclusters''\<rparr>"

text \<open>The slice expression of containsID is in range whenever it is evaluated: the guard before it compares the lengths.\<close>

definition containsID :: "string \<Rightarrow> string \<Rightarrow> bool" where
  "containsID namespace clusterID \<longleftrightarrow> 8 < length clusterID \<and> length clusterID < length namespace
     \<and> drop (length namespace - length clusterID) namespace = clusterID"

fun resolve_in :: "'w dynamic_client \<Rightarrow> string \<Rightarrow> string \<Rightarrow> json_object list \<Rightarrow> HCPNamespaces option" where
  "resolve_in dc clusterName clusterID [] = None"
| "resolve_in dc clusterName clusterID (item # items) =
     (let name = GetName dc item; namespace = GetNamespace dc item in
      if name = clusterName \<or> (clusterID \<noteq> [] \<and> containsID namespace clusterID)
      then Some \<lparr>hn_HCNamespace = namespace, hn_HCPNamespace = fmt_Sprintf ''%s-%s'' [FStr namespace, FStr name],
                 hn_ClusterName = name\<rparr>
      else resolve_in dc clusterName clusterID items)"

definition ResolveHCPNamespaces ::
  "'w dynamic_client \<Rightarrow> string \<Rightarrow> string \<Rightarrow> 'w \<Rightarrow> (go_error + HCPNamespaces) \<times> 'w" where
  "ResolveHCPNamespaces dc clusterName clusterID w =
     (case dyn_List dc framework_hostedClusterGVR [] w of
        (Inl err, w') \<Rightarrow> (Inl (Errorf ''listing HostedClusters: %w'' [FErr err]), w')
      | (Inr items, w') \<Rightarrow> (case resolve_in dc clusterName clusterID items of
          Some r \<Rightarrow> (Inr r, w')
        | None \<Rightarrow> (Inl (Errorf ''no HostedCluster found matching name=%q or id=%q'' [FStr clusterName, FStr clusterID]), w')))"

section \<open>What a resolution names\<close>

definition matches :: "'w dynamic_client \<Rightarrow> string \<Rightarrow> string \<Rightarrow> json_object \<Rightarrow> bool" where
  "matches dc clusterName clusterID item \<longleftrightarrow> GetName dc item = clusterName
     \<or> (8 < length clusterID \<and> (\<exists>p. p \<noteq> [] \<and> GetNamespace dc item = p @ clusterID))"

lemma containsID_iff: "containsID ns cid \<longleftrightarrow> 8 < length cid \<and> (\<exists>p. p \<noteq> [] \<and> ns = p @ cid)"
proof
  assume c: "containsID ns cid"
  then have "ns = take (length ns - length cid) ns @ cid"
    unfolding containsID_def by (metis append_take_drop_id)
  with c show "8 < length cid \<and> (\<exists>p. p \<noteq> [] \<and> ns = p @ cid)"
    unfolding containsID_def by (intro conjI exI [of _ "take (length ns - length cid) ns"]) auto
qed (auto simp: containsID_def)

lemma resolve_in_find:
  "resolve_in dc cn cid items = map_option (\<lambda>item. \<lparr>hn_HCNamespace = GetNamespace dc item,
      hn_HCPNamespace = GetNamespace dc item @ ''-'' @ GetName dc item, hn_ClusterName = GetName dc item\<rparr>)
     (find (matches dc cn cid) items)"
proof (induction items)
  case (Cons item items)
  have "(GetName dc item = cn \<or> cid \<noteq> [] \<and> containsID (GetNamespace dc item) cid) \<longleftrightarrow> matches dc cn cid item"
    by (auto simp: matches_def containsID_iff)
  then show ?case using Cons by (simp add: Let_def fmt_Sprintf_def)
qed simp

text \<open>
  C35. ResolveHCPNamespaces answers with the first listed HostedCluster whose name is the cluster
  name, or whose namespace ends in a cluster ID of more than eight characters after at least one
  other character; a shorter ID, a namespace that is the ID, and one that holds it elsewhere do not
  match, although the comment in the source speaks of containing the ID. The HCP namespace is the
  HostedCluster's namespace, a dash and its name. It fails exactly when the listing fails or
  nothing matches.
\<close>

theorem resolve_hcp_namespaces:
  "ResolveHCPNamespaces dc cn cid w =
     (case dyn_List dc framework_hostedClusterGVR [] w of
        (Inl err, w') \<Rightarrow> (Inl (Errorf ''listing HostedClusters: %w'' [FErr err]), w')
      | (Inr items, w') \<Rightarrow>
          (case find (matches dc cn cid) items of
             Some item \<Rightarrow> (Inr \<lparr>hn_HCNamespace = GetNamespace dc item,
               hn_HCPNamespace = GetNamespace dc item @ ''-'' @ GetName dc item, hn_ClusterName = GetName dc item\<rparr>, w')
           | None \<Rightarrow> (Inl (Errorf ''no HostedCluster found matching name=%q or id=%q'' [FStr cn, FStr cid]), w')))"
  by (simp add: ResolveHCPNamespaces_def resolve_in_find split: prod.splits sum.splits option.splits)

end
