(* ===== verification/Polling.thy ===== *)
theory Polling
  imports Go_Prelude
begin

text \<open>
  The polling loops of the sources: \<open>for { ... }\<close> around a body that either returns from the function or goes
  round again. \<open>poll_loop body\<close> runs the body on the state of the run until it returns; a loop that never
  returns has the value \<open>None\<close>. \<open>poll_state body n s\<close> is the state after \<open>n\<close> rounds.

  What the loop returns is what the body returned in its last round (\<open>poll_loop_iff\<close>). The locale \<open>poll_contract\<close> is
  what a body promises: a safety condition on the value it returns with. The locale \<open>bounded_poll\<close> adds a
  measure that every further round lowers, which makes the loop return.
\<close>

partial_function (option) poll_loop :: "('s \<Rightarrow> 'r option \<times> 's) \<Rightarrow> 's \<Rightarrow> ('r \<times> 's) option" where
  "poll_loop body s =
     (case body s of
        (Some r, s') \<Rightarrow> Some (r, s')
      | (None, s') \<Rightarrow> poll_loop body s')"

fun poll_state :: "('s \<Rightarrow> 'r option \<times> 's) \<Rightarrow> nat \<Rightarrow> 's \<Rightarrow> 's" where
  "poll_state body 0 s = s"
| "poll_state body (Suc n) s = poll_state body n (snd (body s))"

definition goes_on :: "('s \<Rightarrow> 'r option \<times> 's) \<Rightarrow> nat \<Rightarrow> 's \<Rightarrow> bool" where
  "goes_on body n s \<longleftrightarrow> (\<forall>i < n. fst (body (poll_state body i s)) = None)"

declare poll_loop.simps [code]

lemma poll_loop_returns: "body s = (Some r, s') \<Longrightarrow> poll_loop body s = Some (r, s')"
  by (subst poll_loop.simps) simp

lemma poll_loop_again: "body s = (None, s') \<Longrightarrow> poll_loop body s = poll_loop body s'"
  by (subst poll_loop.simps) simp

lemma goes_on_0 [simp]: "goes_on body 0 s"
  by (simp add: goes_on_def)

lemma goes_on_Suc: "goes_on body (Suc n) s \<longleftrightarrow> fst (body s) = None \<and> goes_on body n (snd (body s))"
  by (auto simp: goes_on_def less_Suc_eq_0_disj)

lemma poll_loop_rounds:
  assumes "goes_on body n s" and "body (poll_state body n s) = (Some r, s')"
  shows "poll_loop body s = Some (r, s')"
  using assms
proof (induction n arbitrary: s)
  case (Suc n)
  then show ?case using poll_loop_again [of body s "snd (body s)"] by (simp add: goes_on_Suc prod_eq_iff)
qed (simp add: poll_loop_returns)

lemma poll_loop_iff:
  "poll_loop body s = Some (r, s') \<longleftrightarrow> (\<exists>n. goes_on body n s \<and> body (poll_state body n s) = (Some r, s'))"
proof
  assume "poll_loop body s = Some (r, s')"
  then have ret: "poll_loop body s = Some (r, s')" .
  show "\<exists>n. goes_on body n s \<and> body (poll_state body n s) = (Some r, s')"
  proof (rule poll_loop.raw_induct [where
        P = "\<lambda>body s y. case y of (r, s') \<Rightarrow> \<exists>n. goes_on body n s \<and> body (poll_state body n s) = (Some r, s')",
        OF _ ret, unfolded split_conv], goal_cases)
    case (1 loop body s y)
    obtain q s1 where b: "body s = (q, s1)" by (cases "body s")
    show ?case
    proof (cases q)
      case None
      then have "loop body s1 = Some y" using 1(2) b by simp
      then obtain n where "goes_on body n s1" "body (poll_state body n s1) = (Some (fst y), snd y)"
        using 1(1) [of body s1 y] by (cases y) auto
      then show ?thesis using None b by (cases y) (auto simp: goes_on_Suc intro!: exI [of _ "Suc n"])
    next
      case (Some x)
      then show ?thesis using 1(2) b by (auto intro!: exI [of _ 0])
    qed
  qed
next
  assume "\<exists>n. goes_on body n s \<and> body (poll_state body n s) = (Some r, s')"
  then show "poll_loop body s = Some (r, s')" by (elim exE conjE) (rule poll_loop_rounds)
qed

lemma poll_loop_None_iff: "poll_loop body s = None \<longleftrightarrow> (\<forall>n. goes_on body n s)"
proof
  assume none: "poll_loop body s = None"
  have "goes_on body n s" for n
  proof (induction n)
    case (Suc n)
    have "fst (body (poll_state body n s)) = None"
    proof (cases "fst (body (poll_state body n s))")
      case (Some r)
      then have "poll_loop body s = Some (r, snd (body (poll_state body n s)))"
        using poll_loop_rounds [OF Suc] by (simp add: prod_eq_iff)
      with none show ?thesis by simp
    qed
    with Suc show ?case by (simp add: goes_on_def less_Suc_eq)
  qed simp
  then show "\<forall>n. goes_on body n s" ..
next
  assume on: "\<forall>n. goes_on body n s"
  show "poll_loop body s = None"
  proof (cases "poll_loop body s")
    case (Some q)
    then obtain n where "body (poll_state body n s) = (Some (fst q), snd q)" using poll_loop_iff by (metis prod.collapse)
    moreover have "fst (body (poll_state body n s)) = None" using on by (metis goes_on_def lessI)
    ultimately show ?thesis by simp
  qed
qed

lemma poll_loop_leaves:
  assumes "fst (body (poll_state body n s)) \<noteq> None"
  shows "\<exists>r s'. poll_loop body s = Some (r, s')"
proof -
  have "\<not> goes_on body (Suc n) s" using assms by (auto simp: goes_on_def)
  then have "poll_loop body s \<noteq> None" by (auto simp: poll_loop_None_iff)
  then show ?thesis by auto
qed

section \<open>Contracts of a body\<close>

locale poll_contract =
  fixes body :: "'s \<Rightarrow> 'r option \<times> 's" and inv :: "'s \<Rightarrow> bool" and post :: "'s \<Rightarrow> 'r \<Rightarrow> bool"
  assumes keeps: "inv s \<Longrightarrow> body s = (None, s') \<Longrightarrow> inv s'"
    and yields: "inv s \<Longrightarrow> body s = (Some r, s') \<Longrightarrow> post s' r"
begin

lemma inv_rounds: "inv s \<Longrightarrow> goes_on body n s \<Longrightarrow> inv (poll_state body n s)"
  by (induction n arbitrary: s) (simp_all add: goes_on_Suc keeps prod_eq_iff)

lemma result: "inv s \<Longrightarrow> poll_loop body s = Some (r, s') \<Longrightarrow> post s' r"
  unfolding poll_loop_iff using inv_rounds yields by blast

end

locale bounded_poll = poll_contract +
  fixes left :: "'s \<Rightarrow> nat"
  assumes lowers: "inv s \<Longrightarrow> body s = (None, s') \<Longrightarrow> left s' < left s"
begin

lemma returns: "inv s \<Longrightarrow> \<exists>r s'. poll_loop body s = Some (r, s') \<and> post s' r"
proof (induction "left s" arbitrary: s rule: less_induct)
  case less
  obtain r s' where b: "body s = (r, s')" by (cases "body s")
  show ?case
  proof (cases r)
    case None
    then have "inv s'" "left s' < left s" using keeps [OF less.prems] lowers [OF less.prems] b by simp_all
    then have "\<exists>r t. poll_loop body s' = Some (r, t) \<and> post t r" using less.hyps by simp
    then show ?thesis using poll_loop_again [of body s s'] b None by metis
  next
    case (Some x)
    then show ?thesis using b yields [OF less.prems, of x s'] poll_loop_returns [of body s x s'] by simp
  qed
qed

end

text \<open>
  A body that makes one observation of the outside world in each round and decides on it alone: \<open>verdict\<close> is what
  it returns with, or \<open>None\<close> when it goes round again. The loop returns the verdict on the first decisive
  observation, and it returns exactly when there is one.
\<close>

locale observed_poll =
  fixes body :: "'s \<Rightarrow> 'r option \<times> 's" and observe :: "'s \<Rightarrow> 'o" and verdict :: "'o \<Rightarrow> 'r option"
  assumes decides: "fst (body s) = verdict (observe s)"
begin

lemma goes_on_verdicts: "goes_on body n s \<longleftrightarrow> list_all (\<lambda>i. verdict (observe (poll_state body i s)) = None) [0..<n]"
  by (simp add: goes_on_def decides list_all_iff Ball_def)

lemma first_verdict:
  "(\<exists>s'. poll_loop body s = Some (r, s')) \<longleftrightarrow>
     (\<exists>n. list_all (\<lambda>i. verdict (observe (poll_state body i s)) = None) [0..<n]
        \<and> verdict (observe (poll_state body n s)) = Some r)"
proof
  assume "\<exists>s'. poll_loop body s = Some (r, s')"
  then obtain s' n where "goes_on body n s" and b: "body (poll_state body n s) = (Some r, s')"
    unfolding poll_loop_iff by (elim exE conjE)
  moreover have "verdict (observe (poll_state body n s)) = Some r" using b by (simp add: decides [symmetric])
  ultimately show "\<exists>n. list_all (\<lambda>i. verdict (observe (poll_state body i s)) = None) [0..<n]
      \<and> verdict (observe (poll_state body n s)) = Some r"
    unfolding goes_on_verdicts by (intro exI conjI)
next
  assume "\<exists>n. list_all (\<lambda>i. verdict (observe (poll_state body i s)) = None) [0..<n]
      \<and> verdict (observe (poll_state body n s)) = Some r"
  then obtain n where "goes_on body n s" and "fst (body (poll_state body n s)) = Some r"
    unfolding goes_on_verdicts decides by (elim exE conjE)
  then have "poll_loop body s = Some (r, snd (body (poll_state body n s)))"
    by (intro poll_loop_rounds) (simp_all add: prod_eq_iff)
  then show "\<exists>s'. poll_loop body s = Some (r, s')" ..
qed

lemma returns_iff: "poll_loop body s \<noteq> None \<longleftrightarrow> (\<exists>n. verdict (observe (poll_state body n s)) \<noteq> None)"
  unfolding poll_loop_None_iff goes_on_def decides by auto

end

end
