(* ===== verification/Go_Json.thy ===== *)
theory Go_Json
  imports Kube_Api
begin

text \<open>
  What the sources use of encoding/json to decode: json.Unmarshal of a text into a
  \<open>map[string]interface{}\<close> and into structs. \<open>parse_json\<close> is the grammar of the decoder (white space,
  literals, numbers, strings with escapes, arrays, objects); an object is kept as its members with
  the last one first, so that \<open>map_of\<close> and \<open>struct_field\<close> find the member that Go stores last. A number
  keeps its text. Bytes from 0x80 on are copied: the texts are taken to be well-formed UTF-8, as the
  services send them. The limit of 10000 nested values of the decoder is \<open>maxNestingDepth\<close>.

  The recursion runs on fuel; \<open>parse_value_fuel\<close> shows that the length of the text is enough: a larger
  amount gives the same result.
\<close>

section \<open>Tokens\<close>

definition json_space :: "char \<Rightarrow> bool" where
  "json_space c \<longleftrightarrow> c \<in> {CHR 0x09, CHR 0x0A, CHR 0x0D, CHR 0x20}"

definition skip_ws :: "string \<Rightarrow> string" where
  "skip_ws = dropWhile json_space"

definition hex_val :: "char \<Rightarrow> nat option" where
  "hex_val c =
     (let n = of_char c :: nat in
      if 48 \<le> n \<and> n \<le> 57 then Some (n - 48)
      else if 97 \<le> n \<and> n \<le> 102 then Some (n - 87)
      else if 65 \<le> n \<and> n \<le> 70 then Some (n - 55) else None)"

definition hex4 :: "string \<Rightarrow> (nat \<times> string) option" where
  "hex4 s =
     (case s of
        a # b # c # d # r \<Rightarrow> do {
          a \<leftarrow> hex_val a; b \<leftarrow> hex_val b; c \<leftarrow> hex_val c; d \<leftarrow> hex_val d;
          Some (4096 * a + 256 * b + 16 * c + d, r) }
      | _ \<Rightarrow> None)"

definition utf8 :: "nat \<Rightarrow> string" where
  "utf8 n =
     (if n < 128 then [char_of n]
      else if n < 2048 then [char_of (192 + n div 64), char_of (128 + n mod 64)]
      else if n < 65536 then [char_of (224 + n div 4096), char_of (128 + n div 64 mod 64), char_of (128 + n mod 64)]
      else [char_of (240 + n div 262144), char_of (128 + n div 4096 mod 64),
            char_of (128 + n div 64 mod 64), char_of (128 + n mod 64)])"

text \<open>
  The text of a \<open>\u\<close> escape after its first four digits have been read: a pair of surrogates is one
  character, a surrogate without its partner is U+FFFD.
\<close>

definition unicode_escape :: "nat \<Rightarrow> string \<Rightarrow> string \<times> string" where
  "unicode_escape n r =
     (if 55296 \<le> n \<and> n < 57344 then
        (case r of
           c # u # r' \<Rightarrow>
             (if c = CHR 0x5C \<and> u = CHR ''u'' then
                (case hex4 r' of
                   Some (m, r'') \<Rightarrow>
                     if n < 56320 \<and> 56320 \<le> m \<and> m < 57344
                     then (utf8 (65536 + 1024 * (n - 55296) + (m - 56320)), r'') else (utf8 65533, r)
                 | None \<Rightarrow> (utf8 65533, r))
              else (utf8 65533, r))
         | _ \<Rightarrow> (utf8 65533, r))
      else (utf8 n, r))"

definition simple_escape :: "char \<Rightarrow> char option" where
  "simple_escape e = map_of [(CHR 0x22, CHR 0x22), (CHR 0x5C, CHR 0x5C), (CHR ''/'', CHR ''/''),
     (CHR ''b'', CHR 0x08), (CHR ''f'', CHR 0x0C), (CHR ''n'', CHR 0x0A), (CHR ''r'', CHR 0x0D), (CHR ''t'', CHR 0x09)] e"

text \<open>A string after its opening quote.\<close>

function parse_chars :: "string \<Rightarrow> (string \<times> string) option" where
  "parse_chars s =
     (case s of
        [] \<Rightarrow> None
      | c # r \<Rightarrow>
          if c = CHR 0x22 then Some ([], r)
          else if (of_char c :: nat) < 32 then None
          else if c \<noteq> CHR 0x5C then do { (t, r') \<leftarrow> parse_chars r; Some (c # t, r') }
          else (case r of
              [] \<Rightarrow> None
            | e # r1 \<Rightarrow>
                if e = CHR ''u'' then
                  (case hex4 r1 of
                     None \<Rightarrow> None
                   | Some (n, r2) \<Rightarrow> do { (t, r') \<leftarrow> parse_chars (snd (unicode_escape n r2)); Some (fst (unicode_escape n r2) @ t, r') })
                else (case simple_escape e of
                  None \<Rightarrow> None
                | Some x \<Rightarrow> do { (t, r') \<leftarrow> parse_chars r1; Some (x # t, r') })))"
  by pat_completeness auto

lemma hex4_length: "hex4 s = Some (n, r) \<Longrightarrow> length r < length s"
  by (auto simp: hex4_def bind_eq_Some_conv split: list.splits)

lemma unicode_escape_length: "length (snd (unicode_escape n r)) \<le> length r"
  by (auto simp: unicode_escape_def dest: hex4_length split: list.splits option.splits)

termination parse_chars
proof (relation "measure length", goal_cases)
  case (3 s c r e r1 a n r2)
  then show ?case using hex4_length unicode_escape_length [of n r2] by fastforce
qed auto

declare parse_chars.simps [simp del]

lemmas parse_chars_Nil = parse_chars.simps [of "[]", simplified]
lemmas parse_chars_Cons = parse_chars.simps [of "c # r", simplified] for c r

lemma parse_chars_length: "parse_chars s = Some (t, r) \<Longrightarrow> length r < length s"
proof (induction s arbitrary: t r rule: parse_chars.induct)
  case (1 s)
  note IH = 1(1-3) and prem = 1(4)
  show ?case
  proof (cases s)
    case Nil
    then show ?thesis using prem by (simp add: parse_chars_Nil)
  next
    case (Cons c cs)
    consider "c = CHR 0x22" | "c \<noteq> CHR 0x22" "c \<noteq> CHR 0x5C" | "c = CHR 0x5C" by blast
    then show ?thesis
    proof cases
      case 1
      then show ?thesis using prem Cons by (simp add: parse_chars_Cons)
    next
      case 2
      then obtain t' where "parse_chars cs = Some (t', r)" "\<not> (of_char c :: nat) < 32"
        using prem Cons by (auto simp: parse_chars_Cons bind_eq_Some_conv split: if_splits)
      then show ?thesis using IH(1) [OF Cons] 2 Cons by fastforce
    next
      case 3
      then obtain e r1 where cs: "cs = e # r1" using prem Cons by (cases cs) (auto simp: parse_chars_Cons)
      show ?thesis
      proof (cases "e = CHR ''u''")
        case True
        then obtain n r2 t' where h: "hex4 r1 = Some (n, r2)" "parse_chars (snd (unicode_escape n r2)) = Some (t', r)"
          using prem Cons 3 cs by (auto simp: parse_chars_Cons bind_eq_Some_conv split: if_splits option.splits)
        have "length r < length (snd (unicode_escape n r2))"
          using IH(2) [OF Cons _ _ _ cs True h(1) refl h(2)] 3 by simp
        then show ?thesis using hex4_length [OF h(1)] unicode_escape_length [of n r2] Cons cs by simp
      next
        case False
        then obtain x t' where "simple_escape e = Some x" "parse_chars r1 = Some (t', r)"
          using prem Cons 3 cs by (auto simp: parse_chars_Cons bind_eq_Some_conv split: if_splits option.splits)
        then show ?thesis using IH(3) [OF Cons _ _ _ cs False] 3 Cons cs by fastforce
      qed
    qed
  qed
qed

section \<open>Numbers\<close>

definition parse_frac :: "string \<Rightarrow> (string \<times> string) option" where
  "parse_frac s =
     (case s of
        c # r \<Rightarrow> if c = CHR ''.''
          then (if takeWhile is_digit r = [] then None else Some (c # takeWhile is_digit r, dropWhile is_digit r))
          else Some ([], s)
      | [] \<Rightarrow> Some ([], []))"

definition parse_exp :: "string \<Rightarrow> (string \<times> string) option" where
  "parse_exp s =
     (case s of
        c # r \<Rightarrow> if c = CHR ''e'' \<or> c = CHR ''E''
          then (let sign = takeWhile (\<lambda>x. x = CHR ''+'' \<or> x = CHR ''-'') (take 1 r); r' = drop (length sign) r in
                if takeWhile is_digit r' = [] then None
                else Some (c # sign @ takeWhile is_digit r', dropWhile is_digit r'))
          else Some ([], s)
      | [] \<Rightarrow> Some ([], []))"

definition parse_number :: "string \<Rightarrow> (string \<times> string) option" where
  "parse_number s =
     (let sign = takeWhile (\<lambda>x. x = CHR ''-'') (take 1 s); r = drop (length sign) s;
          ds = takeWhile is_digit r in
      if ds = [] \<or> hd ds = CHR ''0'' \<and> length ds > 1 then None
      else do {
        (fs, r1) \<leftarrow> parse_frac (dropWhile is_digit r);
        (es, r2) \<leftarrow> parse_exp r1;
        Some (sign @ ds @ fs @ es, r2) })"

text \<open>
  Does the text of a number fit a float64, so that strconv.ParseFloat does not fail? A number whose
  magnitude rounds to 2^1024 does not. The value is compared exactly when it has about 309 digits before the
  decimal point.
\<close>

definition float_in_range :: "string \<Rightarrow> bool" where
  "float_in_range t =
     (let u = dropWhile (\<lambda>x. x = CHR ''-'') t;
          ip = takeWhile is_digit u; r = dropWhile is_digit u;
          fp = (if r \<noteq> [] \<and> hd r = CHR ''.'' then takeWhile is_digit (tl r) else []);
          r1 = (if r \<noteq> [] \<and> hd r = CHR ''.'' then dropWhile is_digit (tl r) else r);
          ex = (if r1 = [] then 0
                else if tl r1 \<noteq> [] \<and> hd (tl r1) = CHR ''-'' then - int (nat_of_digits (drop 2 r1))
                else int (nat_of_digits (dropWhile (\<lambda>x. x = CHR ''+'') (tl r1))));
          m = int (nat_of_digits (ip @ fp));
          ds = dropWhile (\<lambda>x. x = CHR ''0'') (ip @ fp);
          e10 = ex - int (length fp); d = int (length ds) + e10;
          bound = 2 ^ 1024 - 2 ^ 970 in
      m = 0 \<or> d < 309 \<or> d = 309 \<and> (if 0 \<le> e10 then m * 10 ^ nat e10 < bound else m < bound * 10 ^ nat (- e10)))"

section \<open>Values\<close>

definition maxNestingDepth :: int where "maxNestingDepth = 10000"

definition parse_literal :: "string \<Rightarrow> (json \<times> string) option" where
  "parse_literal s =
     (if prefix ''true'' s then Some (JBool True, drop 4 s)
      else if prefix ''false'' s then Some (JBool False, drop 5 s)
      else if prefix ''null'' s then Some (JNull, drop 4 s) else None)"

text \<open>
  \<open>parse_elems\<close> reads the elements of an array up to its closing bracket, \<open>parse_members\<close> the members of
  an object; \<open>acc\<close> holds those read so far, the last one first. \<open>d\<close> is the number of open arrays
  and objects.
\<close>

function (sequential) parse_value :: "nat \<Rightarrow> int \<Rightarrow> string \<Rightarrow> (json \<times> string) option"
  and parse_elems :: "nat \<Rightarrow> int \<Rightarrow> string \<Rightarrow> json list \<Rightarrow> (json \<times> string) option"
  and parse_members :: "nat \<Rightarrow> int \<Rightarrow> string \<Rightarrow> json_object \<Rightarrow> (json \<times> string) option" where
  "parse_value 0 d s = None"
| "parse_value (Suc n) d s =
     (case skip_ws s of
        [] \<Rightarrow> None
      | c # r \<Rightarrow>
          if c = CHR 0x22 then do { (t, r') \<leftarrow> parse_chars r; Some (JStr t, r') }
          else if c = CHR ''['' then
            (if maxNestingDepth \<le> d then None
             else case skip_ws r of
               [] \<Rightarrow> None
             | x # r' \<Rightarrow> if x = CHR '']'' then Some (JArr [], r') else parse_elems n (d + 1) (x # r') [])
          else if c = CHR 0x7B then
            (if maxNestingDepth \<le> d then None
             else case skip_ws r of
               [] \<Rightarrow> None
             | x # r' \<Rightarrow> if x = CHR 0x7D then Some (JObj [], r') else parse_members n (d + 1) (x # r') [])
          else if c = CHR ''-'' \<or> is_digit c then do { (t, r') \<leftarrow> parse_number (c # r); Some (JFloat t, r') }
          else parse_literal (c # r))"
| "parse_elems 0 d s acc = None"
| "parse_elems (Suc n) d s acc =
     (case parse_value n d s of
        None \<Rightarrow> None
      | Some (v, r) \<Rightarrow>
          (case skip_ws r of
             [] \<Rightarrow> None
           | x # r' \<Rightarrow>
               if x = CHR '']'' then Some (JArr (rev (v # acc)), r')
               else if x = CHR '','' then parse_elems n d r' (v # acc) else None))"
| "parse_members 0 d s acc = None"
| "parse_members (Suc n) d s acc =
     (case skip_ws s of
        [] \<Rightarrow> None
      | q # r \<Rightarrow>
          if q \<noteq> CHR 0x22 then None
          else (case parse_chars r of
            None \<Rightarrow> None
          | Some (k, r1) \<Rightarrow>
              (case skip_ws r1 of
                 [] \<Rightarrow> None
               | x # r2 \<Rightarrow>
                   if x \<noteq> CHR '':'' then None
                   else (case parse_value n d r2 of
                     None \<Rightarrow> None
                   | Some (v, r3) \<Rightarrow>
                       (case skip_ws r3 of
                          [] \<Rightarrow> None
                        | y # r4 \<Rightarrow>
                            if y = CHR 0x7D then Some (JObj ((k, v) # acc), r4)
                            else if y = CHR '','' then parse_members n d r4 ((k, v) # acc) else None)))))"
  by pat_completeness auto

termination
  by (relation "measure (\<lambda>x. case x of Inl (n, _) \<Rightarrow> n | Inr (Inl (n, _)) \<Rightarrow> n | Inr (Inr (n, _)) \<Rightarrow> n)") auto

definition parse_json :: "string \<Rightarrow> json option" where
  "parse_json s =
     (case parse_value (2 * length s + 1) 0 s of
        None \<Rightarrow> None
      | Some (v, r) \<Rightarrow> if skip_ws r = [] then Some v else None)"

section \<open>Unmarshal\<close>

text \<open>Every number of the value fits a float64, as decoding into interface{} asks.\<close>

fun numbers_ok :: "json \<Rightarrow> bool" where
  "numbers_ok (JFloat t) = float_in_range t"
| "numbers_ok (JArr xs) = list_all numbers_ok xs"
| "numbers_ok (JObj m) = list_all (\<lambda>kv. numbers_ok (snd kv)) m"
| "numbers_ok _ = True"

text \<open>Unmarshal into \<open>map[string]interface{}\<close>: null leaves the map nil. \<open>None\<close> is an error.\<close>

definition unmarshal_map :: "string \<Rightarrow> json_object option" where
  "unmarshal_map s =
     (case parse_json s of
        Some (JObj m) \<Rightarrow> if numbers_ok (JObj m) then Some m else None
      | Some JNull \<Rightarrow> Some []
      | _ \<Rightarrow> None)"

text \<open>
  Decoding into a struct: the members for a field are those whose key is the name of the field
  up to case; the last one that is not null stays. A string field refuses other types, and then
  the whole call fails.
\<close>

definition field_members :: "json_object \<Rightarrow> string \<Rightarrow> json list" where
  "field_members m name = map snd (filter (\<lambda>kv. equal_fold (fst kv) name \<and> snd kv \<noteq> JNull) m)"

definition string_field :: "json_object \<Rightarrow> string \<Rightarrow> string option" where
  "string_field m name =
     (if list_all (\<lambda>v. as_str v \<noteq> None) (field_members m name)
      then Some (case field_members m name of [] \<Rightarrow> [] | v # _ \<Rightarrow> the (as_str v)) else None)"

text \<open>A slice field accepts an array or null; the last member decides, and null leaves the slice nil.\<close>

definition slice_field :: "json_object \<Rightarrow> string \<Rightarrow> json list option" where
  "slice_field m name =
     (let ms = map snd (filter (\<lambda>kv. equal_fold (fst kv) name) m) in
      if list_all (\<lambda>v. v = JNull \<or> as_arr v \<noteq> None) ms
      then Some (case ms of [] \<Rightarrow> [] | v # _ \<Rightarrow> (case as_arr v of None \<Rightarrow> [] | Some xs \<Rightarrow> xs)) else None)"

text \<open>The members of a text that is decoded into a struct: an object, or null, which sets nothing.\<close>

definition struct_members :: "string \<Rightarrow> json_object option" where
  "struct_members s = (case parse_json s of Some (JObj m) \<Rightarrow> Some m | Some JNull \<Rightarrow> Some [] | _ \<Rightarrow> None)"

section \<open>The fuel is enough\<close>

lemma skip_ws_length: "length (skip_ws s) \<le> length s"
  by (simp add: skip_ws_def length_dropWhile_le)

lemma skip_ws_Cons_length: "skip_ws s = c # r \<Longrightarrow> length r < length s"
  using skip_ws_length [of s] by simp

lemma dropWhile_drop_le: "length (dropWhile P (drop k xs)) \<le> length xs"
  using length_dropWhile_le [of P "drop k xs"] by simp

lemma parse_frac_length: "parse_frac s = Some (t, r) \<Longrightarrow> length r \<le> length s"
  by (auto simp: parse_frac_def intro: le_SucI [OF length_dropWhile_le] split: list.splits if_splits)

lemma parse_exp_length:
  assumes "parse_exp s = Some (t, r)"
  shows "length r \<le> length s"
proof (cases s)
  case (Cons c cs)
  then have "r = s \<or> (\<exists>k. r = dropWhile is_digit (drop k cs))"
    using assms unfolding parse_exp_def Let_def by (simp split: if_splits) metis+
  then show ?thesis using Cons by (auto intro: le_SucI dropWhile_drop_le)
qed (use assms in \<open>simp add: parse_exp_def\<close>)

lemma dropWhile_shorter: "takeWhile P s \<noteq> [] \<Longrightarrow> length (dropWhile P s) < length s"
  by (cases s) (auto simp: less_Suc_eq_le length_dropWhile_le split: if_splits)

lemma parse_number_length:
  assumes "parse_number s = Some (t, r)"
  shows "length r < length s"
proof -
  let ?r = "drop (length (takeWhile (\<lambda>x. x = CHR ''-'') (take 1 s))) s"
  obtain fs r1 es where a: "takeWhile is_digit ?r \<noteq> []"
    and b: "parse_frac (dropWhile is_digit ?r) = Some (fs, r1)" "parse_exp r1 = Some (es, r)"
    using assms by (auto simp: parse_number_def Let_def bind_eq_Some_conv split: if_splits)
  have "length r \<le> length (dropWhile is_digit ?r)"
    using parse_frac_length [OF b(1)] parse_exp_length [OF b(2)] by simp
  also have "\<dots> < length ?r" using a by (rule dropWhile_shorter)
  also have "\<dots> \<le> length s" by simp
  finally show ?thesis .
qed

lemma parse_literal_length: "parse_literal s = Some (v, r) \<Longrightarrow> length r < length s"
  by (auto simp: parse_literal_def dest!: prefix_length_le split: if_splits)

lemma parse_length:
  "parse_value n d s = Some (v, r) \<Longrightarrow> length r < length s"
  "parse_elems n d s es = Some (v, r) \<Longrightarrow> length r < length s"
  "parse_members n d s ms = Some (v, r) \<Longrightarrow> length r < length s"
proof (induction n d s and n d s es and n d s ms arbitrary: v r and v r and v r rule: parse_value_parse_elems_parse_members.induct)
  case (2 n d s)
  obtain c cs where c: "skip_ws s = c # cs" using 2(3) by (cases "skip_ws s") auto
  have l: "length (c # cs) \<le> length s" using skip_ws_length [of s] c by simp
  have e: "skip_ws cs = x # xs \<Longrightarrow> x \<noteq> CHR '']'' \<Longrightarrow> parse_elems n (d + 1) (x # xs) [] = Some (v, r) \<Longrightarrow> c = CHR ''[''
      \<Longrightarrow> \<not> maxNestingDepth \<le> d \<Longrightarrow> length r < length cs" for x xs
    using 2(1) [OF c] skip_ws_length [of cs] by fastforce
  have m: "skip_ws cs = x # xs \<Longrightarrow> x \<noteq> CHR 0x7D \<Longrightarrow> parse_members n (d + 1) (x # xs) [] = Some (v, r) \<Longrightarrow> c = CHR 0x7B
      \<Longrightarrow> \<not> maxNestingDepth \<le> d \<Longrightarrow> length r < length cs" for x xs
    using 2(2) [OF c] skip_ws_length [of cs] by fastforce
  have "length r < length (c # cs)"
  proof (cases "c = CHR 0x22 \<or> c = CHR ''['' \<or> c = CHR 0x7B")
    case True
    then show ?thesis using 2(3) c e m
      by (auto simp: bind_eq_Some_conv split: if_splits list.splits intro: less_SucI
          dest: parse_chars_length skip_ws_Cons_length simp del: parse_elems.simps parse_members.simps)
  next
    case False
    then have "(\<exists>t. parse_number (c # cs) = Some (t, r)) \<or> parse_literal (c # cs) = Some (v, r)"
      using 2(3) c by (auto simp: bind_eq_Some_conv split: if_splits)
    then show ?thesis using parse_number_length parse_literal_length by blast
  qed
  with l show ?case by simp
next
  case (4 n d s acc)
  obtain u r0 x r1 where u: "parse_value n d s = Some (u, r0)" and x: "skip_ws r0 = x # r1"
    using 4(3) by (auto split: option.splits list.splits)
  then have "length r1 < length s" using 4(1) [OF u] skip_ws_Cons_length [OF x] by simp
  moreover have "x = CHR '']'' \<and> r = r1 \<or> x = CHR '','' \<and> parse_elems n d r1 (u # acc) = Some (v, r)"
    using 4(3) u x by (auto split: if_splits)
  ultimately show ?case using 4(2) [OF u refl x] by fastforce
next
  case (6 n d s acc)
  obtain q r0 k r1 r2 u r3 y r4 where q: "skip_ws s = q # r0" "q = CHR 0x22" "parse_chars r0 = Some (k, r1)"
    "skip_ws r1 = CHR '':'' # r2" and u: "parse_value n d r2 = Some (u, r3)" and y: "skip_ws r3 = y # r4"
    using 6(3) by (auto split: option.splits list.splits if_splits)
  have "length r4 < length s"
    using 6(1) [OF q(1) _ q(3) refl q(4)] q(2) u skip_ws_Cons_length [OF y] skip_ws_Cons_length [OF q(4)]
      parse_chars_length [OF q(3)] skip_ws_Cons_length [OF q(1)] by fastforce
  moreover have "y = CHR 0x7D \<and> r = r4 \<or> y = CHR '','' \<and> parse_members n d r4 ((k, u) # acc) = Some (v, r)"
    using 6(3) q u y by (auto split: if_splits)
  ultimately show ?case using 6(2) [OF q(1) _ q(3) refl q(4) _ u refl y] q(2) by fastforce
qed auto

lemma parse_fuel_step:
  "2 * length s + 1 \<le> n \<Longrightarrow> parse_value (Suc n) d s = parse_value n d s"
  "2 * length s + 2 \<le> n \<Longrightarrow> parse_elems (Suc n) d s es = parse_elems n d s es"
  "2 * length s + 2 \<le> n \<Longrightarrow> parse_members (Suc n) d s ms = parse_members n d s ms"
proof (induction n d s and n d s es and n d s ms rule: parse_value_parse_elems_parse_members.induct)
  case (2 n d s)
  show ?case
  proof (cases "skip_ws s")
    case (Cons c r)
    have "skip_ws r = x # r' \<Longrightarrow> 2 * length (x # r') + 2 \<le> n" for x r'
      using skip_ws_Cons_length [OF Cons] skip_ws_length [of r] 2(3) by simp
    then have "skip_ws r = x # r' \<Longrightarrow> c = CHR ''['' \<Longrightarrow> \<not> maxNestingDepth \<le> d \<Longrightarrow> x \<noteq> CHR '']'' \<Longrightarrow>
        parse_elems (Suc n) (d + 1) (x # r') [] = parse_elems n (d + 1) (x # r') []"
      "skip_ws r = x # r' \<Longrightarrow> c = CHR 0x7B \<Longrightarrow> \<not> maxNestingDepth \<le> d \<Longrightarrow> x \<noteq> CHR 0x7D \<Longrightarrow>
        parse_members (Suc n) (d + 1) (x # r') [] = parse_members n (d + 1) (x # r') []" for x r'
      using 2(1) [OF Cons] 2(2) [OF Cons] by (fastforce, fastforce)
    then show ?thesis
      by (simp only: parse_value.simps Cons list.case) (simp split: list.split del: parse_elems.simps parse_members.simps)
  qed simp
next
  case (4 n d s acc)
  have v: "parse_value (Suc n) d s = parse_value n d s" using 4(1) 4(3) by simp
  have "parse_value n d s = Some (u, r0) \<Longrightarrow> skip_ws r0 = x # r1 \<Longrightarrow> x = CHR '','' \<Longrightarrow>
      parse_elems (Suc n) d r1 (u # acc) = parse_elems n d r1 (u # acc)" for u r0 x r1
    using 4(2) [of "(u, r0)" u r0 x r1] parse_length(1) [of n d s u r0] skip_ws_Cons_length [of r0 x r1] 4(3) by fastforce
  then show ?case
    unfolding parse_elems.simps(2) [of "Suc n"] parse_elems.simps(2) [of n] v
    by (simp split: option.split list.split prod.split del: parse_elems.simps)
next
  case (6 n d s acc)
  have b: "skip_ws s = q # r0 \<Longrightarrow> parse_chars r0 = Some (k, r1) \<Longrightarrow> skip_ws r1 = x # r2 \<Longrightarrow> length r2 + 1 < length s" for q r0 k r1 x r2
    using skip_ws_Cons_length [of s q r0] parse_chars_length [of r0 k r1] skip_ws_Cons_length [of r1 x r2] by simp
  have v: "skip_ws s = q # r0 \<Longrightarrow> q = CHR 0x22 \<Longrightarrow> parse_chars r0 = Some (k, r1) \<Longrightarrow> skip_ws r1 = x # r2 \<Longrightarrow> x = CHR '':'' \<Longrightarrow>
      parse_value (Suc n) d r2 = parse_value n d r2" for q r0 k r1 x r2
    using 6(1) [of q r0 "(k, r1)" k r1 x r2] b [of q r0 k r1 x r2] 6(3) by fastforce
  have m: "skip_ws s = q # r0 \<Longrightarrow> q = CHR 0x22 \<Longrightarrow> parse_chars r0 = Some (k, r1) \<Longrightarrow> skip_ws r1 = x # r2 \<Longrightarrow> x = CHR '':'' \<Longrightarrow>
      parse_value n d r2 = Some (u, r3) \<Longrightarrow> skip_ws r3 = y # r4 \<Longrightarrow> y = CHR '','' \<Longrightarrow>
      parse_members (Suc n) d r4 ((k, u) # acc) = parse_members n d r4 ((k, u) # acc)" for q r0 k r1 x r2 u r3 y r4
    using 6(2) [of q r0 "(k, r1)" k r1 x r2 "(u, r3)" u r3 y r4] b [of q r0 k r1 x r2]
      parse_length(1) [of n d r2 u r3] skip_ws_Cons_length [of r3 y r4] 6(3) by fastforce
  from v m show ?case
    unfolding parse_members.simps(2) [of "Suc n"] parse_members.simps(2) [of n]
    by (simp split: option.split list.split prod.split del: parse_members.simps parse_value.simps)
qed auto

lemma parse_value_fuel:
  assumes "2 * length s + 1 \<le> n"
  shows "parse_value n d s = parse_value (2 * length s + 1) d s"
  using assms by (induction n rule: dec_induct) (simp_all add: parse_fuel_step(1) del: parse_value.simps)

text \<open>White space around a value does not change what it decodes to.\<close>

lemma skip_ws_idem [simp]: "skip_ws (skip_ws s) = skip_ws s"
  by (simp add: skip_ws_def)

lemma parse_value_skip: "parse_value n d (skip_ws s) = parse_value n d s"
  by (cases n) simp_all

lemma parse_json_leading_space: "parse_json (skip_ws s) = parse_json s"
proof -
  have "parse_value (2 * length (skip_ws s) + 1) 0 (skip_ws s) = parse_value (2 * length s + 1) 0 (skip_ws s)"
    using skip_ws_length [of s] by (intro parse_value_fuel [symmetric]) simp
  then show ?thesis by (simp add: parse_json_def parse_value_skip del: parse_value.simps)
qed

end
