(* ===== verification/Ocm.thy ===== *)
theory Ocm
  imports Config Polling Go_Json
begin

text \<open>
  pkg/framework/ocm.go and upgrade.go: the calls to OCM that find, create, upgrade and wait for clusters.
  The OCM SDK is outside the repository: a connection is the record \<open>ocm_connection\<close> of operations on the state
  \<open>'w\<close> of the outside world, and the objects are records of the fields that the sources read or set.
  \<open>'w run\<close> adds the text written to GinkgoWriter. The clock, the random numbers and the select
  statement of the wait loops belong to the outside world too (\<open>ocm_runtime\<close>).
\<close>

section \<open>Data and the connection\<close>

record ocm_cluster =
  oc_ID :: string
  oc_Name :: string
  oc_State :: string
  oc_InfraID :: string
  oc_CloudProviderID :: string
  oc_HypershiftEnabled :: bool
  oc_VersionRawID :: string
  oc_OperatorRolePrefix :: string \<comment> \<open>AWS().STS().OperatorRolePrefix()\<close>

text \<open>What the builder of a new cluster is given; a field that the source does not set is \<open>None\<close>.\<close>

record cluster_spec =
  cs_Name :: string
  cs_Product :: string
  cs_CloudProvider :: string
  cs_Region :: string
  cs_HypershiftEnabled :: "bool option"
  cs_MultiAZ :: bool
  cs_CCS :: bool
  cs_SubnetIDs :: "string list"
  cs_RoleARN :: string
  cs_SupportRoleARN :: string
  cs_OperatorRolePrefix :: string
  cs_OidcConfigID :: "string option"
  cs_BillingAccountID :: "string option"
  cs_ComputeMachineType :: string
  cs_Compute :: int
  cs_VersionID :: string
  cs_ChannelGroup :: string
  cs_Properties :: "(string \<times> string) list"

record upgrade_policy =
  up_Version :: string
  up_ScheduleType :: string
  up_UpgradeType :: string
  up_NextRun :: int

datatype policy_target = ControlPlanePolicies | ClusterPolicies | NodePoolPolicies string

record connection_spec =
  cn_URL :: string
  cn_TokenURL :: string
  cn_ClientID :: string
  cn_ClientSecret :: string
  cn_Tokens :: "string option"

record 'w ocm_connection =
  cluster_Get :: "string \<Rightarrow> 'w \<Rightarrow> (go_error + ocm_cluster) \<times> 'w"
  hypershift_ManagementCluster :: "string \<Rightarrow> 'w \<Rightarrow> (go_error + string) \<times> 'w"
  clusters_Search :: "string \<Rightarrow> int \<Rightarrow> 'w \<Rightarrow> (go_error + int \<times> string) \<times> 'w"
    \<comment> \<open>search, size; Total() and Items().Get(0).ID()\<close>
  cluster_Build :: "cluster_spec \<Rightarrow> go_error option"
  cluster_Add :: "cluster_spec \<Rightarrow> 'w \<Rightarrow> (go_error + string) \<times> 'w" \<comment> \<open>the id of the new cluster\<close>
  cluster_Delete :: "string \<Rightarrow> 'w \<Rightarrow> go_error option \<times> 'w"
  credentials_Kubeconfig :: "string \<Rightarrow> 'w \<Rightarrow> (go_error + string) \<times> 'w"
  versions_Search :: "string \<Rightarrow> string \<Rightarrow> int \<Rightarrow> 'w \<Rightarrow> (go_error + string list) \<times> 'w" \<comment> \<open>search, order, size; ids\<close>
  raw_Get :: "string \<Rightarrow> string \<times> string \<Rightarrow> 'w \<Rightarrow> (go_error + string) \<times> 'w" \<comment> \<open>path, parameter; the body\<close>
  shard_Topology :: "string \<Rightarrow> 'w \<Rightarrow> (go_error + string) \<times> 'w"
  policy_Build :: "upgrade_policy \<Rightarrow> go_error option"
  policy_Add :: "string \<Rightarrow> policy_target \<Rightarrow> upgrade_policy \<Rightarrow> 'w \<Rightarrow> go_error option \<times> 'w"
  unmarshal_error :: "string \<Rightarrow> go_error" \<comment> \<open>the error of json.Unmarshal on a text it refuses\<close>

record 'w ocm_runtime =
  rand_IntN :: "nat \<Rightarrow> 'w \<Rightarrow> nat \<times> 'w"
  local_now :: "'w \<Rightarrow> go_time"
  unix_now :: "'w \<Rightarrow> int" \<comment> \<open>the instant, in nanoseconds\<close>
  select_tick :: "int \<Rightarrow> int \<Rightarrow> 'w \<Rightarrow> bool \<times> 'w"
    \<comment> \<open>deadline of the context, period of the ticker; was ctx.Done() chosen?\<close>

definition rand_ok :: "'w ocm_runtime \<Rightarrow> bool" where
  "rand_ok rt \<longleftrightarrow> (\<forall>n w. 0 < n \<longrightarrow> fst (rand_IntN rt n w) < n)"

record 'w run =
  run_world :: 'w
  run_log :: string

definition on_world :: "('w \<Rightarrow> 'a \<times> 'w) \<Rightarrow> 'w run \<Rightarrow> 'a \<times> 'w run" where
  "on_world f s = (case f (run_world s) of (r, w') \<Rightarrow> (r, s\<lparr>run_world := w'\<rparr>))"

definition Printf :: "string \<Rightarrow> fmt_arg list \<Rightarrow> 'w run \<Rightarrow> 'w run" where
  "Printf f as s = s\<lparr>run_log := run_log s @ fmt_Sprintf f as\<rparr>"

definition pollInterval :: int where "pollInterval = 30 * second"
definition defaultReadyTimout :: int where "defaultReadyTimout = 45 * minute"

section \<open>Connecting\<close>

text \<open>What NewOCMConnection sets on the builder; building is a parameter.\<close>

definition connection_builder :: "(string \<Rightarrow> string) \<Rightarrow> Config \<Rightarrow> connection_spec" where
  "connection_builder ge cfg =
     (let (cid, secret) =
        (if OCMClientID cfg \<noteq> [] \<and> OCMClientSecret cfg \<noteq> [] then (OCMClientID cfg, OCMClientSecret cfg)
         else if OCMClientID cfg \<noteq> [] then (OCMClientID cfg, [])
         else (''cloud-services'', []))
      in \<lparr>cn_URL = OCMBaseURL ge cfg, cn_TokenURL = OCMTokenURL cfg, cn_ClientID = cid, cn_ClientSecret = secret,
          cn_Tokens = (if OCMToken cfg \<noteq> [] then Some (OCMToken cfg) else None)\<rparr>)"

definition NewOCMConnection ::
  "(connection_spec \<Rightarrow> 'w \<Rightarrow> (go_error + 'c) \<times> 'w) \<Rightarrow> (string \<Rightarrow> string) \<Rightarrow> Config \<Rightarrow> 'w \<Rightarrow> (go_error + 'c) \<times> 'w" where
  "NewOCMConnection build ge cfg w =
     (case build (connection_builder ge cfg) w of
        (Inl err, w') \<Rightarrow> (Inl (Errorf ''building OCM connection: %w'' [FErr err]), w')
      | (Inr conn, w') \<Rightarrow> (Inr conn, w'))"

section \<open>Finding clusters and versions\<close>

definition ResolveManagementClusterID :: "'w ocm_connection \<Rightarrow> string \<Rightarrow> 'w \<Rightarrow> (go_error + string) \<times> 'w" where
  "ResolveManagementClusterID conn clusterID w =
     (case hypershift_ManagementCluster conn clusterID w of
        (Inl err, w1) \<Rightarrow> (Inl (Errorf ''getting hypershift config for cluster %s: %w'' [FStr clusterID, FErr err]), w1)
      | (Inr mcName, w1) \<Rightarrow>
          if mcName = [] then (Inl (Errorf ''cluster %s has no management cluster assigned'' [FStr clusterID]), w1)
          else (case clusters_Search conn (fmt_Sprintf (''name='' @ [CHR 0x27] @ ''%s'' @ [CHR 0x27]) [FStr mcName]) 1 w1 of
              (Inl err, w2) \<Rightarrow> (Inl (Errorf ''searching for management cluster %q: %w'' [FStr mcName, FErr err]), w2)
            | (Inr (tot, firstID), w2) \<Rightarrow>
                if tot = 0 then (Inl (Errorf ''management cluster %q not found in OCM'' [FStr mcName]), w2)
                else (Inr firstID, w2)))"

definition DetectClusterTopology :: "'w ocm_connection \<Rightarrow> string \<Rightarrow> 'w \<Rightarrow> (go_error + string) \<times> 'w" where
  "DetectClusterTopology conn clusterID w =
     (case cluster_Get conn clusterID w of
        (Inl err, w') \<Rightarrow> (Inl (Errorf ''getting cluster %s for topology detection: %w'' [FStr clusterID, FErr err]), w')
      | (Inr cluster, w') \<Rightarrow>
          (Inr (if oc_CloudProviderID cluster = ''gcp'' then ''osd-gcp''
                else if oc_HypershiftEnabled cluster then ''hcp'' else ''classic''), w'))"

definition apos :: string where "apos = [CHR 0x27]"

definition version_query :: "Config \<Rightarrow> string \<Rightarrow> string" where
  "version_query cfg topology =
     fmt_Sprintf (''channel_group = '' @ apos @ ''%s'' @ apos @ '' AND enabled = '' @ apos @ ''true'' @ apos) [FStr (ChannelGroup cfg)]
     @ (if topology = ''hcp''
        then '' AND rosa_enabled = '' @ apos @ ''true'' @ apos @ '' AND hosted_control_plane_enabled = '' @ apos @ ''true'' @ apos
        else if topology = ''osd-gcp'' then []
        else '' AND rosa_enabled = '' @ apos @ ''true'' @ apos)"

definition resolveVersionForTopology :: "'w ocm_connection \<Rightarrow> Config \<Rightarrow> string \<Rightarrow> 'w run \<Rightarrow> (go_error + string) \<times> 'w run" where
  "resolveVersionForTopology conn cfg topology s =
     (if OpenShiftVersion cfg \<noteq> [] then (Inr (''openshift-v'' @ OpenShiftVersion cfg), s)
      else (case on_world (versions_Search conn (version_query cfg topology) ''raw_id desc'' 1) s of
          (Inl err, s1) \<Rightarrow> (Inl (Errorf ''listing versions: %w'' [FErr err]), s1)
        | (Inr items, s1) \<Rightarrow> (case items of
              [] \<Rightarrow> (Inl (Errorf ''no %s-compatible versions found for channel group %q'' [FStr topology, FStr (ChannelGroup cfg)]), s1)
            | version # _ \<Rightarrow> (Inr version, Printf (''Resolved %s version: %s'' @ nl) [FStr topology, FStr version] s1))))"

section \<open>Provision shards\<close>

text \<open>
  The ids of the response of the fleet manager, one for each item, empty where the item has none. A
  member of another type makes the decoding fail.
\<close>

definition shard_ref_id :: "json \<Rightarrow> string option" where
  "shard_ref_id item =
     (case item of
        JNull \<Rightarrow> Some []
      | JObj m \<Rightarrow>
          (let refs = field_members m ''provision_shard_reference'' in
           if list_all (\<lambda>r. as_obj r \<noteq> None) refs then string_field (concat (map (the \<circ> as_obj) refs)) ''id'' else None)
      | _ \<Rightarrow> None)"

definition decode_shards :: "string \<Rightarrow> string list option" where
  "decode_shards body =
     (case struct_members body of
        None \<Rightarrow> None
      | Some m \<Rightarrow> (case slice_field m ''items'' of
            None \<Rightarrow> None
          | Some items \<Rightarrow> if list_all (\<lambda>i. shard_ref_id i \<noteq> None) items then Some (map (the \<circ> shard_ref_id) items) else None))"

fun pick_shard :: "'w ocm_connection \<Rightarrow> string \<Rightarrow> string list \<Rightarrow> 'w run \<Rightarrow> string option \<times> 'w run" where
  "pick_shard conn sector [] s = (None, s)"
| "pick_shard conn sector (shardID # ids) s =
     (if shardID = [] then pick_shard conn sector ids s
      else (case on_world (shard_Topology conn shardID) s of
          (Inl err, s1) \<Rightarrow> (Some shardID, s1)
        | (Inr topology, s1) \<Rightarrow>
            if topology = ''dedicated'' \<or> topology = ''dedicated-v2''
            then (Some shardID, Printf (''Found dedicated shard %s for sector %s'' @ nl) [FStr shardID, FStr sector] s1)
            else pick_shard conn sector ids s1))"

definition shard_query :: "string \<Rightarrow> string \<Rightarrow> string \<Rightarrow> string" where
  "shard_query sector region status =
     fmt_Sprintf (''sector is '' @ apos @ ''%s'' @ apos @ '' and region is '' @ apos @ ''%s'' @ apos
       @ '' and status in ('' @ apos @ ''%s'' @ apos @ '')'') [FStr sector, FStr region, FStr status]"

definition findShardForSector ::
  "'w ocm_connection \<Rightarrow> string \<Rightarrow> string \<Rightarrow> string \<Rightarrow> 'w run \<Rightarrow> (go_error + string) \<times> 'w run" where
  "findShardForSector conn sector region status s =
     (case on_world (raw_Get conn ''/api/osd_fleet_mgmt/v1/service_clusters'' (''search'', shard_query sector region status)) s of
        (Inl err, s1) \<Rightarrow> (Inl (Errorf ''querying service clusters: %w'' [FErr err]), s1)
      | (Inr body, s1) \<Rightarrow> (case decode_shards body of
            None \<Rightarrow> (Inl (Errorf ''parsing OSDFM response: %w'' [FErr (unmarshal_error conn body)]), s1)
          | Some ids \<Rightarrow> (case pick_shard conn sector ids s1 of
                (Some shardID, s2) \<Rightarrow> (Inr shardID, s2)
              | (None, s2) \<Rightarrow> (Inr (if ids \<noteq> [] \<and> hd ids \<noteq> [] then hd ids else []), s2))))"

definition resolveProvisionShard :: "'w ocm_connection \<Rightarrow> string \<Rightarrow> string \<Rightarrow> 'w run \<Rightarrow> (go_error + string) \<times> 'w run" where
  "resolveProvisionShard conn sector region s =
     (case findShardForSector conn sector region ''ready'' s of
        (r1, s1) \<Rightarrow>
          if r1 \<noteq> Inr [] \<and> \<not> isl r1 then (r1, s1)
          else (case findShardForSector conn sector region ''maintenance'' s1 of
            (r2, s2) \<Rightarrow>
              if r2 = Inr [] \<or> isl r2
              then (Inl (Errorf ''no provision shard found for sector %s in region %s'' [FStr sector, FStr region]), s2)
              else (r2, s2)))"

section \<open>Creating and deleting clusters\<close>

definition charset :: string where "charset = ''abcdefghijklmnopqrstuvwxyz0123456789''"

fun random_suffix :: "'w ocm_runtime \<Rightarrow> nat \<Rightarrow> string \<Rightarrow> 'w \<Rightarrow> string \<times> 'w" where
  "random_suffix rt 0 sfx w = (sfx, w)"
| "random_suffix rt (Suc n) sfx w =
     (case rand_IntN rt (length charset) w of (i, w') \<Rightarrow> random_suffix rt n (sfx @ [charset ! i]) w')"

definition generateClusterName :: "'w ocm_runtime \<Rightarrow> string \<Rightarrow> string \<Rightarrow> 'w \<Rightarrow> string \<times> 'w" where
  "generateClusterName rt pfx topology w =
     (case random_suffix rt 5 [] w of
        (sfx, w') \<Rightarrow>
          (let topoTag = (if topology = ''classic'' then ''sts'' else topology)
           in (fmt_Sprintf ''%s-%s-%s-%s'' [FStr pfx, FStr topoTag, FStr (format_0102 (local_now rt w')), FStr sfx], w')))"

definition role_arn :: "Config \<Rightarrow> string \<Rightarrow> string" where
  "role_arn cfg role = fmt_Sprintf (''arn:aws:iam::%s:role/%s-'' @ role) [FStr (AWSAccountID cfg), FStr (AccountRolePrefix cfg)]"

text \<open>The fields that both kinds of clusters are built with.\<close>

definition base_spec :: "Config \<Rightarrow> string \<Rightarrow> string \<Rightarrow> (string \<times> string) list \<Rightarrow> cluster_spec" where
  "base_spec cfg name versionID properties =
     \<lparr>cs_Name = name, cs_Product = ''rosa'', cs_CloudProvider = ''aws'', cs_Region = AWSRegion cfg,
      cs_HypershiftEnabled = None, cs_MultiAZ = False, cs_CCS = True, cs_SubnetIDs = SubnetIDs cfg,
      cs_RoleARN = role_arn cfg ''Installer-Role'', cs_SupportRoleARN = role_arn cfg ''Support-Role'',
      cs_OperatorRolePrefix = OperatorRolePrefix cfg, cs_OidcConfigID = None,
      cs_BillingAccountID = (if BillingAccountID cfg \<noteq> [] then Some (BillingAccountID cfg) else None),
      cs_ComputeMachineType = ComputeMachineType cfg, cs_Compute = ComputeNodes cfg,
      cs_VersionID = versionID, cs_ChannelGroup = ChannelGroup cfg, cs_Properties = properties\<rparr>"

definition add_cluster :: "'w ocm_connection \<Rightarrow> string \<Rightarrow> cluster_spec \<Rightarrow> 'w run \<Rightarrow> (go_error + string) \<times> 'w run" where
  "add_cluster conn announce spec s =
     (case cluster_Build conn spec of
        Some err \<Rightarrow> (Inl (Errorf ''building cluster object: %w'' [FErr err]), s)
      | None \<Rightarrow> (case on_world (cluster_Add conn spec) s of
            (Inl err, s1) \<Rightarrow> (Inl (Errorf ''creating cluster: %w'' [FErr err]), s1)
          | (Inr clusterID, s1) \<Rightarrow> (Inr clusterID, Printf (announce @ nl) [FStr (cs_Name spec), FStr clusterID] s1)))"

text \<open>The provision shard of the configuration, resolved from the sector when it is not set. The configuration is shared: it keeps the shard.\<close>

definition ensure_shard :: "'w ocm_connection \<Rightarrow> Config \<Rightarrow> 'w run \<Rightarrow> (go_error + Config) \<times> 'w run" where
  "ensure_shard conn cfg s =
     (if ProvisionShardID cfg = [] \<and> SectorName cfg \<noteq> [] then
        (case resolveProvisionShard conn (SectorName cfg) (AWSRegion cfg) s of
           (Inl err, s1) \<Rightarrow> (Inl (Errorf ''resolving provision shard for sector %s: %w'' [FStr (SectorName cfg), FErr err]), s1)
         | (Inr shardID, s1) \<Rightarrow> (Inr (cfg\<lparr>ProvisionShardID := shardID\<rparr>), s1))
      else (Inr cfg, s))"

definition CreateRosaHCPCluster ::
  "'w ocm_runtime \<Rightarrow> 'w ocm_connection \<Rightarrow> Config \<Rightarrow> 'w run \<Rightarrow> (go_error + string) \<times> Config \<times> 'w run" where
  "CreateRosaHCPCluster rt conn cfg s =
     (let (name, s1) = on_world (generateClusterName rt (ClusterNamePrefix cfg) ''hcp'') s in
      case resolveVersionForTopology conn cfg ''hcp'' s1 of
        (Inl err, s2) \<Rightarrow> (Inl (Errorf ''resolving version: %w'' [FErr err]), cfg, s2)
      | (Inr versionID, s2) \<Rightarrow> (case ensure_shard conn cfg s2 of
            (Inl err, s3) \<Rightarrow> (Inl err, cfg, s3)
          | (Inr cfg', s3) \<Rightarrow>
              (let creator = (''rosa_creator_arn'', CreatorARN cfg');
                   shard = ProvisionShardID cfg';
                   properties = (if shard \<noteq> [] then [(''provision_shard_id'', shard), creator] else [creator]);
                   s4 = (if shard \<noteq> [] then Printf (''Using provision shard: %s'' @ nl) [FStr shard] s3 else s3);
                   spec = (base_spec cfg' name versionID properties)
                     \<lparr>cs_HypershiftEnabled := Some True, cs_OidcConfigID := Some (OIDCConfigID cfg')\<rparr>;
                   (r, s5) = add_cluster conn ''Cluster %q created with ID %s'' spec s4
               in (r, cfg', s5))))"

definition CreateRosaClassicCluster ::
  "'w ocm_runtime \<Rightarrow> 'w ocm_connection \<Rightarrow> Config \<Rightarrow> 'w run \<Rightarrow> (go_error + string) \<times> 'w run" where
  "CreateRosaClassicCluster rt conn cfg s =
     (let (name, s1) = on_world (generateClusterName rt (ClusterNamePrefix cfg) ''classic'') s in
      case resolveVersionForTopology conn cfg ''classic'' s1 of
        (Inl err, s2) \<Rightarrow> (Inl (Errorf ''resolving version: %w'' [FErr err]), s2)
      | (Inr versionID, s2) \<Rightarrow>
          add_cluster conn ''Classic STS cluster %q created with ID %s''
            (base_spec cfg name versionID [(''rosa_creator_arn'', CreatorARN cfg)]) s2)"

definition DeleteCluster :: "'w ocm_connection \<Rightarrow> string \<Rightarrow> 'w run \<Rightarrow> go_error option \<times> 'w run" where
  "DeleteCluster conn clusterID s =
     (case on_world (cluster_Delete conn clusterID) s of
        (Some err, s1) \<Rightarrow> (Some (Errorf ''deleting cluster %s: %w'' [FStr clusterID, FErr err]), s1)
      | (None, s1) \<Rightarrow> (None, Printf (''Cluster %s deletion initiated'' @ nl) [FStr clusterID] s1))"

definition GetClusterState :: "'w ocm_connection \<Rightarrow> string \<Rightarrow> 'w \<Rightarrow> (go_error + string) \<times> 'w" where
  "GetClusterState conn clusterID w =
     (case cluster_Get conn clusterID w of
        (Inl err, w') \<Rightarrow> (Inl (Errorf ''getting cluster %s state: %w'' [FStr clusterID, FErr err]), w')
      | (Inr cluster, w') \<Rightarrow> (Inr (oc_State cluster), w'))"

text \<open>The credentials of a cluster; \<open>parse\<close> is clientcmd.RESTConfigFromKubeConfig.\<close>

definition GetClusterCredentials ::
  "(string \<Rightarrow> go_error + 'rest) \<Rightarrow> 'w ocm_connection \<Rightarrow> string \<Rightarrow> 'w \<Rightarrow> (go_error + 'rest) \<times> 'w" where
  "GetClusterCredentials parse conn clusterID w =
     (case credentials_Kubeconfig conn clusterID w of
        (Inl err, w') \<Rightarrow> (Inl (Errorf ''getting credentials for cluster %s: %w'' [FStr clusterID, FErr err]), w')
      | (Inr kubeconfig, w') \<Rightarrow>
          if kubeconfig = [] then (Inl (Errorf ''no kubeconfig available for cluster %s'' [FStr clusterID]), w')
          else (case parse kubeconfig of
              Inl err \<Rightarrow> (Inl (Errorf ''parsing kubeconfig for cluster %s: %w'' [FStr clusterID, FErr err]), w')
            | Inr restConfig \<Rightarrow> (Inr restConfig, w')))"

section \<open>Which shard is used\<close>

definition dedicated :: "string \<Rightarrow> bool" where
  "dedicated topology \<longleftrightarrow> topology = ''dedicated'' \<or> topology = ''dedicated-v2''"

text \<open>
  The choice in the answer of the fleet manager to one query. \<open>ask_topologies\<close> asks for the topology of each shard that has an
  id, one after the other; a shard is taken when it is dedicated or when its topology cannot be read. The first such
  shard is the choice, else the shard of the first item, which may be empty. Besides the choice, \<open>sector_choice\<close> gives the
  world in which nothing was taken.
\<close>

fun ask_topologies :: "'w ocm_connection \<Rightarrow> string list \<Rightarrow> 'w \<Rightarrow> (string \<times> (go_error + string)) list \<times> 'w" where
  "ask_topologies conn [] w = ([], w)"
| "ask_topologies conn (i # ids) w =
     (let (r, w1) = shard_Topology conn i w; (rs, w2) = ask_topologies conn ids w1 in ((i, r) # rs, w2))"

definition taken :: "string \<times> (go_error + string) \<Rightarrow> bool" where
  "taken answer = (case snd answer of Inl err \<Rightarrow> True | Inr topology \<Rightarrow> dedicated topology)"

definition sector_choice :: "'w ocm_connection \<Rightarrow> string \<Rightarrow> 'w \<Rightarrow> string \<times> 'w" where
  "sector_choice conn query w =
     (case raw_Get conn ''/api/osd_fleet_mgmt/v1/service_clusters'' (''search'', query) w of
        (Inl err, w1) \<Rightarrow> ([], w1)
      | (Inr body, w1) \<Rightarrow> (case decode_shards body of
          None \<Rightarrow> ([], w1)
        | Some ids \<Rightarrow> (let (answers, w2) = ask_topologies conn (filter (\<lambda>i. i \<noteq> []) ids) w1 in
            (case find taken answers of Some (i, r) \<Rightarrow> i | None \<Rightarrow> (case ids of [] \<Rightarrow> [] | i # _ \<Rightarrow> i), w2))))"

lemma fst_on_world [simp]: "fst (on_world f s) = fst (f (run_world s))"
  by (simp add: on_world_def split: prod.split)

lemma Printf_world [simp]: "run_world (Printf f as s) = run_world s"
  by (simp add: Printf_def)

lemma pick_shard_asks:
  "case pick_shard conn sector ids s of (q, s') \<Rightarrow> case ask_topologies conn (filter (\<lambda>i. i \<noteq> []) ids) (run_world s) of (answers, w) \<Rightarrow>
     q = map_option fst (find taken answers) \<and> (q = None \<longrightarrow> run_world s' = w)"
proof (induction ids arbitrary: s)
  case (Cons i ids)
  obtain r w1 where t: "shard_Topology conn i (run_world s) = (r, w1)" by (metis surj_pair)
  then have o: "on_world (shard_Topology conn i) s = (r, s\<lparr>run_world := w1\<rparr>)" by (simp add: on_world_def)
  show ?case using Cons [of s] Cons [of "s\<lparr>run_world := w1\<rparr>"] t o
    by (cases r) (auto simp: taken_def dedicated_def Let_def split: prod.splits)
qed simp

lemma pick_shard_nonempty: "pick_shard conn sector ids s = (Some i, s') \<Longrightarrow> i \<noteq> []"
  by (induction ids arbitrary: s) (auto split: if_splits prod.splits sum.splits)

lemma find_shard_choice:
  assumes "findShardForSector conn sector region status s = (r, s')"
  shows "case sector_choice conn (shard_query sector region status) (run_world s) of (i, w) \<Rightarrow>
    (case r of Inl _ \<Rightarrow> [] | Inr j \<Rightarrow> j) = i \<and> (i = [] \<longrightarrow> run_world s' = w)"
proof -
  obtain q w1 where r: "raw_Get conn ''/api/osd_fleet_mgmt/v1/service_clusters'' (''search'', shard_query sector region status) (run_world s) = (q, w1)"
    by (metis surj_pair)
  then have o: "on_world (raw_Get conn ''/api/osd_fleet_mgmt/v1/service_clusters'' (''search'', shard_query sector region status)) s
      = (q, s\<lparr>run_world := w1\<rparr>)" by (simp add: on_world_def)
  show ?thesis
  proof (cases "\<exists>body ids. q = Inr body \<and> decode_shards body = Some ids")
    case True
    then obtain body ids where b: "q = Inr body" "decode_shards body = Some ids" by blast
    obtain p s2 where p: "pick_shard conn sector ids (s\<lparr>run_world := w1\<rparr>) = (p, s2)" by (metis surj_pair)
    obtain answers w2 where a: "ask_topologies conn (filter (\<lambda>i. i \<noteq> []) ids) w1 = (answers, w2)" by (metis surj_pair)
    have "p = map_option fst (find taken answers)" "p = None \<longrightarrow> run_world s2 = w2"
      using pick_shard_asks [where conn = conn and sector = sector and ids = ids and s = "s\<lparr>run_world := w1\<rparr>"] p a by simp_all
    moreover have "p \<noteq> Some []" using pick_shard_nonempty p by blast
    ultimately show ?thesis using assms r o b p a
      by (auto simp: findShardForSector_def sector_choice_def split: option.splits list.splits)
  next
    case False
    then show ?thesis using assms r o
      by (auto simp: findShardForSector_def sector_choice_def split: sum.splits option.splits)
  qed
qed

text \<open>
  C20. resolveProvisionShard queries the fleet manager for the service clusters of the sector and region in state ready, and
  reads the topologies of their shards in the order of the answer. It takes the first shard that is dedicated or whose topology
  cannot be read, else the shard of the first service cluster. When that is empty, or the query or its decoding failed, it
  makes the same choice among those in state maintenance, in the world that the first search left; and it returns an
  error exactly when both choices are empty. This holds whatever OCM answers and however its answers change.
\<close>

theorem provision_shard_choice:
  "fst (resolveProvisionShard conn sector region s) =
    (let (ready, w1) = sector_choice conn (shard_query sector region ''ready'') (run_world s);
         (maintenance, w2) = sector_choice conn (shard_query sector region ''maintenance'') w1
     in if ready \<noteq> [] then Inr ready
        else if maintenance \<noteq> [] then Inr maintenance
        else Inl (Errorf ''no provision shard found for sector %s in region %s'' [FStr sector, FStr region]))"
proof -
  obtain r1 s1 where f1: "findShardForSector conn sector region ''ready'' s = (r1, s1)" by (metis surj_pair)
  obtain r2 s2 where f2: "findShardForSector conn sector region ''maintenance'' s1 = (r2, s2)" by (metis surj_pair)
  obtain i w1 where c1: "sector_choice conn (shard_query sector region ''ready'') (run_world s) = (i, w1)" by (metis surj_pair)
  show ?thesis
    using find_shard_choice [OF f1] find_shard_choice [OF f2] f1 f2 c1
    by (cases r1; cases r2) (auto simp: resolveProvisionShard_def Let_def split: prod.splits)
qed

section \<open>What is created\<close>

lemma random_suffix_spec:
  assumes "rand_ok rt" and "random_suffix rt n acc w = (sfx, w')"
  shows "\<exists>t. sfx = acc @ t \<and> length t = n \<and> set t \<subseteq> set charset"
  using assms(2)
proof (induction n arbitrary: acc w)
  case (Suc n)
  obtain i w1 where r: "rand_IntN rt (length charset) w = (i, w1)" by (metis surj_pair)
  have "i < length charset" using assms(1) r unfolding rand_ok_def by (metis fst_conv charset_def length_greater_0_conv list.distinct(1))
  moreover obtain t where "sfx = (acc @ [charset ! i]) @ t" "length t = n" "set t \<subseteq> set charset"
    using Suc r by fastforce
  ultimately show ?case by (intro exI [of _ "charset ! i # t"]) simp
qed simp

lemma generateClusterName_text:
  assumes "rand_ok rt" and "generateClusterName rt pfx topology w = (name, w')"
  shows "\<exists>t. length t = 5 \<and> set t \<subseteq> set charset \<and> name = pfx @ ''-'' @ (if topology = ''classic'' then ''sts'' else topology)
    @ ''-'' @ format_0102 (local_now rt w') @ ''-'' @ t"
proof -
  obtain sfx where "random_suffix rt 5 [] w = (sfx, w')"
    and n: "name = fmt_Sprintf ''%s-%s-%s-%s'' [FStr pfx, FStr (if topology = ''classic'' then ''sts'' else topology),
      FStr (format_0102 (local_now rt w')), FStr sfx]"
    using assms(2) by (auto simp: generateClusterName_def split: prod.splits)
  then have "length sfx = 5" "set sfx \<subseteq> set charset" using random_suffix_spec [OF assms(1)] by fastforce+
  then show ?thesis unfolding n by (intro exI [of _ sfx]) (simp add: fmt_Sprintf_def)
qed

lemma on_world_pair: "on_world f s = (r, s') \<longleftrightarrow> (\<exists>w'. f (run_world s) = (r, w') \<and> s' = s\<lparr>run_world := w'\<rparr>)"
  by (auto simp: on_world_def split: prod.splits)

lemma add_cluster_Inr:
  assumes "add_cluster conn announce spec s = (Inr clusterID, s')"
  shows "cluster_Build conn spec = None \<and> cluster_Add conn spec (run_world s) = (Inr clusterID, run_world s')"
  using assms by (auto simp: add_cluster_def on_world_pair split: option.splits sum.splits prod.splits)

lemma resolve_version_Inr:
  assumes "resolveVersionForTopology conn cfg topology s = (Inr v, s')"
  shows "if OpenShiftVersion cfg \<noteq> [] then v = ''openshift-v'' @ OpenShiftVersion cfg \<and> run_world s' = run_world s
    else \<exists>vs. versions_Search conn (version_query cfg topology) ''raw_id desc'' 1 (run_world s) = (Inr (v # vs), run_world s')"
  using assms by (auto simp: resolveVersionForTopology_def on_world_pair split: if_splits sum.splits prod.splits list.splits)

lemma resolve_shard_nonempty: "resolveProvisionShard conn sector region s = (Inr i, s') \<Longrightarrow> i \<noteq> []"
  by (auto simp: resolveProvisionShard_def split: prod.splits if_splits)

lemma ensure_shard_Inr:
  assumes "ensure_shard conn cfg s = (Inr cfg', s')"
  shows "cfg' = cfg\<lparr>ProvisionShardID := ProvisionShardID cfg'\<rparr> \<and> (ProvisionShardID cfg \<noteq> [] \<longrightarrow> cfg' = cfg)
    \<and> (SectorName cfg = [] \<longrightarrow> cfg' = cfg) \<and> (SectorName cfg \<noteq> [] \<longrightarrow> ProvisionShardID cfg' \<noteq> [])"
  using assms by (auto simp: ensure_shard_def dest: resolve_shard_nonempty split: if_splits sum.splits prod.splits)

text \<open>The cluster that the configuration asks for, with a name, a version and a shard, which is empty for none.\<close>

definition asked_cluster :: "Config \<Rightarrow> string \<Rightarrow> string \<Rightarrow> string \<Rightarrow> cluster_spec" where
  "asked_cluster cfg name versionID shard =
     \<lparr>cs_Name = name, cs_Product = ''rosa'', cs_CloudProvider = ''aws'', cs_Region = AWSRegion cfg,
      cs_HypershiftEnabled = Some True, cs_MultiAZ = False, cs_CCS = True, cs_SubnetIDs = SubnetIDs cfg,
      cs_RoleARN = ''arn:aws:iam::'' @ AWSAccountID cfg @ '':role/'' @ AccountRolePrefix cfg @ ''-Installer-Role'',
      cs_SupportRoleARN = ''arn:aws:iam::'' @ AWSAccountID cfg @ '':role/'' @ AccountRolePrefix cfg @ ''-Support-Role'',
      cs_OperatorRolePrefix = OperatorRolePrefix cfg, cs_OidcConfigID = Some (OIDCConfigID cfg),
      cs_BillingAccountID = (if BillingAccountID cfg = [] then None else Some (BillingAccountID cfg)),
      cs_ComputeMachineType = ComputeMachineType cfg, cs_Compute = ComputeNodes cfg,
      cs_VersionID = versionID, cs_ChannelGroup = ChannelGroup cfg,
      cs_Properties = (if shard = [] then [] else [(''provision_shard_id'', shard)]) @ [(''rosa_creator_arn'', CreatorARN cfg)]\<rparr>"

lemma role_arn_text: "role_arn cfg ''Installer-Role'' = ''arn:aws:iam::'' @ AWSAccountID cfg @ '':role/'' @ AccountRolePrefix cfg @ ''-Installer-Role''"
  "role_arn cfg ''Support-Role'' = ''arn:aws:iam::'' @ AWSAccountID cfg @ '':role/'' @ AccountRolePrefix cfg @ ''-Support-Role''"
  by (simp_all add: role_arn_def fmt_Sprintf_def)

lemma ensure_shard_cases:
  assumes "ensure_shard conn cfg s = (Inr cfg', s')"
  shows "if ProvisionShardID cfg \<noteq> [] \<or> SectorName cfg = [] then cfg' = cfg \<and> s' = s
    else \<exists>shard. resolveProvisionShard conn (SectorName cfg) (AWSRegion cfg) s = (Inr shard, s') \<and> shard \<noteq> []
      \<and> cfg' = cfg\<lparr>ProvisionShardID := shard\<rparr>"
  using assms by (auto simp: ensure_shard_def dest: resolve_shard_nonempty split: if_splits sum.splits prod.splits)

text \<open>
  C21. When CreateRosaHCPCluster returns an id, it has made these calls and no others: a name of the prefix, the date and five
  random characters; the version asked for, or the newest enabled one that OCM lists for hosted control planes; the shard of
  the configuration, or when it has none and a sector is set, the one found for the sector and region, which the
  configuration keeps; and one request for a cluster, with exactly the roles, subnets, billing account, machines,
  channel and other settings that the configuration asks for, to which OCM answered with the id. Nothing of the configuration
  but its shard changes.
\<close>

theorem hcp_cluster_created:
  assumes "rand_ok rt" and "CreateRosaHCPCluster rt conn cfg s = (Inr clusterID, cfg', s')"
  shows "\<exists>name t w1 v s2 s3. generateClusterName rt (ClusterNamePrefix cfg) ''hcp'' (run_world s) = (name, w1)
    \<and> name = ClusterNamePrefix cfg @ ''-hcp-'' @ format_0102 (local_now rt w1) @ ''-'' @ t \<and> length t = 5 \<and> set t \<subseteq> set charset
    \<and> (if OpenShiftVersion cfg \<noteq> [] then v = ''openshift-v'' @ OpenShiftVersion cfg \<and> run_world s2 = w1
       else \<exists>vs. versions_Search conn (version_query cfg ''hcp'') ''raw_id desc'' 1 w1 = (Inr (v # vs), run_world s2))
    \<and> (if ProvisionShardID cfg \<noteq> [] \<or> SectorName cfg = [] then cfg' = cfg \<and> s3 = s2
       else \<exists>shard. resolveProvisionShard conn (SectorName cfg) (AWSRegion cfg) s2 = (Inr shard, s3) \<and> shard \<noteq> []
         \<and> cfg' = cfg\<lparr>ProvisionShardID := shard\<rparr>)
    \<and> cluster_Build conn (asked_cluster cfg name v (ProvisionShardID cfg')) = None
    \<and> cluster_Add conn (asked_cluster cfg name v (ProvisionShardID cfg')) (run_world s3) = (Inr clusterID, run_world s')"
proof -
  obtain name w1 where n: "generateClusterName rt (ClusterNamePrefix cfg) ''hcp'' (run_world s) = (name, w1)" by (metis surj_pair)
  then have o: "on_world (generateClusterName rt (ClusterNamePrefix cfg) ''hcp'') s = (name, s\<lparr>run_world := w1\<rparr>)" by (simp add: on_world_def)
  obtain t where t: "length t = 5" "set t \<subseteq> set charset" "name = ClusterNamePrefix cfg @ ''-hcp-'' @ format_0102 (local_now rt w1) @ ''-'' @ t"
    using generateClusterName_text [OF assms(1) n] by auto
  obtain v s2 where v: "resolveVersionForTopology conn cfg ''hcp'' (s\<lparr>run_world := w1\<rparr>) = (Inr v, s2)"
    using assms(2) o by (auto simp: CreateRosaHCPCluster_def split: sum.splits prod.splits)
  obtain s3 where e: "ensure_shard conn cfg s2 = (Inr cfg', s3)"
    using assms(2) o v by (auto simp: CreateRosaHCPCluster_def Let_def split: sum.splits prod.splits)
  have c: "cfg' = cfg\<lparr>ProvisionShardID := ProvisionShardID cfg'\<rparr>" using ensure_shard_Inr [OF e] by blast
  let ?spec = "(base_spec cfg' name v
      (if ProvisionShardID cfg' \<noteq> [] then [(''provision_shard_id'', ProvisionShardID cfg'), (''rosa_creator_arn'', CreatorARN cfg')]
       else [(''rosa_creator_arn'', CreatorARN cfg')]))
      \<lparr>cs_HypershiftEnabled := Some True, cs_OidcConfigID := Some (OIDCConfigID cfg')\<rparr>"
  have spec: "?spec = asked_cluster cfg name v (ProvisionShardID cfg')"
    by (subst c) (subst (2) c, subst (3) c, subst (4) c, simp add: base_spec_def asked_cluster_def role_arn_text role_arn_def fmt_Sprintf_def)
  obtain s4 where a: "add_cluster conn ''Cluster %q created with ID %s'' ?spec s4 = (Inr clusterID, s')" and w: "run_world s4 = run_world s3"
    using assms(2) o v e by (auto simp: CreateRosaHCPCluster_def Let_def split: prod.splits if_splits)
  have "if OpenShiftVersion cfg \<noteq> [] then v = ''openshift-v'' @ OpenShiftVersion cfg \<and> run_world s2 = w1
      else \<exists>vs. versions_Search conn (version_query cfg ''hcp'') ''raw_id desc'' 1 w1 = (Inr (v # vs), run_world s2)"
    using resolve_version_Inr [OF v] by (auto split: if_splits)
  then show ?thesis using add_cluster_Inr [OF a, unfolded spec w] n t ensure_shard_cases [OF e] by blast
qed

section \<open>Concrete runs\<close>

definition sample_fleet :: "string \<Rightarrow> go_error + string" where
  "sample_fleet q =
     (if contains q (''('' @ apos @ ''ready'') then Inr
        (''{'' @ quote ''items'' @ '':[{'' @ quote ''provision_shard_reference'' @ '':{'' @ quote ''id'' @ '':'' @ quote ''s1'' @ ''}},{''
           @ quote ''provision_shard_reference'' @ '':{'' @ quote ''id'' @ '':'' @ quote ''s2'' @ ''}}]}'')
      else Inl (ErrorsNew ''unavailable''))"

definition sample_topology :: "string \<Rightarrow> string" where
  "sample_topology i = (if i = ''s2'' then ''dedicated'' else ''request-serving'')"

definition sample_conn :: "unit ocm_connection" where
  "sample_conn = \<lparr>
     cluster_Get = (\<lambda>i w. (Inl (ErrorsNew ''not found''), w)),
     hypershift_ManagementCluster = (\<lambda>i w. (Inr ''mc-1'', w)),
     clusters_Search = (\<lambda>q n w. (Inr (1, ''mc-id''), w)),
     cluster_Build = (\<lambda>spec. None), cluster_Add = (\<lambda>spec w. (Inr ''new'', w)),
     cluster_Delete = (\<lambda>i w. (None, w)), credentials_Kubeconfig = (\<lambda>i w. (Inr ''kubeconfig'', w)),
     versions_Search = (\<lambda>q r n w. (Inr [''openshift-v4.20.1''], w)),
     raw_Get = (\<lambda>p kq w. (sample_fleet (snd kq), w)), shard_Topology = (\<lambda>i w. (Inr (sample_topology i), w)),
     policy_Build = (\<lambda>p. None), policy_Add = (\<lambda>i t p w. (None, w)), unmarshal_error = (\<lambda>s. ErrorsNew ''json'')\<rparr>"

definition sample_rt :: "unit ocm_runtime" where
  "sample_rt = \<lparr>rand_IntN = (\<lambda>n w. (n - 1, w)),
     local_now = (\<lambda>w. \<lparr>t_year = 2025, t_month = 3, t_day = 14, t_hour = 0, t_min = 0, t_sec = 0, t_nsec = 0\<rparr>),
     unix_now = (\<lambda>w. 0), select_tick = (\<lambda>d p w. (True, w))\<rparr>"

definition sample_run :: "unit run" where
  "sample_run = \<lparr>run_world = (), run_log = []\<rparr>"

lemma sample_rand: "rand_ok sample_rt"
  by (simp add: rand_ok_def sample_rt_def)

lemma sample_shards: "decode_shards (projr (sample_fleet (shard_query ''main'' ''us-east-2'' ''ready''))) = Some [''s1'', ''s2'']"
proof -
  have "contains (shard_query ''main'' ''us-east-2'' ''ready'') (''('' @ apos @ ''ready'')" by code_simp
  moreover have "decode_shards (''{'' @ quote ''items'' @ '':[{'' @ quote ''provision_shard_reference'' @ '':{'' @ quote ''id'' @ '':'' @ quote ''s1'' @ ''}},{''
           @ quote ''provision_shard_reference'' @ '':{'' @ quote ''id'' @ '':'' @ quote ''s2'' @ ''}}]}'') = Some [''s1'', ''s2'']"
    by code_simp
  ultimately show ?thesis by (simp add: sample_fleet_def)
qed

text \<open>The second of two ready service clusters has a dedicated shard.\<close>

lemma provision_shard_choice_run: "fst (resolveProvisionShard sample_conn ''main'' ''us-east-2'' sample_run) = Inr ''s2''"
proof -
  obtain body where b: "sample_fleet (shard_query ''main'' ''us-east-2'' ''ready'') = Inr body"
  proof -
    have "contains (shard_query ''main'' ''us-east-2'' ''ready'') (''('' @ apos @ ''ready'')" by code_simp
    then show thesis using that by (simp add: sample_fleet_def)
  qed
  then have "decode_shards body = Some [''s1'', ''s2'']" using sample_shards by simp
  with b show ?thesis
    by (simp add: resolveProvisionShard_def findShardForSector_def on_world_def sample_conn_def sample_run_def sample_topology_def)
qed

definition sample_cfg :: Config where
  "sample_cfg = default_config\<lparr>ProvisionShardID := ''s7'', OpenShiftVersion := ''4.20.1''\<rparr>"

lemma sample_creation: "\<exists>s'. CreateRosaHCPCluster sample_rt sample_conn sample_cfg sample_run = (Inr ''new'', sample_cfg, s')"
proof -
  obtain name s1 where n: "on_world (generateClusterName sample_rt (ClusterNamePrefix sample_cfg) ''hcp'') sample_run = (name, s1)"
    by (metis surj_pair)
  have v: "OpenShiftVersion sample_cfg = ''4.20.1''" "ProvisionShardID sample_cfg = ''s7''" by (simp_all add: sample_cfg_def)
  have "add_cluster sample_conn f spec s = (Inr ''new'', Printf (f @ nl) [FStr (cs_Name spec), FStr ''new''] (s\<lparr>run_world := ()\<rparr>))" for f spec and s :: "unit run"
    by (simp add: add_cluster_def on_world_def sample_conn_def)
  then show ?thesis by (simp add: CreateRosaHCPCluster_def n resolveVersionForTopology_def ensure_shard_def v Let_def)
qed

theorem hcp_cluster_created_witness:
  "\<exists>t w w'. length t = 5 \<and> cluster_Add sample_conn
     (asked_cluster sample_cfg (''rosa-e2e-hcp-0314-'' @ t) ''openshift-v4.20.1'' ''s7'') w = (Inr ''new'', w')"
proof -
  obtain s' where c: "CreateRosaHCPCluster sample_rt sample_conn sample_cfg sample_run = (Inr ''new'', sample_cfg, s')"
    using sample_creation by blast
  have v: "OpenShiftVersion sample_cfg = ''4.20.1''" "ProvisionShardID sample_cfg = ''s7''" "ClusterNamePrefix sample_cfg = ''rosa-e2e''"
    by (simp_all add: sample_cfg_def default_config_def)
  have d: "format_0102 (local_now sample_rt w) = ''0314''" for w by (simp add: sample_rt_def) code_simp
  show ?thesis using hcp_cluster_created [OF sample_rand c] by (fastforce simp: v d)
qed

end
