(* ===== verification/Suite_Setup.thy ===== *)
theory Suite_Setup
  imports Ocm
begin

text \<open>
  test/e2e/setup.go: what runs before the first and after the last spec. The package variables \<open>cfg\<close> and \<open>conn\<close>, nil at
  the start, are the record \<open>suite\<close>; a panic is its text. Building and closing a connection belong to the OCM SDK and are
  parameters.
\<close>

record 'c suite =
  suite_cfg :: "Config option"
  suite_conn :: "'c option"
  suite_log :: string

definition suite_start :: "'c suite" where
  "suite_start = \<lparr>suite_cfg = None, suite_conn = None, suite_log = []\<rparr>"

definition BeforeSuite ::
  "(string \<Rightarrow> string) \<Rightarrow> (string \<Rightarrow> go_error + string) \<Rightarrow> (string \<Rightarrow> Config \<Rightarrow> go_error + Config)
   \<Rightarrow> (connection_spec \<Rightarrow> 'w \<Rightarrow> (go_error + 'c) \<times> 'w) \<Rightarrow> 'c suite \<Rightarrow> 'w \<Rightarrow> string option \<times> 'c suite \<times> 'w" where
  "BeforeSuite ge read_file yaml_Unmarshal build s w =
     (case Load ge read_file yaml_Unmarshal of
        Inl err \<Rightarrow> (Some (''failed to load config: '' @ error_text err), s\<lparr>suite_cfg := None\<rparr>, w)
      | Inr cfg \<Rightarrow> (case NewOCMConnection build ge cfg w of
            (Inl err, w1) \<Rightarrow> (Some (''failed to create OCM connection: '' @ error_text err), s\<lparr>suite_cfg := Some cfg, suite_conn := None\<rparr>, w1)
          | (Inr conn, w1) \<Rightarrow>
              (None, s\<lparr>suite_cfg := Some cfg, suite_conn := Some conn,
                 suite_log := suite_log s @ fmt_Sprintf (''Connected to OCM at %s (env: %s)'' @ nl) [FStr (OCMBaseURL ge cfg), FStr (OCMEnv cfg)]\<rparr>, w1)))"

definition AfterSuite :: "('c \<Rightarrow> 'w \<Rightarrow> go_error option \<times> 'w) \<Rightarrow> 'c suite \<Rightarrow> 'w \<Rightarrow> 'w" where
  "AfterSuite close s w = (case suite_conn s of None \<Rightarrow> w | Some conn \<Rightarrow> snd (close conn w))"

section \<open>The credentials of the connection\<close>

text \<open>A connection uses the token of the environment, or else both client credentials of the environment.\<close>

definition environment_credentials :: "(string \<Rightarrow> string) \<Rightarrow> connection_spec \<Rightarrow> bool" where
  "environment_credentials ge cn \<longleftrightarrow>
     (if ge ''OCM_TOKEN'' \<noteq> [] then cn_Tokens cn = Some (ge ''OCM_TOKEN'')
      else cn_Tokens cn = None \<and> ge ''OCM_CLIENT_ID'' \<noteq> [] \<and> ge ''OCM_CLIENT_SECRET'' \<noteq> []
         \<and> cn_ClientID cn = ge ''OCM_CLIENT_ID'' \<and> cn_ClientSecret cn = ge ''OCM_CLIENT_SECRET'')"

lemma connection_credentials:
  assumes "yaml_keeps_secrets yaml" and "Load ge rf yaml = Inr c"
  shows "environment_credentials ge (connection_builder ge c)"
  using load_secrets_from_environment [OF assms]
  by (auto simp: environment_credentials_def connection_builder_def secrets_def)

lemma BeforeSuite_cases:
  "BeforeSuite ge rf yaml build suite_start w = (p, s, w') \<longleftrightarrow>
     (\<exists>e. Load ge rf yaml = Inl e \<and> p = Some (''failed to load config: '' @ error_text e) \<and> s = suite_start \<and> w' = w)
   \<or> (\<exists>c e. Load ge rf yaml = Inr c \<and> build (connection_builder ge c) w = (Inl e, w')
        \<and> p = Some (''failed to create OCM connection: building OCM connection: '' @ error_text e)
        \<and> s = suite_start\<lparr>suite_cfg := Some c\<rparr>)
   \<or> (\<exists>c conn. Load ge rf yaml = Inr c \<and> build (connection_builder ge c) w = (Inr conn, w') \<and> p = None
        \<and> s = \<lparr>suite_cfg = Some c, suite_conn = Some conn,
               suite_log = ''Connected to OCM at '' @ OCMBaseURL ge c @ '' (env: '' @ OCMEnv c @ '')'' @ nl\<rparr>)"
  by (auto simp: BeforeSuite_def NewOCMConnection_def suite_start_def fmt_Sprintf_def nl_def split: sum.splits prod.splits)

text \<open>
  C33. The specs start exactly when the configuration loads and a connection can be built from it. The connection then
  authenticates with the token or else with the two client credentials of the environment, never with values of the
  configuration file, and AfterSuite closes that connection. In every other case the suite panics with a text that contains
  the cause, no connection is kept, and AfterSuite does nothing.
\<close>

theorem suite_setup_outcome:
  assumes "yaml_keeps_secrets yaml" and "BeforeSuite ge rf yaml build suite_start w = (p, s, w')"
  shows "(p = None \<longleftrightarrow> (\<exists>c conn. Load ge rf yaml = Inr c \<and> fst (build (connection_builder ge c) w) = Inr conn))
   \<and> (p = None \<longrightarrow> (\<exists>c conn. suite_cfg s = Some c \<and> suite_conn s = Some conn \<and> Load ge rf yaml = Inr c
        \<and> build (connection_builder ge c) w = (Inr conn, w') \<and> environment_credentials ge (connection_builder ge c)
        \<and> cn_URL (connection_builder ge c) = OCMBaseURL ge c \<and> AfterSuite close s w' = snd (close conn w')))
   \<and> (p \<noteq> None \<longrightarrow> suite_conn s = None \<and> AfterSuite close s w' = w'
        \<and> (\<exists>e. contains (the p) (error_text e) \<and>
             (Load ge rf yaml = Inl e \<or> (\<exists>c. Load ge rf yaml = Inr c \<and> fst (build (connection_builder ge c) w) = Inl e))))"
proof -
  have url: "cn_URL (connection_builder ge c) = OCMBaseURL ge c" for c by (simp add: connection_builder_def split_def Let_def)
  consider e where "Load ge rf yaml = Inl e" "p = Some (''failed to load config: '' @ error_text e)" "s = suite_start"
    | c e where "Load ge rf yaml = Inr c" "build (connection_builder ge c) w = (Inl e, w')"
        "p = Some (''failed to create OCM connection: building OCM connection: '' @ error_text e)" "s = suite_start\<lparr>suite_cfg := Some c\<rparr>"
    | c conn where "Load ge rf yaml = Inr c" "build (connection_builder ge c) w = (Inr conn, w')" "p = None"
        "suite_cfg s = Some c" "suite_conn s = Some conn"
    using assms(2) unfolding BeforeSuite_cases by (auto simp: suite_start_def)
  then show ?thesis
  proof cases
    case (1 e)
    have "contains (the p) (error_text e)" unfolding 1(2) by (simp add: contains_intros del: append.simps)
    then show ?thesis using 1 by (auto simp: AfterSuite_def suite_start_def)
  next
    case (2 c e)
    have "contains (the p) (error_text e)" unfolding 2(3) by (simp add: contains_intros del: append.simps)
    then show ?thesis using 2 by (auto simp: AfterSuite_def suite_start_def)
  next
    case (3 c conn)
    then show ?thesis using connection_credentials [OF assms(1) 3(1)] by (auto simp: AfterSuite_def url)
  qed
qed

theorem suite_setup_outcome_witness:
  "\<exists>c s. BeforeSuite sample_env (\<lambda>p. Inr ''eu-west-1'') sample_yaml (\<lambda>cn w. (Inr (cn_Tokens cn), w)) suite_start () = (None, s, ())
     \<and> suite_cfg s = Some c \<and> suite_conn s = Some (Some ''t'')"
proof -
  let ?b = "\<lambda>cn w. (Inr (cn_Tokens cn), w) :: (go_error + string option) \<times> unit"
  obtain c where l: "Load sample_env (\<lambda>p. Inr ''eu-west-1'') sample_yaml = Inr c" using sample_load by blast
  have y: "yaml_keeps_secrets sample_yaml" by (auto simp: yaml_keeps_secrets_def sample_yaml_def secrets_def)
  obtain p s where r: "BeforeSuite sample_env (\<lambda>p. Inr ''eu-west-1'') sample_yaml ?b suite_start () = (p, s, ())"
    by (rule prod_cases3 [of "BeforeSuite sample_env (\<lambda>p. Inr ''eu-west-1'') sample_yaml ?b suite_start ()"]) simp
  have p: "p = None" using suite_setup_outcome [OF y r] l by simp
  then obtain c' conn where c: "suite_cfg s = Some c'" "suite_conn s = Some conn" "conn = cn_Tokens (connection_builder sample_env c')"
    "environment_credentials sample_env (connection_builder sample_env c')"
    using suite_setup_outcome [OF y r] by auto
  have "conn = Some ''t''" using c(3,4) by (simp add: environment_credentials_def sample_env_def)
  then show ?thesis using r p c by auto
qed

end
