(* ===== verification/Aws_Verifiers.thy ===== *)
theory Aws_Verifiers
  imports Item_Checks Go_Json
begin

text \<open>
  The verifiers of pkg/verifiers that read AWS: tags.go (the tags of the EBS volumes), kms.go (their
  encryption and the health of the KMS key) and cloudtrail.go (denied API calls). The AWS clients are
  outside the repository: they are the record \<open>aws_clients\<close> of operations on the state \<open>'w\<close> of the outside world.

  The sources dereference pointers of the responses without a check in some places; a nil pointer there
  panics, and then the result is \<open>Inl NilDereference\<close>. A Go map is an association list with distinct keys,
  and a \<open>range\<close> over it visits its entries in an order that Go leaves open: the k-th visit follows
  \<open>shuffle k\<close>, of which \<open>map_range_ok\<close> says that it is a permutation.
\<close>

section \<open>Data and clients\<close>

datatype go_panic = NilDereference

record volume =
  vol_VolumeId :: "string option"
  vol_Tags :: "(string option \<times> string option) list" \<comment> \<open>Key, Value\<close>
  vol_Encrypted :: "bool option"
  vol_KmsKeyId :: "string option"
  vol_AttachmentDevices :: "string option list" \<comment> \<open>Device of each attachment\<close>

record DescribeVolumesInput =
  dvi_Filters :: "(string \<times> string list) list" \<comment> \<open>Name, Values\<close>
  dvi_VolumeIds :: "string list"

record key_metadata =
  km_Enabled :: bool
  km_DeletionDate :: "go_time option"
  km_KeyUsage :: string

record trail_event =
  ev_CloudTrailEvent :: "string option"
  ev_EventName :: "string option"
  ev_EventTime :: "go_time option"

record 'w aws_clients =
  DescribeVolumes :: "DescribeVolumesInput \<Rightarrow> 'w \<Rightarrow> (go_error + volume list) \<times> 'w"
  DescribeKey :: "string \<Rightarrow> 'w \<Rightarrow> (go_error + key_metadata option) \<times> 'w"
  GetKeyPolicy :: "string \<Rightarrow> string \<Rightarrow> 'w \<Rightarrow> (go_error + string option) \<times> 'w" \<comment> \<open>key, policy name\<close>
  LookupEvents :: "int \<Rightarrow> string option \<Rightarrow> 'w \<Rightarrow> (go_error + trail_event list \<times> string option) \<times> 'w"
    \<comment> \<open>start time, token; the events and the token of the next page\<close>

definition map_range_ok :: "(nat \<Rightarrow> 'a list \<Rightarrow> 'a list) \<Rightarrow> bool" where
  "map_range_ok shuffle \<longleftrightarrow> (\<forall>k xs. mset (shuffle k xs) = mset xs)"

definition owned_volumes :: "string \<Rightarrow> DescribeVolumesInput" where
  "owned_volumes clusterID =
     \<lparr>dvi_Filters = [(''tag:'' @ fmt_Sprintf ''kubernetes.io/cluster/%s'' [FStr clusterID], [''owned''])], dvi_VolumeIds = []\<rparr>"

section \<open>tags.go\<close>

fun volume_tag_map :: "(string option \<times> string option) list \<Rightarrow> (string \<rightharpoonup> string) \<Rightarrow> go_panic + (string \<rightharpoonup> string)" where
  "volume_tag_map [] volumeTags = Inr volumeTags"
| "volume_tag_map ((Some key, Some val) # tags) volumeTags = volume_tag_map tags (volumeTags(key \<mapsto> val))"
| "volume_tag_map (_ # tags) volumeTags = Inl NilDereference"

definition expected_tag_problems :: "string \<Rightarrow> (string \<rightharpoonup> string) \<Rightarrow> string \<times> string \<Rightarrow> string list" where
  "expected_tag_problems volumeID volumeTags expected =
     (case volumeTags (fst expected) of
        None \<Rightarrow> [fmt_Sprintf ''volume %s missing tag %s'' [FStr volumeID, FStr (fst expected)]]
      | Some actualValue \<Rightarrow>
          if actualValue \<noteq> snd expected
          then [fmt_Sprintf ''volume %s tag %s has value %q, expected %q''
                  [FStr volumeID, FStr (fst expected), FStr actualValue, FStr (snd expected)]]
          else [])"

definition volume_tags_item ::
  "(nat \<Rightarrow> (string \<times> string) list \<Rightarrow> (string \<times> string) list) \<Rightarrow> (string \<times> string) list \<Rightarrow> nat \<times> volume \<Rightarrow> go_panic + string list" where
  "volume_tags_item shuffle expectedTags = (\<lambda>(k, vol).
     case vol_VolumeId vol of
       None \<Rightarrow> Inl NilDereference
     | Some volumeID \<Rightarrow> (case volume_tag_map (vol_Tags vol) Map.empty of
         Inl p \<Rightarrow> Inl p
       | Inr volumeTags \<Rightarrow> Inr (concat (map (expected_tag_problems volumeID volumeTags) (shuffle k expectedTags)))))"

definition VerifyEBSVolumesTags ::
  "'w aws_clients \<Rightarrow> (nat \<Rightarrow> (string \<times> string) list \<Rightarrow> (string \<times> string) list) \<Rightarrow> string \<Rightarrow> (string \<times> string) list \<Rightarrow> 'w
   \<Rightarrow> go_panic + go_error option \<times> 'w" where
  "VerifyEBSVolumesTags aws shuffle clusterID expectedTags w =
     (case DescribeVolumes aws (owned_volumes clusterID) w of
        (Inl err, w') \<Rightarrow> Inr (Some (Errorf ''describing volumes: %w'' [FErr err]), w')
      | (Inr volumes, w') \<Rightarrow>
          if volumes = [] then Inr (Some (Errorf ''no volumes found for cluster %s'' [FStr clusterID]), w')
          else (case scan_items (volume_tags_item shuffle expectedTags) (List.enumerate 0 volumes) of
            Inl p \<Rightarrow> Inl p
          | Inr missingTags \<Rightarrow>
              if missingTags \<noteq> []
              then Inr (Some (Errorf (''tag validation failed:'' @ nl @ ''%s'') [FStr (str_join nl missingTags)]), w')
              else Inr (None, w')))"

section \<open>kms.go\<close>

fun root_device :: "string option list \<Rightarrow> bool" where
  "root_device [] = False"
| "root_device (None # devices) = root_device devices"
| "root_device (Some device # devices) =
     (if device = ''/dev/sda1'' \<or> device = ''/dev/xvda'' then True else root_device devices)"

definition isRootVolume :: "volume \<Rightarrow> bool" where
  "isRootVolume vol = root_device (vol_AttachmentDevices vol)"

definition volume_key :: "volume \<Rightarrow> string" where
  "volume_key vol = (case vol_KmsKeyId vol of None \<Rightarrow> [] | Some k \<Rightarrow> k)"

definition volume_encryption_item :: "string \<Rightarrow> volume \<Rightarrow> go_panic + string list" where
  "volume_encryption_item kmsKeyARN vol =
     (case vol_VolumeId vol of
        None \<Rightarrow> Inl NilDereference
      | Some volumeID \<Rightarrow>
          if vol_Encrypted vol = None \<or> vol_Encrypted vol = Some False
          then Inr [fmt_Sprintf ''volume %s is not encrypted'' [FStr volumeID]]
          else if kmsKeyARN = [] \<or> \<not> isRootVolume vol then Inr []
          else if volume_key vol \<noteq> kmsKeyARN
          then Inr [fmt_Sprintf ''root volume %s is encrypted with %q, expected the cluster KMS key %q''
                      [FStr volumeID, FStr (volume_key vol), FStr kmsKeyARN]]
          else Inr [])"

definition VerifyEBSVolumesEncrypted :: "'w aws_clients \<Rightarrow> string \<Rightarrow> string \<Rightarrow> 'w \<Rightarrow> go_panic + go_error option \<times> 'w" where
  "VerifyEBSVolumesEncrypted aws clusterID kmsKeyARN w =
     (case DescribeVolumes aws (owned_volumes clusterID) w of
        (Inl err, w') \<Rightarrow> Inr (Some (Errorf ''describing volumes: %w'' [FErr err]), w')
      | (Inr volumes, w') \<Rightarrow>
          if volumes = [] then Inr (Some (Errorf ''no volumes found for cluster %s'' [FStr clusterID]), w')
          else (case scan_items (volume_encryption_item kmsKeyARN) volumes of
            Inl p \<Rightarrow> Inl p
          | Inr problems \<Rightarrow>
              if problems \<noteq> []
              then Inr (Some (Errorf (''EBS encryption validation failed:'' @ nl @ ''%s'') [FStr (str_join nl problems)]), w')
              else Inr (None, w')))"

definition VerifyEBSVolumeEncryptedWithKey :: "'w aws_clients \<Rightarrow> string \<Rightarrow> string \<Rightarrow> 'w \<Rightarrow> go_error option \<times> 'w" where
  "VerifyEBSVolumeEncryptedWithKey aws volumeID kmsKeyARN w =
     (case DescribeVolumes aws \<lparr>dvi_Filters = [], dvi_VolumeIds = [volumeID]\<rparr> w of
        (Inl err, w') \<Rightarrow> (Some (Errorf ''describing volume %s: %w'' [FStr volumeID, FErr err]), w')
      | (Inr volumes, w') \<Rightarrow>
          (case volumes of
             [] \<Rightarrow> (Some (Errorf ''volume %s not found'' [FStr volumeID]), w')
           | vol # _ \<Rightarrow>
               if vol_Encrypted vol = None \<or> vol_Encrypted vol = Some False
               then (Some (Errorf ''volume %s is not encrypted'' [FStr volumeID]), w')
               else if volume_key vol \<noteq> kmsKeyARN
               then (Some (Errorf ''volume %s is encrypted with %q, expected KMS key %q''
                       [FStr volumeID, FStr (volume_key vol), FStr kmsKeyARN]), w')
               else (None, w')))"

definition key_problems :: "key_metadata \<Rightarrow> string list" where
  "key_problems metadata =
     (if \<not> km_Enabled metadata then [''key is not enabled''] else [])
     @ (case km_DeletionDate metadata of
          None \<Rightarrow> []
        | Some t \<Rightarrow> [fmt_Sprintf ''key is scheduled for deletion at %s'' [FOpaque (time_String t)]])
     @ (if km_KeyUsage metadata \<noteq> ''ENCRYPT_DECRYPT''
        then [fmt_Sprintf ''key usage is %q, expected ENCRYPT_DECRYPT'' [FStr (km_KeyUsage metadata)]] else [])"

definition VerifyKMSKeyHealthy :: "'w aws_clients \<Rightarrow> string \<Rightarrow> string \<Rightarrow> 'w \<Rightarrow> go_error option \<times> 'w" where
  "VerifyKMSKeyHealthy aws keyARN operatorRolePrefix w =
     (case DescribeKey aws keyARN w of
        (Inl err, w1) \<Rightarrow> (Some (Errorf ''describing KMS key: %w'' [FErr err]), w1)
      | (Inr None, w1) \<Rightarrow> (Some (Errorf ''KMS key %s has no metadata'' [FStr keyARN]), w1)
      | (Inr (Some metadata), w1) \<Rightarrow>
          (case GetKeyPolicy aws keyARN ''default'' w1 of
             (Inl err, w2) \<Rightarrow> (Some (Errorf ''getting KMS key policy: %w'' [FErr err]), w2)
           | (Inr policy, w2) \<Rightarrow>
               (let problems = key_problems metadata
                  @ (if policy = None \<or> \<not> contains (the policy) operatorRolePrefix
                     then [fmt_Sprintf ''key policy does not reference the cluster operator roles (prefix %q)'' [FStr operatorRolePrefix]]
                     else [])
                in if problems \<noteq> []
                   then (Some (Errorf (''KMS key %s is unhealthy:'' @ nl @ ''%s'') [FStr keyARN, FStr (str_join nl problems)]), w2)
                   else (None, w2))))"

section \<open>cloudtrail.go\<close>

record knownDenial =
  kd_eventName :: string
  kd_rolePattern :: string

definition knownAccessDeniedEvents :: "knownDenial list" where
  "knownAccessDeniedEvents = [\<lparr>kd_eventName = ''DeleteListener'', kd_rolePattern = ''Installer-Role''\<rparr>]"

fun known_denial_in :: "knownDenial list \<Rightarrow> string \<Rightarrow> string \<Rightarrow> bool" where
  "known_denial_in [] eventName callerARN = False"
| "known_denial_in (k # ks) eventName callerARN =
     (if kd_eventName k = eventName \<and> contains callerARN (kd_rolePattern k) then True else known_denial_in ks eventName callerARN)"

definition isKnownDenial :: "string \<Rightarrow> string \<Rightarrow> bool" where
  "isKnownDenial eventName callerARN = known_denial_in knownAccessDeniedEvents eventName callerARN"

definition callerARNFromEvent :: "json_object \<Rightarrow> string" where
  "callerARNFromEvent eventData =
     (case field_as as_obj eventData ''userIdentity'' of
        None \<Rightarrow> []
      | Some identity \<Rightarrow> (case field_as as_str identity ''arn'' of
          Some arn \<Rightarrow> arn
        | None \<Rightarrow> (case field_as as_obj identity ''sessionContext'' of
            None \<Rightarrow> []
          | Some sessionCtx \<Rightarrow> (case field_as as_obj sessionCtx ''sessionIssuer'' of
              None \<Rightarrow> []
            | Some sessionIssuer \<Rightarrow> str_or_empty sessionIssuer ''arn''))))"

definition denied_text :: "string \<Rightarrow> string \<Rightarrow> bool" where
  "denied_text errorCode errorMessage \<longleftrightarrow>
     contains errorCode ''AccessDenied'' \<or> contains errorCode ''UnauthorizedAccess''
     \<or> contains errorMessage ''AccessDenied'' \<or> contains errorMessage ''UnauthorizedAccess''"

text \<open>The body of the loop over the events of a page: the lines it appends, none or one.\<close>

definition denied_event :: "string \<Rightarrow> trail_event \<Rightarrow> string list" where
  "denied_event filterString event =
     (case (ev_CloudTrailEvent event, ev_EventName event, ev_EventTime event) of
        (Some eventJSON, Some eventName, Some eventTime) \<Rightarrow>
          if filterString \<noteq> [] \<and> \<not> contains eventJSON filterString then []
          else (case unmarshal_map eventJSON of
            None \<Rightarrow> []
          | Some eventData \<Rightarrow>
              (let errorCode = str_or_empty eventData ''errorCode''; errorMessage = str_or_empty eventData ''errorMessage'' in
               if denied_text errorCode errorMessage then
                 (let callerARN = callerARNFromEvent eventData in
                  if isKnownDenial eventName callerARN then []
                  else [fmt_Sprintf ''- %s at %s: %s - %s (caller: %s)''
                          [FStr eventName, FStr (format_RFC3339 eventTime), FStr errorCode, FStr errorMessage, FStr callerARN]])
               else []))
      | _ \<Rightarrow> [])"

definition maxPages :: nat where "maxPages = 5"

fun lookup_pages ::
  "'w aws_clients \<Rightarrow> string \<Rightarrow> int \<Rightarrow> nat \<Rightarrow> string option \<Rightarrow> string list \<Rightarrow> 'w \<Rightarrow> (go_error + string list) \<times> 'w" where
  "lookup_pages aws filterString startTime 0 nextToken deniedEvents w = (Inr deniedEvents, w)"
| "lookup_pages aws filterString startTime (Suc pages) nextToken deniedEvents w =
     (case LookupEvents aws startTime nextToken w of
        (Inl err, w') \<Rightarrow> (Inl (Errorf ''looking up CloudTrail events: %w'' [FErr err]), w')
      | (Inr (events, token), w') \<Rightarrow>
          (let denied = deniedEvents @ concat (map (denied_event filterString) events) in
           if token = None then (Inr denied, w')
           else lookup_pages aws filterString startTime pages token denied w'))"

definition VerifyNoAccessDenied :: "'w go_runtime \<Rightarrow> 'w aws_clients \<Rightarrow> string \<Rightarrow> int \<Rightarrow> 'w \<Rightarrow> go_error option \<times> 'w" where
  "VerifyNoAccessDenied rt aws filterString lookback w =
     (let startTime = time_now rt w + (- lookback) in
      case lookup_pages aws filterString startTime maxPages None [] w of
        (Inl e, w') \<Rightarrow> (Some e, w')
      | (Inr deniedEvents, w') \<Rightarrow>
          if deniedEvents \<noteq> []
          then (Some (Errorf (''found %d AccessDenied events matching %q in the last %s:'' @ nl @ ''%s'')
                  [FInt (int (length deniedEvents)), FStr filterString, FDur lookback, FStr (str_join nl deniedEvents)]), w')
          else (None, w'))"

section \<open>Tags\<close>

text \<open>The value of a tag: when a key occurs more than once, the last occurrence.\<close>

definition last_tag :: "volume \<Rightarrow> string \<Rightarrow> string option" where
  "last_tag vol key = (case map_of (rev (vol_Tags vol)) (Some key) of None \<Rightarrow> None | Some v \<Rightarrow> v)"

definition complete_volume :: "volume \<Rightarrow> bool" where
  "complete_volume vol \<longleftrightarrow> vol_VolumeId vol \<noteq> None \<and> list_all (\<lambda>(k, v). k \<noteq> None \<and> v \<noteq> None) (vol_Tags vol)"

definition well_tagged :: "(string \<times> string) list \<Rightarrow> volume \<Rightarrow> bool" where
  "well_tagged expected vol \<longleftrightarrow> complete_volume vol \<and> list_all (\<lambda>(k, v). last_tag vol k = Some v) expected"

lemma volume_tag_map_complete:
  "list_all (\<lambda>(k, v). k \<noteq> None \<and> v \<noteq> None) tags \<Longrightarrow>
     volume_tag_map tags m = Inr (\<lambda>k. case map_of (rev tags) (Some k) of None \<Rightarrow> m k | Some v \<Rightarrow> v)"
proof (induction tags arbitrary: m)
  case (Cons t tags)
  obtain key val where t: "t = (Some key, Some val)" using Cons.prems by (cases t) auto
  show ?case using Cons by (simp add: t) (auto simp: fun_eq_iff map_add_def split: option.splits)
qed simp

lemma volume_tag_map_incomplete:
  "\<not> list_all (\<lambda>(k, v). k \<noteq> None \<and> v \<noteq> None) tags \<Longrightarrow> volume_tag_map tags m = Inl NilDereference"
  by (induction tags m rule: volume_tag_map.induct) simp_all

lemma volume_tags_complete:
  "complete_volume vol \<Longrightarrow> volume_tag_map (vol_Tags vol) Map.empty = Inr (last_tag vol)"
  "\<not> complete_volume vol \<Longrightarrow> vol_VolumeId vol \<noteq> None \<Longrightarrow> volume_tag_map (vol_Tags vol) Map.empty = Inl NilDereference"
  by (auto simp: volume_tag_map_complete volume_tag_map_incomplete complete_volume_def last_tag_def fun_eq_iff)

lemma expected_tag_problems_Nil: "expected_tag_problems volumeID m e = [] \<longleftrightarrow> m (fst e) = Some (snd e)"
  by (auto simp: expected_tag_problems_def split: option.splits)

lemma expected_tag_problems_name:
  assumes "p \<in> set (expected_tag_problems volumeID m e)"
  shows "contains p volumeID \<and> contains p (fst e)"
proof -
  obtain f as where p: "p = fmt_Sprintf f (FStr volumeID # FStr (fst e) # as)" and f: "fmt_verbs f ! 0 = CHR ''s''"
    "fmt_verbs f ! 1 = CHR ''s''" "1 < length (fmt_verbs f)"
    using assms unfolding expected_tag_problems_def by (fastforce split: option.splits if_splits)
  show ?thesis
    unfolding p using f by (auto intro: Sprintf_contains_str [where i = 0] Sprintf_contains_str [where i = 1])
qed

lemma map_range_set: "map_range_ok shuffle \<Longrightarrow> set (shuffle k xs) = set xs"
  by (metis map_range_ok_def set_mset_mset)

lemma volume_tags_item_accepts:
  assumes "map_range_ok shuffle"
  shows "volume_tags_item shuffle expected (k, vol) = Inr [] \<longleftrightarrow> well_tagged expected vol"
  using volume_tags_complete [of vol]
  by (cases "complete_volume vol"; cases "vol_VolumeId vol")
     (auto simp: volume_tags_item_def well_tagged_def expected_tag_problems_Nil map_range_set [OF assms] list_all_iff
        complete_volume_def)

lemma volume_tags_item_reports:
  assumes "map_range_ok shuffle" and "complete_volume vol" and "(key, val) \<in> set expected" and "last_tag vol key \<noteq> Some val"
  shows "\<exists>ps. volume_tags_item shuffle expected (k, vol) = Inr ps \<and>
    (\<exists>p \<in> set ps. contains p (the (vol_VolumeId vol)) \<and> contains p key)"
proof -
  obtain volumeID where i: "vol_VolumeId vol = Some volumeID" using assms(2) by (auto simp: complete_volume_def)
  have "expected_tag_problems volumeID (last_tag vol) (key, val) \<noteq> []"
    using assms(4) by (simp add: expected_tag_problems_Nil)
  then obtain p where "p \<in> set (expected_tag_problems volumeID (last_tag vol) (key, val))" by (meson hd_in_set)
  moreover from this have "contains p volumeID \<and> contains p key" using expected_tag_problems_name by fastforce
  ultimately show ?thesis
    using assms(3) i volume_tags_complete(1) [OF assms(2)] map_range_set [OF assms(1)]
    by (fastforce simp: volume_tags_item_def)
qed

lemma enumerate_all: "(\<forall>x \<in> set (List.enumerate n xs). P (snd x)) \<longleftrightarrow> list_all P xs"
  by (induction xs arbitrary: n) auto

lemma enumerate_member: "x \<in> set xs \<Longrightarrow> \<exists>i. (i, x) \<in> set (List.enumerate n xs)"
  by (induction xs arbitrary: n) auto

lemma tags_error_text: "p \<in> set ps \<Longrightarrow> contains (error_text (Errorf (''tag validation failed:'' @ nl @ ''%s'') [FStr (str_join nl ps)])) p"
  by (rule contains_trans [OF Errorf_contains_str [where i = 0] contains_join]) (simp_all add: nl_def)

text \<open>
  VerifyEBSVolumesTags passes exactly when every volume that the cluster owns has an id and each expected
  tag with its expected value, whatever order the tags are visited in; and when it returns an error after
  the volumes were listed, the error names every volume and tag that is missing or has another value.
\<close>

theorem ebs_tags_verdict:
  assumes "map_range_ok shuffle" and "DescribeVolumes aws (owned_volumes clusterID) w = (Inr vols, w')" and "vols \<noteq> []"
  shows "(VerifyEBSVolumesTags aws shuffle clusterID expected w = Inr (None, w') \<longleftrightarrow> list_all (well_tagged expected) vols)
    \<and> (\<forall>e vol key val. VerifyEBSVolumesTags aws shuffle clusterID expected w = Inr (Some e, w') \<longrightarrow> vol \<in> set vols \<longrightarrow>
         complete_volume vol \<longrightarrow> (key, val) \<in> set expected \<longrightarrow> last_tag vol key \<noteq> Some val \<longrightarrow>
         contains (error_text e) (the (vol_VolumeId vol)) \<and> contains (error_text e) key)"
proof
  let ?s = "scan_items (volume_tags_item shuffle expected) (List.enumerate 0 vols)"
  have "?s = Inr [] \<longleftrightarrow> (\<forall>x \<in> set (List.enumerate 0 vols). well_tagged expected (snd x))"
    unfolding scan_items_Nil_iff using volume_tags_item_accepts [OF assms(1)] by (metis prod.collapse)
  then show "VerifyEBSVolumesTags aws shuffle clusterID expected w = Inr (None, w') \<longleftrightarrow> list_all (well_tagged expected) vols"
    using assms(2,3) unfolding enumerate_all VerifyEBSVolumesTags_def by (auto split: sum.splits)
next
  show "\<forall>e vol key val. VerifyEBSVolumesTags aws shuffle clusterID expected w = Inr (Some e, w') \<longrightarrow> vol \<in> set vols \<longrightarrow>
         complete_volume vol \<longrightarrow> (key, val) \<in> set expected \<longrightarrow> last_tag vol key \<noteq> Some val \<longrightarrow>
         contains (error_text e) (the (vol_VolumeId vol)) \<and> contains (error_text e) key"
  proof (intro allI impI)
    fix e vol key val
    assume run: "VerifyEBSVolumesTags aws shuffle clusterID expected w = Inr (Some e, w')" and v: "vol \<in> set vols"
      and c: "complete_volume vol" and k: "(key, val) \<in> set expected" "last_tag vol key \<noteq> Some val"
    obtain ps where ps: "scan_items (volume_tags_item shuffle expected) (List.enumerate 0 vols) = Inr ps"
      and e: "e = Errorf (''tag validation failed:'' @ nl @ ''%s'') [FStr (str_join nl ps)]"
      using run assms(2,3) by (auto simp: VerifyEBSVolumesTags_def split: sum.splits if_splits)
    obtain i where "(i, vol) \<in> set (List.enumerate 0 vols)" using enumerate_member [OF v] by blast
    then obtain qs where "volume_tags_item shuffle expected (i, vol) = Inr qs" "set qs \<subseteq> set ps"
      using scan_items_collects [OF ps] by blast
    then obtain p where "p \<in> set ps" "contains p (the (vol_VolumeId vol))" "contains p key"
      using volume_tags_item_reports [OF assms(1) c k, of i] by auto
    then show "contains (error_text e) (the (vol_VolumeId vol)) \<and> contains (error_text e) key"
      unfolding e by (meson contains_trans tags_error_text)
  qed
qed

section \<open>Encryption\<close>

lemma root_device_iff: "root_device ds \<longleftrightarrow> Some ''/dev/sda1'' \<in> set ds \<or> Some ''/dev/xvda'' \<in> set ds"
  by (induction ds rule: root_device.induct) auto

definition encrypted_as_asked :: "string \<Rightarrow> volume \<Rightarrow> bool" where
  "encrypted_as_asked kmsKeyARN vol \<longleftrightarrow> vol_VolumeId vol \<noteq> None \<and> vol_Encrypted vol = Some True \<and>
     (kmsKeyARN = [] \<or> vol_KmsKeyId vol = Some kmsKeyARN
      \<or> Some ''/dev/sda1'' \<notin> set (vol_AttachmentDevices vol) \<and> Some ''/dev/xvda'' \<notin> set (vol_AttachmentDevices vol))"

lemma volume_encryption_accepts: "volume_encryption_item kmsKeyARN vol = Inr [] \<longleftrightarrow> encrypted_as_asked kmsKeyARN vol"
proof -
  have "vol_Encrypted vol = Some True \<longleftrightarrow> \<not> (vol_Encrypted vol = None \<or> vol_Encrypted vol = Some False)"
    by (cases "vol_Encrypted vol") auto
  then show ?thesis
    by (auto simp: volume_encryption_item_def encrypted_as_asked_def isRootVolume_def root_device_iff volume_key_def
        split: option.splits)
qed

interpretation volume_encryption: item_check "volume_encryption_item kmsKeyARN" "encrypted_as_asked kmsKeyARN" for kmsKeyARN
  by unfold_locales (rule volume_encryption_accepts)

lemma encryption_verdict_ok:
  assumes "DescribeVolumes aws (owned_volumes clusterID) w = (r, w')"
  shows "VerifyEBSVolumesEncrypted aws clusterID kmsKeyARN w = Inr (None, w') \<longleftrightarrow>
    (\<exists>vols. r = Inr vols \<and> vols \<noteq> [] \<and> list_all (encrypted_as_asked kmsKeyARN) vols)"
proof (cases r)
  case (Inr vols)
  then have "VerifyEBSVolumesEncrypted aws clusterID kmsKeyARN w = Inr (None, w') \<longleftrightarrow>
      vols \<noteq> [] \<and> scan_items (volume_encryption_item kmsKeyARN) vols = Inr []"
    using assms by (auto simp: VerifyEBSVolumesEncrypted_def split: sum.splits)
  with Inr show ?thesis by (simp add: volume_encryption.scan_accepts list_all_iff)
qed (use assms in \<open>simp add: VerifyEBSVolumesEncrypted_def\<close>)


section \<open>Denied calls\<close>

text \<open>An event that the check has to report: a denial that matches the filter and is not on the list of known ones.\<close>

definition unexpected_denial :: "string \<Rightarrow> trail_event \<Rightarrow> bool" where
  "unexpected_denial filterString event \<longleftrightarrow>
     (\<exists>eventJSON eventName eventTime m.
        ev_CloudTrailEvent event = Some eventJSON \<and> ev_EventName event = Some eventName \<and> ev_EventTime event = Some eventTime
        \<and> (filterString = [] \<or> contains eventJSON filterString) \<and> unmarshal_map eventJSON = Some m
        \<and> denied_text (str_or_empty m ''errorCode'') (str_or_empty m ''errorMessage'')
        \<and> \<not> (eventName = ''DeleteListener'' \<and> contains (callerARNFromEvent m) ''Installer-Role''))"

lemma isKnownDenial_iff: "isKnownDenial n a \<longleftrightarrow> n = ''DeleteListener'' \<and> contains a ''Installer-Role''"
  by (auto simp: isKnownDenial_def knownAccessDeniedEvents_def)

lemma denied_event_Nil: "denied_event f ev = [] \<longleftrightarrow> \<not> unexpected_denial f ev"
  by (auto simp: denied_event_def unexpected_denial_def isKnownDenial_iff Let_def split: option.splits)

lemma denied_event_length: "length (denied_event f ev) = (if unexpected_denial f ev then 1 else 0)"
  by (auto simp: denied_event_def unexpected_denial_def isKnownDenial_iff Let_def split: option.splits)

lemma denied_lines:
  "length (concat (map (denied_event f) evs)) = length (filter (unexpected_denial f) evs)"
  by (induction evs) (auto simp: denied_event_length)

lemma no_denied_lines:
  "concat (map (denied_event f) evs) = [] \<longleftrightarrow> filter (unexpected_denial f) evs = []"
  by (metis denied_lines length_0_conv)

text \<open>
  The pages of the log that a run of requests reads: each request is made in the state that the one before left,
  with the token it returned, and another one follows only a page that came with a token. The last two arguments are
  the token and the state after the last page.
\<close>

inductive trail_read ::
  "'w aws_clients \<Rightarrow> int \<Rightarrow> string option \<Rightarrow> 'w \<Rightarrow> trail_event list list \<Rightarrow> string option \<Rightarrow> 'w \<Rightarrow> bool"
  for aws startTime where
  nothing: "trail_read aws startTime token w [] token w"
| page: "LookupEvents aws startTime token w = (Inr (events, token1), w1) \<Longrightarrow> token1 \<noteq> None \<or> pages = [] \<Longrightarrow>
    trail_read aws startTime token1 w1 pages token' w' \<Longrightarrow>
    trail_read aws startTime token w (events # pages) token' w'"

inductive_simps trail_read_simps [simp]:
  "trail_read aws startTime token w [] token' w'"
  "trail_read aws startTime token w (events # pages) token' w'"

text \<open>How the reading ends: with the last page, with the last page that the bound allows, or with a failed request.\<close>

definition trail_end :: "nat \<Rightarrow> trail_event list list \<Rightarrow> string option \<Rightarrow> bool" where
  "trail_end bound pages token \<longleftrightarrow> pages \<noteq> [] \<and> (token = None \<or> length pages = bound) \<and> length pages \<le> bound"

definition trail_wanted :: "nat \<Rightarrow> trail_event list list \<Rightarrow> string option \<Rightarrow> bool" where
  "trail_wanted bound pages token \<longleftrightarrow> (pages = [] \<or> token \<noteq> None) \<and> length pages < bound"

lemma lookup_pages_read:
  "\<exists>pages token' w1. trail_read aws start token w pages token' w1
     \<and> (trail_end (Suc n) pages token'
          \<and> lookup_pages aws f start (Suc n) token acc w = (Inr (acc @ concat (map (denied_event f) (concat pages))), w1)
      \<or> trail_wanted (Suc n) pages token'
          \<and> (\<exists>err w2. LookupEvents aws start token' w1 = (Inl err, w2)
              \<and> lookup_pages aws f start (Suc n) token acc w = (Inl (Errorf ''looking up CloudTrail events: %w'' [FErr err]), w2)))"
proof (induction n arbitrary: token acc w)
  case 0
  obtain r w1 where l: "LookupEvents aws start token w = (r, w1)" by (metis surj_pair)
  show ?case
  proof (cases r)
    case (Inl err)
    with l show ?thesis by (intro exI [of _ "[]"] exI [of _ token] exI [of _ w]) (simp add: trail_wanted_def)
  next
    case (Inr p)
    with l show ?thesis
      by (cases p) (intro exI [of _ "[fst p]"] exI [of _ "snd p"] exI [of _ w1], simp add: trail_end_def Let_def)
  qed
next
  case (Suc n)
  obtain r w1 where l: "LookupEvents aws start token w = (r, w1)" by (metis surj_pair)
  show ?case
  proof (cases r)
    case (Inl err)
    with l show ?thesis by (intro exI [of _ "[]"] exI [of _ token] exI [of _ w]) (simp add: trail_wanted_def)
  next
    case (Inr p)
    obtain evs t1 where p: "p = (evs, t1)" by (metis surj_pair)
    show ?thesis
    proof (cases t1)
      case None
      with l Inr p show ?thesis
        by (intro exI [of _ "[evs]"] exI [of _ None] exI [of _ w1]) (simp add: trail_end_def Let_def)
    next
      case (Some t)
      let ?acc = "acc @ concat (map (denied_event f) evs)"
      have step: "lookup_pages aws f start (Suc (Suc n)) token acc w = lookup_pages aws f start (Suc n) t1 ?acc w1"
        using l Inr p Some by simp
      obtain pages token' w2 where IH: "trail_read aws start t1 w1 pages token' w2"
        "trail_end (Suc n) pages token'
          \<and> lookup_pages aws f start (Suc n) t1 ?acc w1 = (Inr (?acc @ concat (map (denied_event f) (concat pages))), w2)
        \<or> trail_wanted (Suc n) pages token'
          \<and> (\<exists>err w3. LookupEvents aws start token' w2 = (Inl err, w3)
              \<and> lookup_pages aws f start (Suc n) t1 ?acc w1 = (Inl (Errorf ''looking up CloudTrail events: %w'' [FErr err]), w3))"
        using Suc.IH [of t1 w1 ?acc] by blast
      have "trail_read aws start token w (evs # pages) token' w2" using l Inr p Some IH(1) by auto
      moreover have "token' \<noteq> None" if "pages = []" using that IH(1) Some by simp
      ultimately show ?thesis
        using IH(2) unfolding step
        by (intro exI [of _ "evs # pages"] exI [of _ token'] exI [of _ w2])
           (auto simp: trail_end_def trail_wanted_def)
    qed
  qed
qed

text \<open>
  C26. VerifyNoAccessDenied reads the log from the start of the lookback window, page after page and at most five
  pages: it stops at a page without a token, at the fifth page or at a failed request, whose error it returns. When no
  request fails it passes exactly when none of the events on the pages it read is a denied call that matches the filter
  and is not on the list of known denials, and else it reports one line for each such event. The events of
  later pages are not looked at. Events without a body, a name or a time, and bodies that are not JSON,
  never make it fail.
\<close>

theorem access_denied_verdict:
  "\<exists>pages token w1. trail_read aws (time_now rt w - lookback) None w pages token w1
    \<and> (trail_end 5 pages token
        \<and> (\<exists>denials lines. denials = filter (unexpected_denial filterString) (concat pages) \<and> length lines = length denials
            \<and> VerifyNoAccessDenied rt aws filterString lookback w =
                (if denials = [] then None
                 else Some (Errorf (''found %d AccessDenied events matching %q in the last %s:'' @ nl @ ''%s'')
                        [FInt (int (length denials)), FStr filterString, FDur lookback, FStr (str_join nl lines)]), w1))
      \<or> trail_wanted 5 pages token
        \<and> (\<exists>err w2. LookupEvents aws (time_now rt w - lookback) token w1 = (Inl err, w2)
            \<and> VerifyNoAccessDenied rt aws filterString lookback w
              = (Some (Errorf ''looking up CloudTrail events: %w'' [FErr err]), w2)))"
proof -
  let ?start = "time_now rt w - lookback"
  have five: "maxPages = 5" "Suc 4 = 5" by (simp_all add: maxPages_def)
  obtain pages token w1 where r: "trail_read aws ?start None w pages token w1"
    "trail_end 5 pages token
        \<and> lookup_pages aws filterString ?start maxPages None [] w = (Inr (concat (map (denied_event filterString) (concat pages))), w1)
      \<or> trail_wanted 5 pages token
        \<and> (\<exists>err w2. LookupEvents aws ?start token w1 = (Inl err, w2)
            \<and> lookup_pages aws filterString ?start maxPages None [] w = (Inl (Errorf ''looking up CloudTrail events: %w'' [FErr err]), w2))"
    using lookup_pages_read [of aws ?start None w 4 filterString "[]", unfolded five append_Nil] five by metis
  from r(2) show ?thesis
  proof (elim disjE exE conjE)
    assume "trail_end 5 pages token" and l: "lookup_pages aws filterString ?start maxPages None [] w =
      (Inr (concat (map (denied_event filterString) (concat pages))), w1)"
    then show ?thesis using r(1)
      by (intro exI [of _ pages] exI [of _ token] exI [of _ w1] conjI disjI1
            exI [of _ "concat (map (denied_event filterString) (concat pages))"] exI [of _ "filter (unexpected_denial filterString) (concat pages)"])
         (simp_all add: VerifyNoAccessDenied_def denied_lines no_denied_lines del: concat_eq_Nil_conv filter_concat filter_empty_conv)
  next
    fix err w2
    assume "trail_wanted 5 pages token" "LookupEvents aws ?start token w1 = (Inl err, w2)"
      "lookup_pages aws filterString ?start maxPages None [] w = (Inl (Errorf ''looking up CloudTrail events: %w'' [FErr err]), w2)"
    then show ?thesis using r(1)
      by (intro exI [of _ pages] exI [of _ token] exI [of _ w1]) (simp add: VerifyNoAccessDenied_def)
  qed
qed

section \<open>Concrete runs\<close>

text \<open>
  Clients that answer from fixed data: a list of volumes, and a log whose page tokens are page numbers. The last
  event of the sample log, on its sixth page, is a denied call.
\<close>

definition sample_aws :: "volume list \<Rightarrow> trail_event list list \<Rightarrow> unit aws_clients" where
  "sample_aws vols pages = \<lparr>DescribeVolumes = (\<lambda>i w. (Inr vols, w)), DescribeKey = (\<lambda>k w. (Inr None, w)),
     GetKeyPolicy = (\<lambda>k n w. (Inr None, w)),
     LookupEvents = (\<lambda>start tok w.
       (let i = (case tok of None \<Rightarrow> 0 | Some t \<Rightarrow> nat_of_digits t) in
        (Inr (pages ! i, if Suc i < length pages then Some (show_nat (Suc i)) else None), w)))\<rparr>"

definition sample_volume :: volume where
  "sample_volume = \<lparr>vol_VolumeId = Some ''vol-1'', vol_Tags = [(Some ''env'', Some ''dev''), (Some ''env'', Some ''qa'')],
     vol_Encrypted = Some True, vol_KmsKeyId = Some ''key-1'', vol_AttachmentDevices = [None, Some ''/dev/xvda'']\<rparr>"

definition sample_denial :: trail_event where
  "sample_denial = \<lparr>ev_CloudTrailEvent = Some (''{'' @ quote ''errorCode'' @ '': '' @ quote ''AccessDenied'' @ ''}''),
     ev_EventName = Some ''RunInstances'',
     ev_EventTime = Some \<lparr>t_year = 2025, t_month = 1, t_day = 2, t_hour = 3, t_min = 4, t_sec = 5, t_nsec = 0\<rparr>\<rparr>"

definition sample_log :: "trail_event list list" where
  "sample_log = replicate 5 [] @ [[sample_denial]]"

definition alternate :: "nat \<Rightarrow> 'a list \<Rightarrow> 'a list" where
  "alternate k xs = (if even k then xs else rev xs)"

lemma alternate_range: "map_range_ok alternate"
  by (simp add: map_range_ok_def alternate_def)

lemma sample_denial_reported: "unexpected_denial [] sample_denial"
proof -
  have "unmarshal_map (''{'' @ quote ''errorCode'' @ '': '' @ quote ''AccessDenied'' @ ''}'') = Some [(''errorCode'', JStr ''AccessDenied'')]"
    by code_simp
  then show ?thesis
    by (simp add: unexpected_denial_def sample_denial_def denied_text_def str_or_empty_def field_as_def)
qed

theorem ebs_tags_verdict_witness:
  "VerifyEBSVolumesTags (sample_aws [sample_volume] []) alternate ''c1'' [(''env'', ''qa'')] () = Inr (None, ())
   \<and> VerifyEBSVolumesTags (sample_aws [sample_volume] []) alternate ''c1'' [(''env'', ''dev'')] () \<noteq> Inr (None, ())"
  using ebs_tags_verdict [OF alternate_range, of "sample_aws [sample_volume] []" "''c1''" "()" "[sample_volume]" "()"]
  by (simp add: sample_aws_def sample_volume_def well_tagged_def complete_volume_def last_tag_def)


text \<open>
  On the sample log five empty pages are read and the check passes; the denied call on the sixth page is not seen. With
  the denied call on the first page, the check reports one line.
\<close>

lemma access_denied_runs:
  "fst (VerifyNoAccessDenied \<lparr>time_now = (\<lambda>w. 0), select_done = (\<lambda>d w. (None, w))\<rparr> (sample_aws [] sample_log) [] (60 * minute) ()) = None"
  "unexpected_denial [] (last (concat sample_log))"
  "fst (VerifyNoAccessDenied \<lparr>time_now = (\<lambda>w. 0), select_done = (\<lambda>d w. (None, w))\<rparr> (sample_aws [] (rev sample_log)) [] (60 * minute) ()) \<noteq> None"
proof -
  show "unexpected_denial [] (last (concat sample_log))" using sample_denial_reported by (simp add: sample_log_def)
  have l: "lookup_pages (sample_aws [] pages) f start (Suc n) tok acc w =
      (let i = (case tok of None \<Rightarrow> 0 | Some t \<Rightarrow> nat_of_digits t);
           denied = acc @ concat (map (denied_event f) (pages ! i))
       in if Suc i < length pages then lookup_pages (sample_aws [] pages) f start n (Some (show_nat (Suc i))) denied w
          else (Inr denied, w))" for pages f start n tok acc w
    by (simp add: sample_aws_def Let_def)
  show "fst (VerifyNoAccessDenied \<lparr>time_now = (\<lambda>w. 0), select_done = (\<lambda>d w. (None, w))\<rparr> (sample_aws [] sample_log) [] (60 * minute) ()) = None"
    by (simp add: VerifyNoAccessDenied_def maxPages_def eval_nat_numeral l sample_log_def Let_def del: lookup_pages.simps(2))
  have "denied_event [] sample_denial \<noteq> []" using sample_denial_reported denied_event_Nil by simp
  then show "fst (VerifyNoAccessDenied \<lparr>time_now = (\<lambda>w. 0), select_done = (\<lambda>d w. (None, w))\<rparr> (sample_aws [] (rev sample_log)) [] (60 * minute) ()) \<noteq> None"
    by (simp add: VerifyNoAccessDenied_def maxPages_def eval_nat_numeral l sample_log_def Let_def del: lookup_pages.simps(2))
qed

end
