(* ===== verification/Ocm_Lifecycle.thy ===== *)
theory Ocm_Lifecycle
  imports Ocm
begin

text \<open>
  The wait loop of pkg/framework/ocm.go (WaitForClusterReady), the upgrades of pkg/framework/upgrade.go, and the checks
  of a cluster in pkg/verifiers/cluster.go and classic.go. A wait loop selects between the end of its context and
  a tick of its ticker; the choice is the environment's (\<open>select_tick\<close>), since both may be ready at once.
\<close>

section \<open>Waiting\<close>

definition wait_ready_body ::
  "'w ocm_runtime \<Rightarrow> 'w ocm_connection \<Rightarrow> string \<Rightarrow> int \<Rightarrow> int \<Rightarrow> 'w run \<Rightarrow> go_error option option \<times> 'w run" where
  "wait_ready_body rt conn clusterID timeout deadline s =
     (case on_world (select_tick rt deadline pollInterval) s of
        (True, s1) \<Rightarrow> (Some (Some (Errorf ''timed out waiting for cluster %s to be ready after %v'' [FStr clusterID, FDur timeout])), s1)
      | (False, s1) \<Rightarrow> (case on_world (cluster_Get conn clusterID) s1 of
            (Inl err, s2) \<Rightarrow> (None, Printf (''Error polling cluster %s status: %v'' @ nl) [FStr clusterID, FErr err] s2)
          | (Inr cluster, s2) \<Rightarrow>
              (let state = oc_State cluster; s3 = Printf (''Cluster %s state: %s'' @ nl) [FStr clusterID, FStr state] s2 in
               if state = ''ready'' then (Some None, s3)
               else if state = ''error'' then (Some (Some (Errorf ''cluster %s entered error state'' [FStr clusterID])), s3)
               else if state = ''uninstalling'' then (Some (Some (Errorf ''cluster %s is uninstalling unexpectedly'' [FStr clusterID])), s3)
               else (None, s3))))"

definition ready_timeout :: "int \<Rightarrow> int" where
  "ready_timeout timeout = (if timeout = 0 then defaultReadyTimout else timeout)"

definition WaitForClusterReady ::
  "'w ocm_runtime \<Rightarrow> 'w ocm_connection \<Rightarrow> string \<Rightarrow> int \<Rightarrow> 'w run \<Rightarrow> (go_error option \<times> 'w run) option" where
  "WaitForClusterReady rt conn clusterID timeout s =
     (let timeout' = ready_timeout timeout; deadline = unix_now rt (run_world s) + timeout' in
      poll_loop (wait_ready_body rt conn clusterID timeout' deadline) s)"

definition wait_upgrade_body ::
  "'w ocm_runtime \<Rightarrow> 'w ocm_connection \<Rightarrow> string \<Rightarrow> string \<Rightarrow> int \<Rightarrow> 'w run \<Rightarrow> go_error option option \<times> 'w run" where
  "wait_upgrade_body rt conn clusterID targetVersion deadline s =
     (case on_world (select_tick rt deadline (30 * second)) s of
        (True, s1) \<Rightarrow> (Some (Some (Errorf ''timed out waiting for cluster %s to reach version %s'' [FStr clusterID, FStr targetVersion])), s1)
      | (False, s1) \<Rightarrow> (case on_world (cluster_Get conn clusterID) s1 of
            (Inl err, s2) \<Rightarrow> (None, Printf (''Error polling cluster version: %v'' @ nl) [FErr err] s2)
          | (Inr cluster, s2) \<Rightarrow>
              (let currentVersion = oc_VersionRawID cluster;
                   s3 = Printf (''Cluster version: %s, waiting for %s'' @ nl) [FStr currentVersion, FStr targetVersion] s2 in
               if currentVersion = targetVersion then (Some None, s3) else (None, s3))))"

definition WaitForUpgradeComplete ::
  "'w ocm_runtime \<Rightarrow> 'w ocm_connection \<Rightarrow> string \<Rightarrow> string \<Rightarrow> int \<Rightarrow> 'w run \<Rightarrow> (go_error option \<times> 'w run) option" where
  "WaitForUpgradeComplete rt conn clusterID targetVersion timeout s =
     poll_loop (wait_upgrade_body rt conn clusterID targetVersion (unix_now rt (run_world s) + timeout)) s"

section \<open>Upgrades\<close>

definition upgrade_policy_for :: "'w ocm_runtime \<Rightarrow> string \<Rightarrow> string \<Rightarrow> 'w run \<Rightarrow> upgrade_policy" where
  "upgrade_policy_for rt targetVersion kind s =
     \<lparr>up_Version = targetVersion, up_ScheduleType = ''manual'', up_UpgradeType = kind,
      up_NextRun = unix_now rt (run_world s) + 5 * minute\<rparr>"

definition InitiateControlPlaneUpgrade ::
  "'w ocm_runtime \<Rightarrow> 'w ocm_connection \<Rightarrow> string \<Rightarrow> string \<Rightarrow> 'w run \<Rightarrow> go_error option \<times> 'w run" where
  "InitiateControlPlaneUpgrade rt conn clusterID targetVersion s =
     (let policy = upgrade_policy_for rt targetVersion ''ControlPlane'' s in
      case policy_Build conn policy of
        Some err \<Rightarrow> (Some (Errorf ''building upgrade policy: %w'' [FErr err]), s)
      | None \<Rightarrow> (case on_world (policy_Add conn clusterID ControlPlanePolicies policy) s of
            (Some err, s1) \<Rightarrow> (Some (Errorf ''creating control plane upgrade policy: %w'' [FErr err]), s1)
          | (None, s1) \<Rightarrow> (None, Printf (''Control plane upgrade to %s scheduled for cluster %s'' @ nl) [FStr targetVersion, FStr clusterID] s1)))"

definition InitiateClusterUpgrade ::
  "'w ocm_runtime \<Rightarrow> 'w ocm_connection \<Rightarrow> string \<Rightarrow> string \<Rightarrow> 'w run \<Rightarrow> go_error option \<times> 'w run" where
  "InitiateClusterUpgrade rt conn clusterID targetVersion s =
     (let policy = upgrade_policy_for rt targetVersion ''OSD'' s in
      case policy_Build conn policy of
        Some err \<Rightarrow> (Some (Errorf ''building upgrade policy: %w'' [FErr err]), s)
      | None \<Rightarrow> (case on_world (policy_Add conn clusterID ClusterPolicies policy) s of
            (Some err, s1) \<Rightarrow> (Some (Errorf ''creating cluster upgrade policy: %w'' [FErr err]), s1)
          | (None, s1) \<Rightarrow> (None, Printf (''Classic cluster upgrade to %s scheduled for cluster %s'' @ nl) [FStr targetVersion, FStr clusterID] s1)))"

definition InitiateNodePoolUpgrade ::
  "'w ocm_runtime \<Rightarrow> 'w ocm_connection \<Rightarrow> string \<Rightarrow> string \<Rightarrow> string \<Rightarrow> 'w run \<Rightarrow> go_error option \<times> 'w run" where
  "InitiateNodePoolUpgrade rt conn clusterID nodePoolID targetVersion s =
     (let policy = upgrade_policy_for rt targetVersion ''NodePool'' s in
      case policy_Build conn policy of
        Some err \<Rightarrow> (Some (Errorf ''building nodepool upgrade policy: %w'' [FErr err]), s)
      | None \<Rightarrow> (case on_world (policy_Add conn clusterID (NodePoolPolicies nodePoolID) policy) s of
            (Some err, s1) \<Rightarrow> (Some (Errorf ''creating nodepool upgrade policy: %w'' [FErr err]), s1)
          | (None, s1) \<Rightarrow> (None, Printf (''NodePool %s upgrade to %s scheduled for cluster %s'' @ nl)
              [FStr nodePoolID, FStr targetVersion, FStr clusterID] s1)))"

section \<open>cluster.go and classic.go\<close>

definition verify_cluster_state :: "string \<Rightarrow> 'w ocm_connection \<Rightarrow> string \<Rightarrow> 'w \<Rightarrow> go_error option \<times> 'w" where
  "verify_cluster_state expected conn clusterID w =
     (case cluster_Get conn clusterID w of
        (Inl err, w') \<Rightarrow> (Some (Errorf ''getting cluster %s: %w'' [FStr clusterID, FErr err]), w')
      | (Inr cluster, w') \<Rightarrow>
          if oc_State cluster \<noteq> expected
          then (Some (Errorf ''expected cluster %s state to be %q, got %q'' [FStr clusterID, FStr expected, FStr (oc_State cluster)]), w')
          else (None, w'))"

definition VerifyClusterReady :: "'w ocm_connection \<Rightarrow> string \<Rightarrow> 'w \<Rightarrow> go_error option \<times> 'w" where
  "VerifyClusterReady = verify_cluster_state ''ready''"

definition VerifyClusterDeleting :: "'w ocm_connection \<Rightarrow> string \<Rightarrow> 'w \<Rightarrow> go_error option \<times> 'w" where
  "VerifyClusterDeleting = verify_cluster_state ''uninstalling''"

text \<open>\<open>list_pools\<close> is the request MachinePools().List(): the status and the total of the response.\<close>

definition VerifyMachinePoolsExist :: "(string \<Rightarrow> 'w \<Rightarrow> (go_error + int \<times> int) \<times> 'w) \<Rightarrow> string \<Rightarrow> 'w \<Rightarrow> go_error option \<times> 'w" where
  "VerifyMachinePoolsExist list_pools clusterID w =
     (case list_pools clusterID w of
        (Inl err, w') \<Rightarrow> (Some (Errorf ''listing machine pools for cluster %s: %w'' [FStr clusterID, FErr err]), w')
      | (Inr (status, tot), w') \<Rightarrow>
          if status \<noteq> 200
          then (Some (Errorf ''unexpected status %d listing machine pools for cluster %s'' [FInt status, FStr clusterID]), w')
          else if tot = 0 then (Some (Errorf ''no machine pools found for cluster %s'' [FStr clusterID]), w')
          else (None, w'))"

section \<open>What a wait returns\<close>

text \<open>
  What a round of a wait sees: the end of the context, a failed request, or the cluster. \<open>ready_verdict\<close> and
  \<open>upgrade_verdict\<close> say what the wait should make of it.
\<close>

datatype poll_sight = DeadlinePassed | Unreachable | Saw ocm_cluster

definition cluster_sight :: "'w ocm_runtime \<Rightarrow> 'w ocm_connection \<Rightarrow> string \<Rightarrow> int \<Rightarrow> 'w run \<Rightarrow> poll_sight" where
  "cluster_sight rt conn clusterID deadline s =
     (case on_world (select_tick rt deadline (30 * second)) s of
        (True, s1) \<Rightarrow> DeadlinePassed
      | (False, s1) \<Rightarrow> (case fst (cluster_Get conn clusterID (run_world s1)) of Inl _ \<Rightarrow> Unreachable | Inr c \<Rightarrow> Saw c))"

fun ready_verdict :: "string \<Rightarrow> int \<Rightarrow> poll_sight \<Rightarrow> go_error option option" where
  "ready_verdict clusterID timeout DeadlinePassed =
     Some (Some (Errorf ''timed out waiting for cluster %s to be ready after %v'' [FStr clusterID, FDur timeout]))"
| "ready_verdict clusterID timeout Unreachable = None"
| "ready_verdict clusterID timeout (Saw c) =
     map_of [(''ready'', None), (''error'', Some (Errorf ''cluster %s entered error state'' [FStr clusterID])),
       (''uninstalling'', Some (Errorf ''cluster %s is uninstalling unexpectedly'' [FStr clusterID]))] (oc_State c)"

fun upgrade_verdict :: "string \<Rightarrow> string \<Rightarrow> poll_sight \<Rightarrow> go_error option option" where
  "upgrade_verdict clusterID target DeadlinePassed =
     Some (Some (Errorf ''timed out waiting for cluster %s to reach version %s'' [FStr clusterID, FStr target]))"
| "upgrade_verdict clusterID target Unreachable = None"
| "upgrade_verdict clusterID target (Saw c) = (if oc_VersionRawID c = target then Some None else None)"

interpretation ready_wait: observed_poll "wait_ready_body rt conn clusterID timeout deadline"
  "cluster_sight rt conn clusterID deadline" "ready_verdict clusterID timeout" for rt conn clusterID timeout deadline
proof
  fix s
  show "fst (wait_ready_body rt conn clusterID timeout deadline s) =
      ready_verdict clusterID timeout (cluster_sight rt conn clusterID deadline s)"
    by (auto simp: wait_ready_body_def cluster_sight_def pollInterval_def on_world_def Let_def
        split: prod.splits bool.splits sum.splits)
qed

interpretation upgrade_wait: observed_poll "wait_upgrade_body rt conn clusterID targetVersion deadline"
  "cluster_sight rt conn clusterID deadline" "upgrade_verdict clusterID targetVersion" for rt conn clusterID targetVersion deadline
proof
  fix s
  show "fst (wait_upgrade_body rt conn clusterID targetVersion deadline s) =
      upgrade_verdict clusterID targetVersion (cluster_sight rt conn clusterID deadline s)"
    by (auto simp: wait_upgrade_body_def cluster_sight_def on_world_def Let_def split: prod.splits bool.splits sum.splits)
qed

text \<open>What the i-th round of a wait that started in \<open>s\<close> sees.\<close>

definition ready_sight ::
  "'w ocm_runtime \<Rightarrow> 'w ocm_connection \<Rightarrow> string \<Rightarrow> int \<Rightarrow> 'w run \<Rightarrow> nat \<Rightarrow> poll_sight" where
  "ready_sight rt conn clusterID timeout s i =
     (let deadline = unix_now rt (run_world s) + ready_timeout timeout in
      cluster_sight rt conn clusterID deadline
        (poll_state (wait_ready_body rt conn clusterID (ready_timeout timeout) deadline) i s))"

definition upgrade_sight ::
  "'w ocm_runtime \<Rightarrow> 'w ocm_connection \<Rightarrow> string \<Rightarrow> string \<Rightarrow> int \<Rightarrow> 'w run \<Rightarrow> nat \<Rightarrow> poll_sight" where
  "upgrade_sight rt conn clusterID target timeout s i =
     (let deadline = unix_now rt (run_world s) + timeout in
      cluster_sight rt conn clusterID deadline (poll_state (wait_upgrade_body rt conn clusterID target deadline) i s))"

lemma upgrade_wait_verdict:
  "(\<exists>s'. WaitForUpgradeComplete rt conn clusterID target timeout s = Some (r, s')) \<longleftrightarrow>
     (\<exists>n. list_all (\<lambda>i. upgrade_verdict clusterID target (upgrade_sight rt conn clusterID target timeout s i) = None) [0..<n]
        \<and> upgrade_verdict clusterID target (upgrade_sight rt conn clusterID target timeout s n) = Some r)"
  unfolding WaitForUpgradeComplete_def upgrade_sight_def Let_def by (rule upgrade_wait.first_verdict)

text \<open>
  C17. WaitForClusterReady returns what the first decisive round of its loop calls for: nil when that round saw the
  cluster ready, an error when it saw the cluster in state error or uninstalling or when the context ended
  first; failed requests and other states never decide. It returns at all exactly when some round is decisive, so a
  wait whose context ends does not hang.
\<close>

theorem cluster_ready_wait:
  "((\<exists>s'. WaitForClusterReady rt conn clusterID timeout s = Some (r, s')) \<longleftrightarrow>
      (\<exists>n. list_all (\<lambda>i. ready_verdict clusterID (ready_timeout timeout) (ready_sight rt conn clusterID timeout s i) = None) [0..<n]
         \<and> ready_verdict clusterID (ready_timeout timeout) (ready_sight rt conn clusterID timeout s n) = Some r))
   \<and> (WaitForClusterReady rt conn clusterID timeout s \<noteq> None \<longleftrightarrow>
      (\<exists>n. ready_verdict clusterID (ready_timeout timeout) (ready_sight rt conn clusterID timeout s n) \<noteq> None))"
  unfolding WaitForClusterReady_def ready_sight_def Let_def
  by (rule conjI [OF ready_wait.first_verdict ready_wait.returns_iff])

end
