(* ===== verification/Ocm_Org.thy ===== *)
theory Ocm_Org
  imports Go_Json
begin

text \<open>
  pkg/verifiers/ocm_role.go (the OCM roles linked to an organization) and external_auth.go (the external
  authentication of a cluster and the reachability of its issuers). The OCM calls, the ARN parser of the AWS SDK and the
  HTTP client are outside the repository: they are parameters. An HTTP response is its status and the
  body that was read, with the error of the read if it broke off.
\<close>

section \<open>HTTP\<close>

record http_request =
  rq_Method :: string
  rq_URL :: string
  rq_Headers :: "(string \<times> string) list"
  rq_Body :: string

record http_response =
  hr_StatusCode :: int
  hr_Status :: string
  hr_Body :: string
  hr_ReadError :: "go_error option"

record 'w http_client =
  check_request :: "string \<Rightarrow> string \<Rightarrow> go_error option" \<comment> \<open>the error of NewRequestWithContext: method, URL\<close>
  http_Do :: "int \<Rightarrow> http_request \<Rightarrow> 'w \<Rightarrow> (go_error + http_response) \<times> 'w" \<comment> \<open>timeout of the client\<close>
  decode_error :: "string \<Rightarrow> go_error" \<comment> \<open>the error of encoding/json on a text it refuses\<close>

section \<open>ocm_role.go\<close>

record role_arn_parts =
  arn_Service :: string
  arn_AccountID :: string
  arn_Resource :: string

record 'w accounts_api =
  current_organization :: "'w \<Rightarrow> (go_error + string option) \<times> 'w" \<comment> \<open>the id of Organization(), if it is not nil\<close>
  organization_label :: "string \<Rightarrow> string \<Rightarrow> 'w \<Rightarrow> (go_error + string) \<times> 'w" \<comment> \<open>organization, key\<close>
  error_status :: "go_error \<Rightarrow> int option" \<comment> \<open>the status of an error that is an ocmerrors.Error\<close>
  arn_Parse :: "string \<Rightarrow> go_error + role_arn_parts"

definition ocmRoleLabelKey :: string where "ocmRoleLabelKey = ''sts_ocm_role''"

fun linked_arns :: "(string \<Rightarrow> go_error + role_arn_parts) \<Rightarrow> string list \<Rightarrow> string list \<Rightarrow> string list" where
  "linked_arns parse [] arns = arns"
| "linked_arns parse (part # parts) arns =
     (let trimmed = trim_space part in
      if trimmed = [] then linked_arns parse parts arns
      else (case parse trimmed of
          Inl perr \<Rightarrow> linked_arns parse parts arns
        | Inr parsed \<Rightarrow>
            if arn_AccountID parsed = [] \<or> arn_Service parsed \<noteq> ''iam'' \<or> \<not> has_prefix (arn_Resource parsed) ''role/''
            then linked_arns parse parts arns
            else linked_arns parse parts (arns @ [trimmed])))"

definition GetLinkedOCMRoleARNs :: "'w accounts_api \<Rightarrow> 'w \<Rightarrow> (go_error + string list) \<times> 'w" where
  "GetLinkedOCMRoleARNs am w =
     (case current_organization am w of
        (Inl err, w1) \<Rightarrow> (Inl (Errorf ''getting current account: %w'' [FErr err]), w1)
      | (Inr org, w1) \<Rightarrow>
          if org = None \<or> org = Some [] then (Inl (Errorf ''current account has no organization'' []), w1)
          else (case organization_label am (the org) ocmRoleLabelKey w1 of
              (Inl err, w2) \<Rightarrow>
                if error_status am err = Some 404 then (Inr [], w2)
                else (Inl (Errorf ''getting %s label for organization %s: %w'' [FStr ocmRoleLabelKey, FStr (the org), FErr err]), w2)
            | (Inr val, w2) \<Rightarrow>
                if val = [] then (Inr [], w2)
                else (Inr (linked_arns (arn_Parse am) (split_on (CHR '','') val) []), w2)))"

definition VerifyOCMRoleLinked :: "'w accounts_api \<Rightarrow> 'w \<Rightarrow> go_error option \<times> 'w" where
  "VerifyOCMRoleLinked am w =
     (case GetLinkedOCMRoleARNs am w of
        (Inl err, w') \<Rightarrow> (Some err, w')
      | (Inr arns, w') \<Rightarrow>
          if arns = [] then (Some (Errorf ''no OCM role is linked to the organization (required by ROSA-637)'' []), w')
          else (None, w'))"

fun account_linked :: "(string \<Rightarrow> go_error + role_arn_parts) \<Rightarrow> string \<Rightarrow> string list \<Rightarrow> bool" where
  "account_linked parse awsAccountID [] = False"
| "account_linked parse awsAccountID (a # arns) =
     (case parse a of
        Inl perr \<Rightarrow> account_linked parse awsAccountID arns
      | Inr parsed \<Rightarrow> if arn_AccountID parsed = awsAccountID then True else account_linked parse awsAccountID arns)"

definition VerifyOCMRoleLinkedForAccount :: "'w accounts_api \<Rightarrow> string \<Rightarrow> 'w \<Rightarrow> go_error option \<times> 'w" where
  "VerifyOCMRoleLinkedForAccount am awsAccountID w =
     (if awsAccountID = [] then (Some (Errorf ''awsAccountID is required to verify OCM role linkage'' []), w)
      else (case GetLinkedOCMRoleARNs am w of
          (Inl err, w') \<Rightarrow> (Some err, w')
        | (Inr arns, w') \<Rightarrow>
            if account_linked (arn_Parse am) awsAccountID arns then (None, w')
            else (Some (Errorf ''no OCM role linked for AWS account %s (found %d linked role(s)); OCM role linkage is required by ROSA-637''
                    [FStr awsAccountID, FInt (int (length arns))]), w')))"

section \<open>external_auth.go\<close>

record token_issuer =
  is_URL :: string
  is_Audiences :: "string list"

record external_auth =
  ea_ID :: string
  ea_Issuer :: "token_issuer option"
  ea_Status :: "(string option \<times> string) option" \<comment> \<open>Status(): the value of State(), if not nil, and Message()\<close>

record 'w auth_api =
  auth_Enabled :: "string \<Rightarrow> 'w \<Rightarrow> (go_error + bool) \<times> 'w"
  auth_List :: "string \<Rightarrow> 'w \<Rightarrow> (go_error + external_auth list) \<times> 'w"

definition externalAuthAPITimeout :: int where "externalAuthAPITimeout = 30 * second"

definition ExternalAuthEnabled :: "'w auth_api \<Rightarrow> string \<Rightarrow> 'w \<Rightarrow> (go_error + bool) \<times> 'w" where
  "ExternalAuthEnabled api clusterID w =
     (case auth_Enabled api clusterID w of
        (Inl err, w') \<Rightarrow> (Inl (Errorf ''getting external auth config for cluster %s: %w'' [FStr clusterID, FErr err]), w')
      | (Inr b, w') \<Rightarrow> (Inr b, w'))"

definition validateExternalAuthProvider :: "external_auth \<Rightarrow> go_error option" where
  "validateExternalAuthProvider p =
     (case ea_Issuer p of
        None \<Rightarrow> Some (Errorf ''no issuer configured'' [])
      | Some issuer \<Rightarrow>
          if \<not> has_prefix (is_URL issuer) ''https://''
          then Some (Errorf ''issuer URL %q is not a valid https URL'' [FStr (is_URL issuer)])
          else if is_Audiences issuer = [] then Some (Errorf ''issuer has no audiences configured'' [])
          else (case ea_Status p of
              Some (Some state, message) \<Rightarrow>
                if to_lower state = ''error'' \<or> to_lower state = ''failed''
                then Some (Errorf ''provider is in state %q: %s'' [FStr state, FStr message]) else None
            | _ \<Rightarrow> None))"

fun validate_providers :: "external_auth list \<Rightarrow> go_error option" where
  "validate_providers [] = None"
| "validate_providers (p # ps) =
     (case validateExternalAuthProvider p of
        Some err \<Rightarrow> Some (Errorf ''external auth provider %q: %w'' [FStr (ea_ID p), FErr err])
      | None \<Rightarrow> validate_providers ps)"

definition VerifyExternalAuthProviders :: "'w auth_api \<Rightarrow> string \<Rightarrow> 'w \<Rightarrow> go_error option \<times> 'w" where
  "VerifyExternalAuthProviders api clusterID w =
     (case auth_Enabled api clusterID w of
        (Inl err, w1) \<Rightarrow> (Some (Errorf ''getting external auth config for cluster %s: %w'' [FStr clusterID, FErr err]), w1)
      | (Inr enabled, w1) \<Rightarrow>
          if \<not> enabled then (Some (Errorf ''external authentication is not enabled on cluster %s'' [FStr clusterID]), w1)
          else (case auth_List api clusterID w1 of
              (Inl err, w2) \<Rightarrow> (Some (Errorf ''listing external auth providers for cluster %s: %w'' [FStr clusterID, FErr err]), w2)
            | (Inr providers, w2) \<Rightarrow>
                if providers = []
                then (Some (Errorf ''external auth is enabled on cluster %s but no providers are configured'' [FStr clusterID]), w2)
                else (validate_providers providers, w2)))"

text \<open>
  getJSON: the text of a successful response, which the caller decodes into its own struct; an error
  otherwise. \<open>decode\<close> is that decoding.
\<close>

definition getJSON :: "'w http_client \<Rightarrow> int \<Rightarrow> string \<Rightarrow> (string \<Rightarrow> 'a option) \<Rightarrow> 'w \<Rightarrow> (go_error + 'a) \<times> 'w" where
  "getJSON hc timeout url decode w =
     (case check_request hc ''GET'' url of
        Some err \<Rightarrow> (Inl (Errorf ''building request: %w'' [FErr err]), w)
      | None \<Rightarrow> (case http_Do hc timeout \<lparr>rq_Method = ''GET'', rq_URL = url, rq_Headers = [(''Accept'', ''application/json'')], rq_Body = []\<rparr> w of
            (Inl err, w') \<Rightarrow> (Inl err, w')
          | (Inr resp, w') \<Rightarrow>
              if hr_StatusCode resp \<noteq> 200
              then (Inl (Errorf ''%s returned %s: %s'' [FStr url, FStr (hr_Status resp), FStr (trim_space (hr_Body resp))]), w')
              else (case decode (hr_Body resp) of
                  None \<Rightarrow> (Inl (decode_error hc (hr_Body resp)), w')
                | Some x \<Rightarrow> (Inr x, w'))))"

definition decode_jwks_uri :: "string \<Rightarrow> string option" where
  "decode_jwks_uri s = Option.bind (struct_members s) (\<lambda>m. string_field m ''jwks_uri'')"

definition decode_keys :: "string \<Rightarrow> json list option" where
  "decode_keys s = Option.bind (struct_members s) (\<lambda>m. slice_field m ''keys'')"

definition probeOIDCIssuer :: "'w http_client \<Rightarrow> int \<Rightarrow> string \<Rightarrow> 'w \<Rightarrow> go_error option \<times> 'w" where
  "probeOIDCIssuer hc timeout issuer w =
     (case getJSON hc timeout (trim_right issuer (CHR ''/'') @ ''/.well-known/openid-configuration'') decode_jwks_uri w of
        (Inl err, w1) \<Rightarrow> (Some (Errorf ''fetching OIDC discovery document: %w'' [FErr err]), w1)
      | (Inr uri, w1) \<Rightarrow>
          if uri = [] then (Some (Errorf ''OIDC discovery document has no jwks_uri'' []), w1)
          else (case getJSON hc timeout uri decode_keys w1 of
              (Inl err, w2) \<Rightarrow> (Some (Errorf ''fetching JWKS: %w'' [FErr err]), w2)
            | (Inr keys, w2) \<Rightarrow>
                if keys = [] then (Some (Errorf ''JWKS at %s contains no signing keys'' [FStr uri]), w2)
                else (None, w2)))"

fun probe_providers :: "'w http_client \<Rightarrow> external_auth list \<Rightarrow> 'w \<Rightarrow> go_error option \<times> 'w" where
  "probe_providers hc [] w = (None, w)"
| "probe_providers hc (p # ps) w =
     (case ea_Issuer p of
        None \<Rightarrow> (Some (Errorf ''external auth provider %q has no issuer URL'' [FStr (ea_ID p)]), w)
      | Some issuer \<Rightarrow>
          if is_URL issuer = [] then (Some (Errorf ''external auth provider %q has no issuer URL'' [FStr (ea_ID p)]), w)
          else (case probeOIDCIssuer hc externalAuthAPITimeout (is_URL issuer) w of
              (Some err, w') \<Rightarrow> (Some (Errorf ''external auth provider %q issuer %q: %w'' [FStr (ea_ID p), FStr (is_URL issuer), FErr err]), w')
            | (None, w') \<Rightarrow> probe_providers hc ps w'))"

definition VerifyExternalAuthIssuerReachable :: "'w auth_api \<Rightarrow> 'w http_client \<Rightarrow> string \<Rightarrow> 'w \<Rightarrow> go_error option \<times> 'w" where
  "VerifyExternalAuthIssuerReachable api hc clusterID w =
     (case auth_List api clusterID w of
        (Inl err, w1) \<Rightarrow> (Some (Errorf ''listing external auth providers for cluster %s: %w'' [FStr clusterID, FErr err]), w1)
      | (Inr providers, w1) \<Rightarrow>
          if providers = [] then (Some (Errorf ''no external auth providers configured on cluster %s'' [FStr clusterID]), w1)
          else probe_providers hc providers w1)"

section \<open>Linked roles\<close>

text \<open>The entry of a label that counts as a linked role of an account, of any account when the account is empty.\<close>

definition role_of_account :: "(string \<Rightarrow> go_error + role_arn_parts) \<Rightarrow> string \<Rightarrow> string \<Rightarrow> bool" where
  "role_of_account parse account entry \<longleftrightarrow>
     (\<exists>a. parse (trim_space entry) = Inr a \<and> trim_space entry \<noteq> [] \<and> arn_Service a = ''iam'' \<and> arn_AccountID a \<noteq> []
        \<and> prefix ''role/'' (arn_Resource a) \<and> (account = [] \<or> arn_AccountID a = account))"

lemma linked_arns_eq:
  "linked_arns parse parts acc = acc @ map trim_space (filter (role_of_account parse []) parts)"
  by (induction parse parts acc rule: linked_arns.induct)
     (auto simp: role_of_account_def has_prefix_def Let_def split: sum.splits)

lemma account_linked_iff:
  "account_linked parse account arns \<longleftrightarrow> (\<exists>a \<in> set arns. \<exists>p. parse a = Inr p \<and> arn_AccountID p = account)"
  by (induction parse account arns rule: account_linked.induct) (auto split: sum.splits)

text \<open>The roles that the label of an organization lists, when the label was found.\<close>

definition label_entries :: "string \<Rightarrow> string list" where
  "label_entries val = (if val = [] then [] else split_on (CHR '','') val)"

lemma account_linked_label:
  assumes "account \<noteq> []"
  shows "account_linked parse account (linked_arns parse (label_entries val) []) \<longleftrightarrow>
    list_ex (role_of_account parse account) (label_entries val)"
  using assms by (fastforce simp: linked_arns_eq account_linked_iff list_ex_iff role_of_account_def)

lemma GetLinked_found:
  assumes "current_organization am w = (Inr (Some org), w1)" and "org \<noteq> []"
    and "organization_label am org ocmRoleLabelKey w1 = (Inr val, w2)"
  shows "GetLinkedOCMRoleARNs am w = (Inr (linked_arns (arn_Parse am) (label_entries val) []), w2)"
  using assms by (simp add: GetLinkedOCMRoleARNs_def label_entries_def)

text \<open>
  With an organization whose label was read, VerifyOCMRoleLinkedForAccount passes exactly when the account is
  given and some comma-separated entry of the label, trimmed, is the ARN of an IAM role of that account, while
  VerifyOCMRoleLinked passes exactly when some entry is the ARN of an IAM role of any account; so the
  first implies the second. When the label does not exist (404), both fail and the list of roles is empty.
\<close>

theorem ocm_role_linkage:
  assumes "current_organization am w = (Inr (Some org), w1)" and "org \<noteq> []"
    and "organization_label am org ocmRoleLabelKey w1 = (r, w2)"
  shows "(case r of
      Inr val \<Rightarrow>
        (fst (VerifyOCMRoleLinkedForAccount am account w) = None \<longleftrightarrow>
           account \<noteq> [] \<and> list_ex (role_of_account (arn_Parse am) account) (label_entries val))
        \<and> (fst (VerifyOCMRoleLinked am w) = None \<longleftrightarrow> list_ex (role_of_account (arn_Parse am) []) (label_entries val))
    | Inl e \<Rightarrow>
        fst (VerifyOCMRoleLinkedForAccount am account w) \<noteq> None \<and> fst (VerifyOCMRoleLinked am w) \<noteq> None
        \<and> (error_status am e = Some 404 \<longleftrightarrow> fst (GetLinkedOCMRoleARNs am w) = Inr []))"
proof (cases r)
  case (Inr val)
  have "linked_arns (arn_Parse am) (label_entries val) [] \<noteq> [] \<longleftrightarrow> list_ex (role_of_account (arn_Parse am) []) (label_entries val)"
    by (auto simp: linked_arns_eq list_ex_iff filter_empty_conv)
  then show ?thesis
    using Inr GetLinked_found [OF assms(1,2), of val w2] assms(3) account_linked_label [of account "arn_Parse am" val]
    by (auto simp: VerifyOCMRoleLinkedForAccount_def VerifyOCMRoleLinked_def)
next
  case (Inl e)
  then show ?thesis
    using assms by (auto simp: VerifyOCMRoleLinkedForAccount_def VerifyOCMRoleLinked_def GetLinkedOCMRoleARNs_def)
qed

section \<open>External authentication\<close>

definition provider_ok :: "external_auth \<Rightarrow> bool" where
  "provider_ok p \<longleftrightarrow>
     (\<exists>issuer. ea_Issuer p = Some issuer \<and> prefix ''https://'' (is_URL issuer) \<and> is_Audiences issuer \<noteq> [])
     \<and> (\<forall>state msg. ea_Status p = Some (Some state, msg) \<longrightarrow> to_lower state \<notin> {''error'', ''failed''})"

lemma validate_provider_iff: "validateExternalAuthProvider p = None \<longleftrightarrow> provider_ok p"
  by (auto simp: validateExternalAuthProvider_def provider_ok_def has_prefix_def split: option.splits prod.splits)

lemma validate_providers_iff: "validate_providers ps = None \<longleftrightarrow> list_all provider_ok ps"
  by (induction ps) (auto simp: validate_provider_iff [symmetric] split: option.splits)

lemma external_auth_verdict:
  "VerifyExternalAuthProviders api clusterID w = (None, w') \<longleftrightarrow>
     (\<exists>w1 ps. auth_Enabled api clusterID w = (Inr True, w1) \<and> auth_List api clusterID w1 = (Inr ps, w')
        \<and> ps \<noteq> [] \<and> list_all provider_ok ps)"
  by (auto simp: VerifyExternalAuthProviders_def validate_providers_iff [symmetric] split: prod.splits sum.splits)

text \<open>A web that answers every GET steadily: \<open>web url\<close> is the body of a successful response.\<close>

fun answers_with :: "string option \<Rightarrow> go_error + http_response \<Rightarrow> bool" where
  "answers_with (Some body) (Inr resp) \<longleftrightarrow> hr_StatusCode resp = 200 \<and> hr_Body resp = body"
| "answers_with None (Inr resp) \<longleftrightarrow> hr_StatusCode resp \<noteq> 200"
| "answers_with b (Inl e) \<longleftrightarrow> b = None"

definition steady_web :: "'w http_client \<Rightarrow> (string \<Rightarrow> string option) \<Rightarrow> bool" where
  "steady_web hc web \<longleftrightarrow> (\<forall>url. check_request hc ''GET'' url = None)
     \<and> (\<forall>t req w. rq_Method req = ''GET'' \<longrightarrow> answers_with (web (rq_URL req)) (fst (http_Do hc t req w)))"

definition signing_issuer :: "(string \<Rightarrow> string option) \<Rightarrow> string \<Rightarrow> bool" where
  "signing_issuer web issuer \<longleftrightarrow>
     (\<exists>doc uri jwks keys. web (trim_right issuer (CHR ''/'') @ ''/.well-known/openid-configuration'') = Some doc
        \<and> decode_jwks_uri doc = Some uri \<and> uri \<noteq> [] \<and> web uri = Some jwks \<and> decode_keys jwks = Some keys \<and> keys \<noteq> [])"

lemma getJSON_steady:
  assumes "steady_web hc web"
  shows "(\<exists>x w'. getJSON hc t url decode w = (Inr x, w')) \<longleftrightarrow> (\<exists>body x. web url = Some body \<and> decode body = Some x)"
    and "getJSON hc t url decode w = (Inr x, w') \<Longrightarrow> \<exists>body. web url = Some body \<and> decode body = Some x"
proof -
  let ?req = "\<lparr>rq_Method = ''GET'', rq_URL = url, rq_Headers = [(''Accept'', ''application/json'')], rq_Body = []\<rparr>"
  have c: "check_request hc ''GET'' url = None" using assms by (simp add: steady_web_def)
  obtain q w1 where d: "http_Do hc t ?req w = (q, w1)" by (metis surj_pair)
  have s: "answers_with (web url) q"
  proof -
    have "answers_with (web (rq_URL ?req)) (fst (http_Do hc t ?req w))"
      by (rule assms [unfolded steady_web_def, THEN conjunct2, rule_format]) simp
    then show ?thesis by (simp add: d)
  qed
  show "(\<exists>x w'. getJSON hc t url decode w = (Inr x, w')) \<longleftrightarrow> (\<exists>body x. web url = Some body \<and> decode body = Some x)"
    using s by (cases q; cases "web url") (simp_all add: getJSON_def c d split: option.splits)
  show "getJSON hc t url decode w = (Inr x, w') \<Longrightarrow> \<exists>body. web url = Some body \<and> decode body = Some x"
    using s by (cases q; cases "web url") (simp_all add: getJSON_def c d split: option.splits if_splits)
qed

lemma probe_issuer_steady:
  assumes "steady_web hc web"
  shows "fst (probeOIDCIssuer hc t issuer w) = None \<longleftrightarrow> signing_issuer web issuer"
proof -
  let ?d = "trim_right issuer (CHR ''/'') @ ''/.well-known/openid-configuration''"
  obtain r1 w1 where g1: "getJSON hc t ?d decode_jwks_uri w = (r1, w1)" by (metis surj_pair)
  show ?thesis
  proof (cases r1)
    case (Inl e)
    then have "\<not> (\<exists>body x. web ?d = Some body \<and> decode_jwks_uri body = Some x)"
      using getJSON_steady(1) [OF assms, of t ?d decode_jwks_uri w] g1 by simp
    then show ?thesis using g1 Inl by (auto simp: probeOIDCIssuer_def signing_issuer_def)
  next
    case (Inr uri)
    then obtain doc where doc: "web ?d = Some doc" "decode_jwks_uri doc = Some uri"
      using getJSON_steady(2) [OF assms, of t ?d decode_jwks_uri w uri w1] g1 by auto
    obtain r2 w2 where g2: "getJSON hc t uri decode_keys w1 = (r2, w2)" by (metis surj_pair)
    show ?thesis
    proof (cases r2)
      case (Inl e)
      then have "\<not> (\<exists>body x. web uri = Some body \<and> decode_keys body = Some x)"
        using getJSON_steady(1) [OF assms, of t uri decode_keys w1] g2 by simp
      then show ?thesis using g1 g2 Inr Inl doc by (auto simp: probeOIDCIssuer_def signing_issuer_def)
    next
      case r2: (Inr keys)
      then obtain jwks where "web uri = Some jwks" "decode_keys jwks = Some keys"
        using getJSON_steady(2) [OF assms, of t uri decode_keys w1 keys w2] g2 by auto
      then show ?thesis using g1 g2 Inr r2 doc by (auto simp: probeOIDCIssuer_def signing_issuer_def)
    qed
  qed
qed

definition issuer_reachable :: "(string \<Rightarrow> string option) \<Rightarrow> external_auth \<Rightarrow> bool" where
  "issuer_reachable web p \<longleftrightarrow> (\<exists>issuer. ea_Issuer p = Some issuer \<and> is_URL issuer \<noteq> [] \<and> signing_issuer web (is_URL issuer))"

lemma probe_providers_steady:
  assumes "steady_web hc web"
  shows "fst (probe_providers hc ps w) = None \<longleftrightarrow> list_all (issuer_reachable web) ps"
proof (induction ps arbitrary: w)
  case (Cons p ps)
  show ?case
  proof (cases "\<exists>issuer. ea_Issuer p = Some issuer \<and> is_URL issuer \<noteq> []")
    case True
    then obtain issuer where i: "ea_Issuer p = Some issuer" "is_URL issuer \<noteq> []" by blast
    obtain q w1 where b: "probeOIDCIssuer hc externalAuthAPITimeout (is_URL issuer) w = (q, w1)" by (metis surj_pair)
    then have "q = None \<longleftrightarrow> signing_issuer web (is_URL issuer)" using probe_issuer_steady [OF assms] by (metis fst_conv)
    then show ?thesis using i b Cons by (cases q) (auto simp: issuer_reachable_def)
  next
    case False
    then show ?thesis by (auto simp: issuer_reachable_def split: option.splits)
  qed
qed simp

text \<open>
  Over a web that answers steadily, VerifyExternalAuthIssuerReachable passes exactly when the cluster has
  external auth providers and each of them has an issuer whose discovery document names a key set that holds a
  signing key.
\<close>

theorem external_issuers_reachable:
  assumes "steady_web hc web" and "auth_List api clusterID w = (Inr ps, w1)"
  shows "fst (VerifyExternalAuthIssuerReachable api hc clusterID w) = None \<longleftrightarrow> ps \<noteq> [] \<and> list_all (issuer_reachable web) ps"
  using assms(2) probe_providers_steady [OF assms(1)] by (simp add: VerifyExternalAuthIssuerReachable_def)

section \<open>Concrete runs\<close>

definition sample_accounts :: "(go_error + string) \<Rightarrow> unit accounts_api" where
  "sample_accounts label = \<lparr>current_organization = (\<lambda>w. (Inr (Some ''org-1''), w)), organization_label = (\<lambda>g k w. (label, w)),
     error_status = (\<lambda>e. if e = ErrorsNew ''no label'' then Some 404 else None),
     arn_Parse = (\<lambda>s. if s = ''arn-a'' then Inr \<lparr>arn_Service = ''iam'', arn_AccountID = ''111'', arn_Resource = ''role/ocm''\<rparr>
        else if s = ''arn-b'' then Inr \<lparr>arn_Service = ''iam'', arn_AccountID = ''222'', arn_Resource = ''user/ocm''\<rparr>
        else Inl (ErrorsNew ''arn: invalid prefix''))\<rparr>"

theorem ocm_role_linkage_witness:
  "fst (VerifyOCMRoleLinkedForAccount (sample_accounts (Inr ''arn-b, arn-a'')) ''111'' ()) = None
   \<and> fst (VerifyOCMRoleLinkedForAccount (sample_accounts (Inr ''arn-b, arn-a'')) ''222'' ()) \<noteq> None
   \<and> fst (VerifyOCMRoleLinked (sample_accounts (Inr ''arn-b, arn-a'')) ()) = None
   \<and> fst (VerifyOCMRoleLinked (sample_accounts (Inl (ErrorsNew ''no label''))) ()) \<noteq> None"
proof -
  have o: "current_organization (sample_accounts l) () = (Inr (Some ''org-1''), ())" "organization_label (sample_accounts l) g k () = (l, ())"
    for l g k by (simp_all add: sample_accounts_def)
  have "label_entries ''arn-b, arn-a'' = [''arn-b'', '' arn-a'']" by (simp add: label_entries_def)
  moreover have "trim_space '' arn-a'' = ''arn-a''" "trim_space ''arn-b'' = ''arn-b''" by (simp_all add: go_simps)
  ultimately show ?thesis
    using ocm_role_linkage [OF o(1) _ o(2), of "Inr ''arn-b, arn-a''" "''111''"]
      ocm_role_linkage [OF o(1) _ o(2), of "Inr ''arn-b, arn-a''" "''222''"]
      ocm_role_linkage [OF o(1) _ o(2), of "Inl (ErrorsNew ''no label'')" "''222''"]
    by (simp add: role_of_account_def sample_accounts_def)
qed

definition sample_web :: "string \<Rightarrow> string option" where
  "sample_web url =
     (if url = ''https://idp/.well-known/openid-configuration''
      then Some (''{'' @ quote ''jwks_uri'' @ '': '' @ quote ''https://idp/keys'' @ ''}'')
      else if url = ''https://idp/keys'' then Some (''{'' @ quote ''keys'' @ '': [{}]}'') else None)"

definition sample_http :: "(string \<Rightarrow> string option) \<Rightarrow> unit http_client" where
  "sample_http web = \<lparr>check_request = (\<lambda>m u. None),
     http_Do = (\<lambda>t req w. (Inr (case web (rq_URL req) of
        Some body \<Rightarrow> \<lparr>hr_StatusCode = 200, hr_Status = ''200 OK'', hr_Body = body, hr_ReadError = None\<rparr>
      | None \<Rightarrow> \<lparr>hr_StatusCode = 404, hr_Status = ''404 Not Found'', hr_Body = [], hr_ReadError = None\<rparr>), w)),
     decode_error = (\<lambda>s. ErrorsNew ''json'')\<rparr>"

lemma sample_http_steady: "steady_web (sample_http web) web"
  by (auto simp: steady_web_def sample_http_def split: option.split)

definition sample_auth :: "unit auth_api" where
  "sample_auth = \<lparr>auth_Enabled = (\<lambda>i w. (Inr True, w)), auth_List = (\<lambda>i w.
     (Inr [\<lparr>ea_ID = ''idp'', ea_Issuer = Some \<lparr>is_URL = ''https://idp/'', is_Audiences = [''a'']\<rparr>, ea_Status = None\<rparr>], w))\<rparr>"

theorem external_issuers_reachable_witness:
  "fst (VerifyExternalAuthIssuerReachable sample_auth (sample_http sample_web) ''c1'' ()) = None
   \<and> fst (VerifyExternalAuthIssuerReachable sample_auth (sample_http (\<lambda>u. None)) ''c1'' ()) \<noteq> None"
proof -
  have l: "auth_List sample_auth ''c1'' () =
      (Inr [\<lparr>ea_ID = ''idp'', ea_Issuer = Some \<lparr>is_URL = ''https://idp/'', is_Audiences = [''a'']\<rparr>, ea_Status = None\<rparr>], ())"
    by (simp add: sample_auth_def)
  have "decode_jwks_uri (''{'' @ quote ''jwks_uri'' @ '': '' @ quote ''https://idp/keys'' @ ''}'') = Some ''https://idp/keys''"
    "decode_keys (''{'' @ quote ''keys'' @ '': [{}]}'') = Some [JObj []]" by code_simp+
  moreover have "trim_right ''https://idp/'' (CHR ''/'') = ''https://idp''" by (simp add: go_simps)
  ultimately have "signing_issuer sample_web ''https://idp/''" "\<not> signing_issuer (\<lambda>u. None) ''https://idp/''"
    by (simp_all add: signing_issuer_def sample_web_def)
  then show ?thesis
    using external_issuers_reachable [OF sample_http_steady l, of sample_web]
      external_issuers_reachable [OF sample_http_steady l, of "\<lambda>u. None"] by (simp add: issuer_reachable_def)
qed

end
