(* ===== verification/Test_Context.thy ===== *)
theory Test_Context
  imports Ocm Hcp
begin

text \<open>
  pkg/framework/context.go and kube.go: the context of a test, which holds the configuration, the clients of
  the clusters a test may reach (hosted cluster, management cluster, service cluster and the hosted cluster through
  backplane), the AWS clients, the HCP namespaces and the topology, once it is known.

  The context is the record \<open>test_context\<close>; every method takes it and returns it updated. The pointer to the
  configuration is shared with the suite, so that the fields a method sets in it stay. The constructors of
  the Kubernetes and AWS clients and os.Getenv are the record \<open>context_env\<close>. \<open>'r\<close> is the type of a rest.Config, \<open>'k\<close> of a
  clientset and \<open>'a\<close> of an AWS configuration, which the code only passes on.
\<close>

section \<open>The context\<close>

record ('r, 'k, 'w) plane =
  pl_Rest :: "'r option"
  pl_Kube :: "'k option"
  pl_Dynamic :: "'w dynamic_client option"

record ('r, 'k, 'a, 'w) test_context =
  tc_cfg :: Config
  tc_hc :: "('r, 'k, 'w) plane"
  tc_mc :: "('r, 'k, 'w) plane"
  tc_sc :: "('r, 'k, 'w) plane"
  tc_bp :: "('r, 'k, 'w) plane"
  tc_hcpNamespaces :: "HCPNamespaces option"
  tc_topology :: string
  tc_aws :: "'a option" \<comment> \<open>the configuration of the EC2, CloudTrail and KMS clients, which are set together\<close>

record ('r, 'k, 'a, 'w) context_env =
  getenv :: "string \<Rightarrow> string"
  ocm :: "'w ocm_connection"
  BuildConfigFromFlags :: "string \<Rightarrow> 'w \<Rightarrow> (go_error + 'r) \<times> 'w"
  RESTConfigFromKubeConfig :: "string \<Rightarrow> go_error + 'r"
  kubernetes_NewForConfig :: "'r \<Rightarrow> go_error + 'k"
  dynamic_NewForConfig :: "'r \<Rightarrow> go_error + 'w dynamic_client"
  configmap_Data :: "'k \<Rightarrow> string \<Rightarrow> string \<Rightarrow> 'w \<Rightarrow> (go_error + (string \<rightharpoonup> string)) \<times> 'w" \<comment> \<open>namespace, name\<close>
  LoadDefaultConfig :: "string \<Rightarrow> 'w \<Rightarrow> (go_error + 'a) \<times> 'w" \<comment> \<open>region\<close>
  Credentials_Retrieve :: "'a \<Rightarrow> 'w \<Rightarrow> (bool \<times> go_error option) \<times> 'w" \<comment> \<open>HasKeys() of the credentials, the error\<close>

definition empty_plane :: "('r, 'k, 'w) plane" where
  "empty_plane = \<lparr>pl_Rest = None, pl_Kube = None, pl_Dynamic = None\<rparr>"

definition NewTestContext :: "Config \<Rightarrow> ('r, 'k, 'a, 'w) test_context" where
  "NewTestContext cfg = \<lparr>tc_cfg = cfg, tc_hc = empty_plane, tc_mc = empty_plane, tc_sc = empty_plane, tc_bp = empty_plane,
     tc_hcpNamespaces = None, tc_topology = [], tc_aws = None\<rparr>"

text \<open>The accessors. The three AWS clients are views of the configuration from which they were built together.\<close>

definition Config_of :: "('r, 'k, 'a, 'w) test_context \<Rightarrow> Config" where
  "Config_of tc = tc_cfg tc"

definition HCPNamespaces_of :: "('r, 'k, 'a, 'w) test_context \<Rightarrow> HCPNamespaces option" where
  "HCPNamespaces_of tc = tc_hcpNamespaces tc"

definition HCKubeClient :: "('r, 'k, 'a, 'w) test_context \<Rightarrow> 'k option" where
  "HCKubeClient tc = pl_Kube (tc_hc tc)"

definition HCDynamicClient :: "('r, 'k, 'a, 'w) test_context \<Rightarrow> 'w dynamic_client option" where
  "HCDynamicClient tc = pl_Dynamic (tc_hc tc)"

definition MCKubeClient :: "('r, 'k, 'a, 'w) test_context \<Rightarrow> 'k option" where
  "MCKubeClient tc = pl_Kube (tc_mc tc)"

definition MCDynamicClient :: "('r, 'k, 'a, 'w) test_context \<Rightarrow> 'w dynamic_client option" where
  "MCDynamicClient tc = pl_Dynamic (tc_mc tc)"

definition SCKubeClient :: "('r, 'k, 'a, 'w) test_context \<Rightarrow> 'k option" where
  "SCKubeClient tc = pl_Kube (tc_sc tc)"

definition SCDynamicClient :: "('r, 'k, 'a, 'w) test_context \<Rightarrow> 'w dynamic_client option" where
  "SCDynamicClient tc = pl_Dynamic (tc_sc tc)"

definition BPKubeClient :: "('r, 'k, 'a, 'w) test_context \<Rightarrow> 'k option" where
  "BPKubeClient tc = pl_Kube (tc_bp tc)"

definition BPDynamicClient :: "('r, 'k, 'a, 'w) test_context \<Rightarrow> 'w dynamic_client option" where
  "BPDynamicClient tc = pl_Dynamic (tc_bp tc)"

definition EC2Client :: "('r, 'k, 'a, 'w) test_context \<Rightarrow> 'a option" where
  "EC2Client tc = tc_aws tc"

definition CloudTrailClient :: "('r, 'k, 'a, 'w) test_context \<Rightarrow> 'a option" where
  "CloudTrailClient tc = tc_aws tc"

definition KMSClient :: "('r, 'k, 'a, 'w) test_context \<Rightarrow> 'a option" where
  "KMSClient tc = tc_aws tc"

lemmas accessors =
  Config_of_def HCPNamespaces_of_def HCKubeClient_def HCDynamicClient_def MCKubeClient_def MCDynamicClient_def
  SCKubeClient_def SCDynamicClient_def BPKubeClient_def BPDynamicClient_def EC2Client_def CloudTrailClient_def KMSClient_def

section \<open>Topology\<close>

definition Topology :: "('r, 'k, 'a, 'w) context_env \<Rightarrow> ('r, 'k, 'a, 'w) test_context \<Rightarrow> 'w \<Rightarrow> string \<times> ('r, 'k, 'a, 'w) test_context \<times> 'w" where
  "Topology env tc w =
     (if tc_topology tc \<noteq> [] then (tc_topology tc, tc, w)
      else if ClusterTopology (tc_cfg tc) \<noteq> []
      then (ClusterTopology (tc_cfg tc), tc\<lparr>tc_topology := ClusterTopology (tc_cfg tc)\<rparr>, w)
      else if ClusterID (tc_cfg tc) \<noteq> []
      then (case DetectClusterTopology (ocm env) (ClusterID (tc_cfg tc)) w of
          (Inr topo, w') \<Rightarrow> (topo, tc\<lparr>tc_topology := topo\<rparr>, w')
        | (Inl err, w') \<Rightarrow> ([], tc, w'))
      else ([], tc, w))"

definition is_topology ::
  "string \<Rightarrow> ('r, 'k, 'a, 'w) context_env \<Rightarrow> ('r, 'k, 'a, 'w) test_context \<Rightarrow> 'w \<Rightarrow> bool \<times> ('r, 'k, 'a, 'w) test_context \<times> 'w" where
  "is_topology name env tc w = (case Topology env tc w of (t, tc', w') \<Rightarrow> (t = name, tc', w'))"

definition IsHCP :: "('r, 'k, 'a, 'w) context_env \<Rightarrow> ('r, 'k, 'a, 'w) test_context \<Rightarrow> 'w \<Rightarrow> bool \<times> ('r, 'k, 'a, 'w) test_context \<times> 'w" where
  "IsHCP = is_topology ''hcp''"

definition IsClassic :: "('r, 'k, 'a, 'w) context_env \<Rightarrow> ('r, 'k, 'a, 'w) test_context \<Rightarrow> 'w \<Rightarrow> bool \<times> ('r, 'k, 'a, 'w) test_context \<times> 'w" where
  "IsClassic = is_topology ''classic''"

definition IsOSDGCP :: "('r, 'k, 'a, 'w) context_env \<Rightarrow> ('r, 'k, 'a, 'w) test_context \<Rightarrow> 'w \<Rightarrow> bool \<times> ('r, 'k, 'a, 'w) test_context \<times> 'w" where
  "IsOSDGCP = is_topology ''osd-gcp''"

section \<open>Access\<close>

definition HasSCAccess :: "('r, 'k, 'a, 'w) test_context \<Rightarrow> bool" where
  "HasSCAccess tc \<longleftrightarrow> ServiceClusterID (tc_cfg tc) \<noteq> []"

definition HasBPAccess :: "('r, 'k, 'a, 'w) context_env \<Rightarrow> bool" where
  "HasBPAccess env \<longleftrightarrow> getenv env ''BP_KUBECONFIG'' \<noteq> []"

definition HasMCAccess :: "('r, 'k, 'a, 'w) context_env \<Rightarrow> ('r, 'k, 'a, 'w) test_context \<Rightarrow> bool" where
  "HasMCAccess env tc \<longleftrightarrow> getenv env ''MC_KUBECONFIG'' \<noteq> [] \<or> ManagementClusterID (tc_cfg tc) \<noteq> []"

definition HasAWSAccess :: "('r, 'k, 'a, 'w) test_context \<Rightarrow> bool" where
  "HasAWSAccess tc \<longleftrightarrow> tc_aws tc \<noteq> None"

definition HasRHOBSAccess :: "('r, 'k, 'a, 'w) test_context \<Rightarrow> bool" where
  "HasRHOBSAccess tc \<longleftrightarrow> RHOBSProbeAPIURL (tc_cfg tc) \<noteq> [] \<and> RHOBSOIDCClientID (tc_cfg tc) \<noteq> []
     \<and> RHOBSOIDCClientSecret (tc_cfg tc) \<noteq> [] \<and> RHOBSOIDCIssuerURL (tc_cfg tc) \<noteq> []"

section \<open>Clients\<close>

definition resolveKubeconfig :: "('r, 'k, 'a, 'w) context_env \<Rightarrow> string \<Rightarrow> string \<Rightarrow> 'w \<Rightarrow> (go_error + 'r) \<times> 'w" where
  "resolveKubeconfig env envVar clusterID w =
     (let kubeconfigPath = getenv env envVar in
      if kubeconfigPath \<noteq> [] then
        (case BuildConfigFromFlags env kubeconfigPath w of
           (Inl err, w') \<Rightarrow> (Inl (Errorf ''loading kubeconfig from %s=%s: %w'' [FStr envVar, FStr kubeconfigPath, FErr err]), w')
         | (Inr cfg, w') \<Rightarrow> (Inr cfg, w'))
      else GetClusterCredentials (RESTConfigFromKubeConfig env) (ocm env) clusterID w)"

definition NewKubeClient :: "('r, 'k, 'a, 'w) context_env \<Rightarrow> 'r \<Rightarrow> go_error + 'k" where
  "NewKubeClient env restConfig =
     (case kubernetes_NewForConfig env restConfig of
        Inl err \<Rightarrow> Inl (Errorf ''creating kubernetes client: %w'' [FErr err])
      | Inr client \<Rightarrow> Inr client)"

text \<open>
  The part that the four Init methods share: keep the rest.Config, then create the two clients; \<open>name\<close> is how
  the messages call the cluster. What was created before a failure stays.
\<close>

definition init_plane ::
  "('r, 'k, 'a, 'w) context_env \<Rightarrow> string \<Rightarrow> 'r \<Rightarrow> ('r, 'k, 'w) plane \<Rightarrow> go_error option \<times> ('r, 'k, 'w) plane" where
  "init_plane env name restCfg pl =
     (let pl1 = pl\<lparr>pl_Rest := Some restCfg\<rparr> in
      case NewKubeClient env restCfg of
        Inl err \<Rightarrow> (Some (Errorf (''creating '' @ name @ '' kube client: %w'') [FErr err]), pl1)
      | Inr kubeClient \<Rightarrow>
          (let pl2 = pl1\<lparr>pl_Kube := Some kubeClient\<rparr> in
           case dynamic_NewForConfig env restCfg of
             Inl err \<Rightarrow> (Some (Errorf (''creating '' @ name @ '' dynamic client: %w'') [FErr err]), pl2)
           | Inr dynClient \<Rightarrow> (None, pl2\<lparr>pl_Dynamic := Some dynClient\<rparr>)))"

definition InitHCClients ::
  "('r, 'k, 'a, 'w) context_env \<Rightarrow> ('r, 'k, 'a, 'w) test_context \<Rightarrow> 'w \<Rightarrow> go_error option \<times> ('r, 'k, 'a, 'w) test_context \<times> 'w" where
  "InitHCClients env tc w =
     (case resolveKubeconfig env ''KUBECONFIG'' (ClusterID (tc_cfg tc)) w of
        (Inl err, w') \<Rightarrow> (Some (Errorf ''getting HC credentials: %w'' [FErr err]), tc, w')
      | (Inr restCfg, w') \<Rightarrow> (case init_plane env ''HC'' restCfg (tc_hc tc) of (e, pl) \<Rightarrow> (e, tc\<lparr>tc_hc := pl\<rparr>, w')))"

definition InitSCClients ::
  "('r, 'k, 'a, 'w) context_env \<Rightarrow> ('r, 'k, 'a, 'w) test_context \<Rightarrow> 'w \<Rightarrow> go_error option \<times> ('r, 'k, 'a, 'w) test_context \<times> 'w" where
  "InitSCClients env tc w =
     (case resolveKubeconfig env ''SC_KUBECONFIG'' (ServiceClusterID (tc_cfg tc)) w of
        (Inl err, w') \<Rightarrow> (Some (Errorf ''getting SC credentials: %w'' [FErr err]), tc, w')
      | (Inr restCfg, w') \<Rightarrow> (case init_plane env ''SC'' restCfg (tc_sc tc) of (e, pl) \<Rightarrow> (e, tc\<lparr>tc_sc := pl\<rparr>, w')))"

definition InitBPClients ::
  "('r, 'k, 'a, 'w) context_env \<Rightarrow> ('r, 'k, 'a, 'w) test_context \<Rightarrow> 'w \<Rightarrow> go_error option \<times> ('r, 'k, 'a, 'w) test_context \<times> 'w" where
  "InitBPClients env tc w =
     (let kubeconfigPath = getenv env ''BP_KUBECONFIG'' in
      if kubeconfigPath = []
      then (Some (Errorf ''BP_KUBECONFIG not set; run rosa-backplane-login to produce ${SHARED_DIR}/bp-kubeconfig'' []), tc, w)
      else (case BuildConfigFromFlags env kubeconfigPath w of
          (Inl err, w') \<Rightarrow>
            (Some (Errorf ''loading backplane kubeconfig from BP_KUBECONFIG=%s: %w'' [FStr kubeconfigPath, FErr err]), tc, w')
        | (Inr restCfg, w') \<Rightarrow> (case init_plane env ''backplane'' restCfg (tc_bp tc) of (e, pl) \<Rightarrow> (e, tc\<lparr>tc_bp := pl\<rparr>, w'))))"

definition resolveClusterName :: "('r, 'k, 'a, 'w) context_env \<Rightarrow> ('r, 'k, 'a, 'w) test_context \<Rightarrow> 'w \<Rightarrow> string \<times> 'w" where
  "resolveClusterName env tc w =
     (case cluster_Get (ocm env) (ClusterID (tc_cfg tc)) w of (Inl err, w') \<Rightarrow> ([], w') | (Inr c, w') \<Rightarrow> (oc_Name c, w'))"

text \<open>The id whose credentials InitMCClients asks for: the configured one, or the one that OCM reports for the hosted cluster.\<close>

definition mc_cluster_id :: "('r, 'k, 'a, 'w) context_env \<Rightarrow> Config \<Rightarrow> 'w \<Rightarrow> (go_error + string) \<times> 'w" where
  "mc_cluster_id env cfg w =
     (if ManagementClusterID cfg = [] \<and> getenv env ''MC_KUBECONFIG'' = [] \<and> ClusterID cfg \<noteq> []
      then (case ResolveManagementClusterID (ocm env) (ClusterID cfg) w of
          (Inl err, w') \<Rightarrow> (Inl (Errorf ''resolving management cluster ID: %w'' [FErr err]), w')
        | (Inr resolved, w') \<Rightarrow> (Inr resolved, w'))
      else (Inr (ManagementClusterID cfg), w))"

text \<open>The end of InitMCClients: on a hosted control plane, find its namespaces; not finding them is not an error.\<close>

definition find_namespaces ::
  "('r, 'k, 'a, 'w) context_env \<Rightarrow> 'w dynamic_client \<Rightarrow> ('r, 'k, 'a, 'w) test_context \<Rightarrow> 'w \<Rightarrow> ('r, 'k, 'a, 'w) test_context \<times> 'w" where
  "find_namespaces env dynClient tc w =
     (if ClusterID (tc_cfg tc) \<noteq> [] then
        (case Topology env tc w of
           (t, tc1, w1) \<Rightarrow>
             if t = ''hcp'' then
               (case resolveClusterName env tc1 w1 of
                  (clusterName, w2) \<Rightarrow> (case ResolveHCPNamespaces dynClient clusterName (ClusterID (tc_cfg tc1)) w2 of
                      (Inl err, w3) \<Rightarrow> (tc1, w3)
                    | (Inr ns, w3) \<Rightarrow> (tc1\<lparr>tc_hcpNamespaces := Some ns\<rparr>, w3)))
             else (tc1, w1))
      else (tc, w))"

definition InitMCClients ::
  "('r, 'k, 'a, 'w) context_env \<Rightarrow> ('r, 'k, 'a, 'w) test_context \<Rightarrow> 'w \<Rightarrow> go_error option \<times> ('r, 'k, 'a, 'w) test_context \<times> 'w" where
  "InitMCClients env tc w =
     (case mc_cluster_id env (tc_cfg tc) w of
        (Inl err, w1) \<Rightarrow> (Some err, tc, w1)
      | (Inr mcID, w1) \<Rightarrow> (case resolveKubeconfig env ''MC_KUBECONFIG'' mcID w1 of
            (Inl err, w2) \<Rightarrow> (Some (Errorf ''getting MC credentials: %w'' [FErr err]), tc, w2)
          | (Inr restCfg, w2) \<Rightarrow> (case init_plane env ''MC'' restCfg (tc_mc tc) of
                (Some e, pl) \<Rightarrow> (Some e, tc\<lparr>tc_mc := pl\<rparr>, w2)
              | (None, pl) \<Rightarrow> (case find_namespaces env (the (pl_Dynamic pl)) (tc\<lparr>tc_mc := pl\<rparr>) w2 of (tc', w3) \<Rightarrow> (None, tc', w3)))))"

definition InitAWSClients ::
  "('r, 'k, 'a, 'w) context_env \<Rightarrow> ('r, 'k, 'a, 'w) test_context \<Rightarrow> 'w \<Rightarrow> go_error option \<times> ('r, 'k, 'a, 'w) test_context \<times> 'w" where
  "InitAWSClients env tc w =
     (case LoadDefaultConfig env (AWSRegion (tc_cfg tc)) w of
        (Inl err, w1) \<Rightarrow> (Some (Errorf ''loading AWS config: %w'' [FErr err]), tc, w1)
      | (Inr aws, w1) \<Rightarrow> (case Credentials_Retrieve env aws w1 of
            ((hasKeys, err), w2) \<Rightarrow>
              if err \<noteq> None \<or> \<not> hasKeys
              then (Some (Errorf ''no valid AWS credentials found: %w'' [case err of None \<Rightarrow> FNil | Some e \<Rightarrow> FErr e]), tc, w2)
              else (None, tc\<lparr>tc_aws := Some aws\<rparr>, w2)))"

section \<open>Lookups in OCM\<close>

definition ResolveInfraID :: "('r, 'k, 'a, 'w) context_env \<Rightarrow> ('r, 'k, 'a, 'w) test_context \<Rightarrow> 'w \<Rightarrow> (go_error + string) \<times> 'w" where
  "ResolveInfraID env tc w =
     (case cluster_Get (ocm env) (ClusterID (tc_cfg tc)) w of
        (Inl err, w') \<Rightarrow> (Inl (Errorf ''getting cluster from OCM: %w'' [FErr err]), w')
      | (Inr c, w') \<Rightarrow>
          if oc_InfraID c = [] then (Inl (Errorf ''cluster %s has no infra ID'' [FStr (ClusterID (tc_cfg tc))]), w')
          else (Inr (oc_InfraID c), w'))"

definition ResolveOperatorRolePrefix ::
  "('r, 'k, 'a, 'w) context_env \<Rightarrow> ('r, 'k, 'a, 'w) test_context \<Rightarrow> 'w \<Rightarrow> (go_error + string) \<times> 'w" where
  "ResolveOperatorRolePrefix env tc w =
     (case cluster_Get (ocm env) (ClusterID (tc_cfg tc)) w of
        (Inl err, w') \<Rightarrow> (Inl (Errorf ''getting cluster from OCM: %w'' [FErr err]), w')
      | (Inr c, w') \<Rightarrow>
          if oc_OperatorRolePrefix c = []
          then (Inl (Errorf ''cluster %s has no operator role prefix'' [FStr (ClusterID (tc_cfg tc))]), w')
          else (Inr (oc_OperatorRolePrefix c), w'))"

section \<open>RHOBS credentials\<close>

definition data_or_empty :: "(string \<rightharpoonup> string) \<Rightarrow> string \<Rightarrow> string" where
  "data_or_empty d k = (case d k of None \<Rightarrow> [] | Some v \<Rightarrow> v)"

definition take_rhobs_data :: "(string \<rightharpoonup> string) \<Rightarrow> Config \<Rightarrow> Config" where
  "take_rhobs_data d c = derive_metrics_url
     (c\<lparr>RHOBSProbeAPIURL := data_or_empty d ''probe-api-url'', RHOBSOIDCClientID := data_or_empty d ''oidc-client-id'',
        RHOBSOIDCClientSecret := data_or_empty d ''oidc-client-secret'', RHOBSOIDCIssuerURL := data_or_empty d ''oidc-issuer-url''\<rparr>)"

definition LoadRHOBSCredentialsFromMC ::
  "('r, 'k, 'a, 'w) context_env \<Rightarrow> ('r, 'k, 'a, 'w) test_context \<Rightarrow> 'w \<Rightarrow> go_error option \<times> ('r, 'k, 'a, 'w) test_context \<times> 'w" where
  "LoadRHOBSCredentialsFromMC env tc w =
     (if HasRHOBSAccess tc then (None, tc, w)
      else (case pl_Kube (tc_mc tc) of
          None \<Rightarrow> (Some (Errorf ''management cluster client not initialized - call InitMCClients first'' []), tc, w)
        | Some kube \<Rightarrow> (case configmap_Data env kube ''openshift-route-monitor-operator'' ''route-monitor-operator-config'' w of
              (Inl err, w') \<Rightarrow> (Some (Errorf ''failed to get route-monitor-operator-config ConfigMap: %w'' [FErr err]), tc, w')
            | (Inr d, w') \<Rightarrow>
                (let tc' = tc\<lparr>tc_cfg := take_rhobs_data d (tc_cfg tc)\<rparr> in
                 if \<not> HasRHOBSAccess tc'
                 then (Some (Errorf ''route-monitor-operator-config ConfigMap missing required RHOBS fields (probe-api-url, oidc-client-id, oidc-client-secret, oidc-issuer-url)'' []), tc', w')
                 else (None, tc', w')))))"

section \<open>The topology is found once\<close>

lemma DetectClusterTopology_Inr:
  "DetectClusterTopology conn cid w = (Inr t, w') \<Longrightarrow> t \<in> {''hcp'', ''classic'', ''osd-gcp''}"
  by (auto simp: DetectClusterTopology_def split: prod.splits sum.splits if_splits)

definition known_topology :: "Config \<Rightarrow> string \<Rightarrow> bool" where
  "known_topology cfg t \<longleftrightarrow> (if ClusterTopology cfg \<noteq> [] then t = ClusterTopology cfg else t \<in> {''hcp'', ''classic'', ''osd-gcp''})"

lemma Topology_cases:
  assumes "Topology env tc w = (t, tc', w')"
  shows "tc' = tc\<lparr>tc_topology := tc_topology tc'\<rparr>"
    and "tc_topology tc' = t"
    and "tc_topology tc \<noteq> [] \<Longrightarrow> t = tc_topology tc \<and> w' = w"
    and "tc_topology tc = [] \<Longrightarrow> t \<noteq> [] \<Longrightarrow> known_topology (tc_cfg tc) t"
  using assms DetectClusterTopology_Inr [of "ocm env" "ClusterID (tc_cfg tc)" w]
  by (auto simp: Topology_def known_topology_def split: if_splits prod.splits sum.splits)

text \<open>
  Once Topology has answered, it answers the same without asking OCM again, whatever the world has become;
  the first answer is the configured topology, or else one of the three names for the cluster that
  OCM describes; and a lookup that fails is not remembered.
\<close>

theorem topology_found_once:
  assumes "Topology env tc w = (t, tc', w')"
  shows "tc' = tc\<lparr>tc_topology := t\<rparr>
    \<and> (if t = [] then tc' = tc else \<forall>u. Topology env tc' u = (t, tc', u))
    \<and> (if tc_topology tc = [] \<and> t \<noteq> [] then known_topology (tc_cfg tc) t else t = tc_topology tc)"
proof -
  have "tc\<lparr>tc_topology := tc_topology tc\<rparr> = tc" by (cases tc) simp
  moreover have "tc_topology tc' \<noteq> [] \<Longrightarrow> Topology env tc' u = (tc_topology tc', tc', u)" for u by (simp add: Topology_def)
  ultimately show ?thesis
    using Topology_cases [OF assms] by (cases "tc_topology tc = []"; cases "t = []") auto
qed

section \<open>The methods keep the context consistent\<close>

text \<open>
  One call of a method on the context, in any state of the world; creating a cluster is a step too, since it
  sets the provision shard in the configuration that the context shares.
\<close>

inductive context_step :: "('r, 'k, 'a, 'w) context_env \<Rightarrow> ('r, 'k, 'a, 'w) test_context \<Rightarrow> ('r, 'k, 'a, 'w) test_context \<Rightarrow> bool"
  for env where
  topology: "Topology env tc w = (t, tc', w') \<Longrightarrow> context_step env tc tc'"
| hc: "InitHCClients env tc w = (e, tc', w') \<Longrightarrow> context_step env tc tc'"
| mc: "InitMCClients env tc w = (e, tc', w') \<Longrightarrow> context_step env tc tc'"
| sc: "InitSCClients env tc w = (e, tc', w') \<Longrightarrow> context_step env tc tc'"
| bp: "InitBPClients env tc w = (e, tc', w') \<Longrightarrow> context_step env tc tc'"
| aws: "InitAWSClients env tc w = (e, tc', w') \<Longrightarrow> context_step env tc tc'"
| rhobs: "LoadRHOBSCredentialsFromMC env tc w = (e, tc', w') \<Longrightarrow> context_step env tc tc'"
| create: "CreateRosaHCPCluster rt (ocm env) (tc_cfg tc) s = (r, cfg', s') \<Longrightarrow> context_step env tc (tc\<lparr>tc_cfg := cfg'\<rparr>)"

definition plane_ok :: "('r, 'k, 'w) plane \<Rightarrow> bool" where
  "plane_ok pl \<longleftrightarrow> (pl_Dynamic pl \<noteq> None \<longrightarrow> pl_Kube pl \<noteq> None) \<and> (pl_Kube pl \<noteq> None \<longrightarrow> pl_Rest pl \<noteq> None)"

text \<open>The settings that a method may change: the shard and the RHOBS access.\<close>

definition fixed_settings :: "Config \<Rightarrow> Config" where
  "fixed_settings c = c\<lparr>ProvisionShardID := [], RHOBSProbeAPIURL := [], RHOBSMetricsAPIURL := [], RHOBSOIDCClientID := [],
     RHOBSOIDCClientSecret := [], RHOBSOIDCIssuerURL := []\<rparr>"

definition context_inv :: "Config \<Rightarrow> ('r, 'k, 'a, 'w) test_context \<Rightarrow> bool" where
  "context_inv cfg tc \<longleftrightarrow>
     plane_ok (tc_hc tc) \<and> plane_ok (tc_mc tc) \<and> plane_ok (tc_sc tc) \<and> plane_ok (tc_bp tc)
     \<and> fixed_settings (tc_cfg tc) = fixed_settings cfg
     \<and> (tc_topology tc \<noteq> [] \<longrightarrow> known_topology cfg (tc_topology tc))
     \<and> (tc_hcpNamespaces tc \<noteq> None \<longrightarrow> tc_topology tc = ''hcp'' \<and> pl_Dynamic (tc_mc tc) \<noteq> None)"

text \<open>
  What a step never takes back: the parts of a plane, a shard and a metrics URL that are set, and all the RHOBS settings
  once the access is complete.
\<close>

definition plane_kept :: "('r, 'k, 'w) plane \<Rightarrow> ('r, 'k, 'w) plane \<Rightarrow> bool" where
  "plane_kept pl pl' \<longleftrightarrow> (pl_Rest pl \<noteq> None \<longrightarrow> pl_Rest pl' \<noteq> None) \<and> (pl_Kube pl \<noteq> None \<longrightarrow> pl_Kube pl' \<noteq> None)
     \<and> (pl_Dynamic pl \<noteq> None \<longrightarrow> pl_Dynamic pl' \<noteq> None)"

definition rhobs_settings :: "Config \<Rightarrow> string list" where
  "rhobs_settings c = [RHOBSProbeAPIURL c, RHOBSOIDCClientID c, RHOBSOIDCClientSecret c, RHOBSOIDCIssuerURL c]"

definition settings_kept :: "Config \<Rightarrow> Config \<Rightarrow> bool" where
  "settings_kept c c' \<longleftrightarrow> (ProvisionShardID c \<noteq> [] \<longrightarrow> ProvisionShardID c' = ProvisionShardID c)
     \<and> (RHOBSMetricsAPIURL c \<noteq> [] \<longrightarrow> RHOBSMetricsAPIURL c' = RHOBSMetricsAPIURL c)
     \<and> (list_all (\<lambda>x. x \<noteq> []) (rhobs_settings c) \<longrightarrow> rhobs_settings c' = rhobs_settings c \<and> RHOBSMetricsAPIURL c' = RHOBSMetricsAPIURL c)"

definition context_kept :: "('r, 'k, 'a, 'w) test_context \<Rightarrow> ('r, 'k, 'a, 'w) test_context \<Rightarrow> bool" where
  "context_kept tc tc' \<longleftrightarrow>
     (tc_topology tc \<noteq> [] \<longrightarrow> tc_topology tc' = tc_topology tc)
     \<and> (tc_hcpNamespaces tc \<noteq> None \<longrightarrow> tc_hcpNamespaces tc' \<noteq> None)
     \<and> (HasAWSAccess tc \<longrightarrow> HasAWSAccess tc') \<and> settings_kept (tc_cfg tc) (tc_cfg tc')
     \<and> plane_kept (tc_hc tc) (tc_hc tc') \<and> plane_kept (tc_mc tc) (tc_mc tc')
     \<and> plane_kept (tc_sc tc) (tc_sc tc') \<and> plane_kept (tc_bp tc) (tc_bp tc')"

lemma plane_kept_refl [simp]: "plane_kept pl pl"
  by (simp add: plane_kept_def)

lemma plane_kept_trans: "plane_kept a b \<Longrightarrow> plane_kept b c \<Longrightarrow> plane_kept a c"
  by (auto simp: plane_kept_def)

lemma settings_kept_refl [simp]: "settings_kept c c"
  by (simp add: settings_kept_def)

lemma settings_kept_trans: "settings_kept a b \<Longrightarrow> settings_kept b c \<Longrightarrow> settings_kept a c"
  by (auto simp: settings_kept_def)

lemma context_kept_refl [simp]: "context_kept tc tc"
  by (simp add: context_kept_def)

lemma context_kept_trans: "context_kept a b \<Longrightarrow> context_kept b c \<Longrightarrow> context_kept a c"
  by (auto simp: context_kept_def intro: plane_kept_trans settings_kept_trans)

lemma HasRHOBSAccess_settings: "HasRHOBSAccess tc \<longleftrightarrow> list_all (\<lambda>x. x \<noteq> []) (rhobs_settings (tc_cfg tc))"
  by (auto simp: HasRHOBSAccess_def rhobs_settings_def)

lemma init_plane_ok:
  assumes "init_plane env name r pl = (e, pl')"
  shows "plane_ok pl \<Longrightarrow> plane_ok pl'"
    and "plane_kept pl pl'"
    and "e = None \<Longrightarrow> pl_Dynamic pl' \<noteq> None \<and> pl_Kube pl' \<noteq> None \<and> pl_Rest pl' = Some r"
  using assms by (auto simp: init_plane_def plane_ok_def plane_kept_def Let_def split: sum.splits)

text \<open>
  What a nil result of an Init method installs: both clients of its own cluster, built from one rest.Config, while the
  accessors of the other clusters answer as before.
\<close>

lemma init_plane_Some:
  assumes "init_plane env name r pl = (None, pl')"
  shows "\<exists>k d. NewKubeClient env r = Inr k \<and> dynamic_NewForConfig env r = Inr d \<and> pl' = \<lparr>pl_Rest = Some r, pl_Kube = Some k, pl_Dynamic = Some d\<rparr>"
  using assms by (auto simp: init_plane_def Let_def split: sum.splits)

lemma InitHCClients_nil:
  assumes "InitHCClients env tc w = (None, tc', w')"
  shows "HCKubeClient tc' \<noteq> None \<and> HCDynamicClient tc' \<noteq> None
    \<and> MCKubeClient tc' = MCKubeClient tc \<and> SCKubeClient tc' = SCKubeClient tc \<and> BPKubeClient tc' = BPKubeClient tc
    \<and> EC2Client tc' = EC2Client tc \<and> Config_of tc' = Config_of tc"
  using assms init_plane_Some by (fastforce simp: InitHCClients_def accessors split: sum.splits prod.splits)

lemma InitSCClients_nil:
  assumes "InitSCClients env tc w = (None, tc', w')"
  shows "SCKubeClient tc' \<noteq> None \<and> SCDynamicClient tc' \<noteq> None
    \<and> HCKubeClient tc' = HCKubeClient tc \<and> MCKubeClient tc' = MCKubeClient tc \<and> BPKubeClient tc' = BPKubeClient tc
    \<and> EC2Client tc' = EC2Client tc \<and> Config_of tc' = Config_of tc"
  using assms init_plane_Some by (fastforce simp: InitSCClients_def accessors split: sum.splits prod.splits)

lemma InitBPClients_nil:
  assumes "InitBPClients env tc w = (None, tc', w')"
  shows "BPKubeClient tc' \<noteq> None \<and> BPDynamicClient tc' \<noteq> None
    \<and> HCKubeClient tc' = HCKubeClient tc \<and> MCKubeClient tc' = MCKubeClient tc \<and> SCKubeClient tc' = SCKubeClient tc
    \<and> EC2Client tc' = EC2Client tc \<and> Config_of tc' = Config_of tc"
  using assms init_plane_Some by (fastforce simp: InitBPClients_def accessors Let_def split: sum.splits prod.splits if_splits)

lemma InitAWSClients_nil:
  assumes "InitAWSClients env tc w = (None, tc', w')"
  shows "EC2Client tc' \<noteq> None \<and> CloudTrailClient tc' = EC2Client tc' \<and> KMSClient tc' = EC2Client tc' \<and> HasAWSAccess tc'"
  using assms by (auto simp: InitAWSClients_def accessors HasAWSAccess_def split: sum.splits prod.splits if_splits option.splits)

lemma fixed_settings_rhobs [simp]: "fixed_settings (take_rhobs_data d c) = fixed_settings c"
  by (simp add: fixed_settings_def take_rhobs_data_def derive_metrics_url_def)

lemma fixed_settings_shard: "c' = c\<lparr>ProvisionShardID := x\<rparr> \<Longrightarrow> fixed_settings c' = fixed_settings c"
  by (simp add: fixed_settings_def)

lemma ClusterTopology_fixed [simp]: "ClusterTopology (fixed_settings c) = ClusterTopology c"
  by (simp add: fixed_settings_def)

lemma known_topology_fixed: "fixed_settings c = fixed_settings c' \<Longrightarrow> known_topology c t = known_topology c' t"
  unfolding known_topology_def by (metis ClusterTopology_fixed)

lemma find_namespaces_spec:
  assumes "find_namespaces env dc tc w = (tc', w')"
  shows "\<exists>t ns. tc' = tc\<lparr>tc_topology := t, tc_hcpNamespaces := ns\<rparr>
    \<and> (tc_topology tc \<noteq> [] \<longrightarrow> t = tc_topology tc) \<and> (t \<noteq> [] \<longrightarrow> tc_topology tc = [] \<longrightarrow> known_topology (tc_cfg tc) t)
    \<and> (ns = tc_hcpNamespaces tc \<or> ns \<noteq> None \<and> t = ''hcp'')"
proof (cases "ClusterID (tc_cfg tc) = []")
  case True
  then have "tc' = tc" using assms by (simp add: find_namespaces_def)
  then show ?thesis by (intro exI [of _ "tc_topology tc"] exI [of _ "tc_hcpNamespaces tc"]) simp
next
  case False
  obtain t tc1 w1 where top: "Topology env tc w = (t, tc1, w1)" by (metis prod_cases3)
  have t: "tc1 = tc\<lparr>tc_topology := t\<rparr>" "tc_topology tc \<noteq> [] \<longrightarrow> t = tc_topology tc"
    "tc_topology tc = [] \<longrightarrow> t \<noteq> [] \<longrightarrow> known_topology (tc_cfg tc) t"
    using Topology_cases [OF top] by (metis, blast, blast)
  have "\<exists>ns. tc' = tc1\<lparr>tc_hcpNamespaces := ns\<rparr> \<and> (ns = tc_hcpNamespaces tc \<or> ns \<noteq> None \<and> t = ''hcp'')"
  proof (cases "tc' = tc1")
    case True
    then have "tc' = tc1\<lparr>tc_hcpNamespaces := tc_hcpNamespaces tc1\<rparr>" by simp
    then show ?thesis using t(1) by (intro exI [of _ "tc_hcpNamespaces tc1"]) simp
  next
    case changed: False
    then show ?thesis using assms False top
      by (auto simp: find_namespaces_def split: if_splits prod.splits sum.splits)
  qed
  then obtain ns where n: "tc' = tc1\<lparr>tc_hcpNamespaces := ns\<rparr>" "ns = tc_hcpNamespaces tc \<or> ns \<noteq> None \<and> t = ''hcp''" by blast
  have "tc' = tc\<lparr>tc_topology := t, tc_hcpNamespaces := ns\<rparr>" using n(1) t(1) by simp
  then show ?thesis using n(2) t(2,3) by (intro exI [of _ t] exI [of _ ns]) simp
qed

text \<open>The parts of a step that touch one plane only.\<close>

lemma context_inv_planes:
  assumes "context_inv cfg tc"
  shows "plane_ok pl \<Longrightarrow> context_inv cfg (tc\<lparr>tc_hc := pl\<rparr>)" "plane_ok pl \<Longrightarrow> context_inv cfg (tc\<lparr>tc_sc := pl\<rparr>)"
    "plane_ok pl \<Longrightarrow> context_inv cfg (tc\<lparr>tc_bp := pl\<rparr>)" "context_inv cfg (tc\<lparr>tc_aws := a\<rparr>)"
    "plane_ok pl \<Longrightarrow> (pl_Dynamic (tc_mc tc) \<noteq> None \<Longrightarrow> pl_Dynamic pl \<noteq> None) \<Longrightarrow> context_inv cfg (tc\<lparr>tc_mc := pl\<rparr>)"
    "fixed_settings c = fixed_settings (tc_cfg tc) \<Longrightarrow> context_inv cfg (tc\<lparr>tc_cfg := c\<rparr>)"
  using assms by (auto simp: context_inv_def)

lemma context_kept_planes:
  "plane_kept (tc_hc tc) pl \<Longrightarrow> context_kept tc (tc\<lparr>tc_hc := pl\<rparr>)" "plane_kept (tc_sc tc) pl \<Longrightarrow> context_kept tc (tc\<lparr>tc_sc := pl\<rparr>)"
  "plane_kept (tc_bp tc) pl \<Longrightarrow> context_kept tc (tc\<lparr>tc_bp := pl\<rparr>)" "plane_kept (tc_mc tc) pl \<Longrightarrow> context_kept tc (tc\<lparr>tc_mc := pl\<rparr>)"
  "context_kept tc (tc\<lparr>tc_aws := Some a\<rparr>)" "settings_kept (tc_cfg tc) c \<Longrightarrow> context_kept tc (tc\<lparr>tc_cfg := c\<rparr>)"
  by (simp_all add: context_kept_def HasAWSAccess_def)

lemma context_mc_step:
  assumes inv: "context_inv cfg tc" and mc: "InitMCClients env tc w = (e, tc', w')"
  shows "context_inv cfg tc' \<and> context_kept tc tc'"
proof (cases "tc' = tc")
  case True
  then show ?thesis using inv by simp
next
  case False
  obtain restCfg w2 x pl where pl: "init_plane env ''MC'' restCfg (tc_mc tc) = (x, pl)"
    and f: "case x of Some y \<Rightarrow> tc' = tc\<lparr>tc_mc := pl\<rparr>
      | None \<Rightarrow> find_namespaces env (the (pl_Dynamic pl)) (tc\<lparr>tc_mc := pl\<rparr>) w2 = (tc', w')"
    using mc False by (auto simp: InitMCClients_def split: prod.splits sum.splits option.splits)
  let ?tc = "tc\<lparr>tc_mc := pl\<rparr>"
  have inv1: "context_inv cfg ?tc"
    using init_plane_ok [OF pl] inv by (intro context_inv_planes) (simp_all add: context_inv_def plane_kept_def)
  have kept1: "context_kept tc ?tc" using context_kept_planes(4) init_plane_ok(2) [OF pl] by blast
  show ?thesis
  proof (cases x)
    case (Some y)
    then show ?thesis using f inv1 kept1 by simp
  next
    case None
    then obtain t ns where t: "tc' = ?tc\<lparr>tc_topology := t, tc_hcpNamespaces := ns\<rparr>"
      "tc_topology tc \<noteq> [] \<longrightarrow> t = tc_topology tc" "t \<noteq> [] \<longrightarrow> tc_topology tc = [] \<longrightarrow> known_topology (tc_cfg tc) t"
      "ns = tc_hcpNamespaces tc \<or> ns \<noteq> None \<and> t = ''hcp''"
      using f find_namespaces_spec [of env "the (pl_Dynamic pl)" ?tc w2 tc' w'] by auto
    have "pl_Dynamic pl \<noteq> None" using init_plane_ok(3) [OF pl] None by simp
    moreover have "known_topology (tc_cfg tc) t = known_topology cfg t"
      using inv by (intro known_topology_fixed) (simp add: context_inv_def)
    moreover have "tc_topology tc \<noteq> [] \<longrightarrow> known_topology cfg (tc_topology tc)" "tc_hcpNamespaces tc \<noteq> None \<longrightarrow> tc_topology tc = ''hcp''"
      using inv by (simp_all add: context_inv_def)
    ultimately have "context_inv cfg tc'"
      using inv1 t(2-4) unfolding t(1) context_inv_def by (cases "tc_topology tc = []") auto
    moreover have "context_kept ?tc tc'"
      using t(2-4) unfolding t(1) context_kept_def HasAWSAccess_def by auto
    ultimately show ?thesis using context_kept_trans [OF kept1] by simp
  qed
qed

lemma CreateRosaHCPCluster_cfg:
  assumes "CreateRosaHCPCluster rt conn cfg s = (r, cfg', s')"
  shows "\<exists>x. cfg' = cfg\<lparr>ProvisionShardID := x\<rparr> \<and> (ProvisionShardID cfg \<noteq> [] \<longrightarrow> x = ProvisionShardID cfg)"
proof -
  have "cfg' = cfg \<or> (\<exists>s2 s3. ensure_shard conn cfg s2 = (Inr cfg', s3))"
    using assms by (auto simp: CreateRosaHCPCluster_def Let_def split: prod.splits sum.splits if_splits)
  moreover have "cfg = cfg\<lparr>ProvisionShardID := ProvisionShardID cfg\<rparr>" by simp
  ultimately show ?thesis using ensure_shard_Inr by metis
qed

lemma settings_kept_rhobs: "\<not> list_all (\<lambda>x. x \<noteq> []) (rhobs_settings c) \<Longrightarrow> settings_kept c (take_rhobs_data d c)"
  by (simp add: settings_kept_def take_rhobs_data_def derive_metrics_url_def)

lemma context_rhobs_step:
  assumes inv: "context_inv cfg tc" and r: "LoadRHOBSCredentialsFromMC env tc w = (e, tc', w')"
  shows "context_inv cfg tc' \<and> context_kept tc tc'"
proof -
  have "tc' = tc \<or> \<not> HasRHOBSAccess tc \<and> (\<exists>d. tc' = tc\<lparr>tc_cfg := take_rhobs_data d (tc_cfg tc)\<rparr>)"
    using r by (auto simp: LoadRHOBSCredentialsFromMC_def Let_def split: if_splits option.splits prod.splits sum.splits)
  then show ?thesis
    using inv context_inv_planes(6) [OF inv] settings_kept_rhobs by (auto simp: HasRHOBSAccess_settings intro!: context_kept_planes(6))
qed

lemma context_step_keeps:
  assumes "context_step env tc tc'" and inv: "context_inv cfg tc"
  shows "context_inv cfg tc' \<and> context_kept tc tc'"
  using assms(1)
proof cases
  case (topology w t w')
  have "known_topology (tc_cfg tc) t = known_topology cfg t"
    using inv by (intro known_topology_fixed) (simp add: context_inv_def)
  then show ?thesis
    using Topology_cases [OF topology] inv
    by (cases "tc_topology tc = []"; cases "t = []")
      (auto simp: context_inv_def context_kept_def HasAWSAccess_def)
next
  case (hc w e w')
  then show ?thesis using inv init_plane_ok(1,2)
    by (auto simp: InitHCClients_def context_inv_def intro!: context_inv_planes [OF inv] context_kept_planes split: prod.splits sum.splits)
next
  case (mc w e w')
  then show ?thesis by (rule context_mc_step [OF inv])
next
  case (sc w e w')
  then show ?thesis using inv init_plane_ok(1,2)
    by (auto simp: InitSCClients_def context_inv_def intro!: context_inv_planes [OF inv] context_kept_planes split: prod.splits sum.splits)
next
  case (bp w e w')
  then show ?thesis using inv init_plane_ok(1,2)
    by (auto simp: InitBPClients_def context_inv_def Let_def intro!: context_inv_planes [OF inv] context_kept_planes
        split: prod.splits sum.splits if_splits)
next
  case (aws w e w')
  then show ?thesis using inv context_inv_planes(4) [OF inv] context_kept_planes(5)
    by (auto simp: InitAWSClients_def split: prod.splits sum.splits if_splits)
next
  case (rhobs w e w')
  then show ?thesis by (rule context_rhobs_step [OF inv])
next
  case (create rt s r cfg' s')
  then obtain x where "cfg' = (tc_cfg tc)\<lparr>ProvisionShardID := x\<rparr>" "ProvisionShardID (tc_cfg tc) \<noteq> [] \<longrightarrow> x = ProvisionShardID (tc_cfg tc)"
    using CreateRosaHCPCluster_cfg by blast
  then show ?thesis using create(1) context_inv_planes(6) [OF inv, of cfg'] context_kept_planes(6) [of tc cfg']
    by (auto simp: fixed_settings_shard settings_kept_def rhobs_settings_def)
qed

lemma context_steps_keep:
  assumes "(context_step env)\<^sup>*\<^sup>* tc tc'" and "context_inv cfg tc"
  shows "context_inv cfg tc' \<and> context_kept tc tc'"
  using assms(1) by induction (use assms(2) context_step_keeps context_kept_trans in \<open>simp, blast\<close>)


section \<open>RHOBS access\<close>

text \<open>
  C34. LoadRHOBSCredentialsFromMC returns nil exactly when the context has complete RHOBS access afterwards. Complete
  access is left alone, without a look at the cluster. Otherwise, when the ConfigMap can be read, its values replace
  the four settings, also those that were set before and that the ConfigMap does not have; a metrics URL
  that is set stays, and else it is the probe URL without its suffix. When it cannot be read nothing changes.
\<close>

theorem rhobs_credentials_loaded:
  assumes "LoadRHOBSCredentialsFromMC env tc w = (e, tc', w')"
  shows "(e = None \<longleftrightarrow> HasRHOBSAccess tc') \<and> (HasRHOBSAccess tc \<longrightarrow> tc' = tc \<and> w' = w)
    \<and> (\<not> HasRHOBSAccess tc \<longrightarrow>
        (case pl_Kube (tc_mc tc) of
           None \<Rightarrow> tc' = tc \<and> w' = w
         | Some kube \<Rightarrow>
             (case fst (configmap_Data env kube ''openshift-route-monitor-operator'' ''route-monitor-operator-config'' w) of
                Inl err \<Rightarrow> tc' = tc
              | Inr d \<Rightarrow>
                  map (\<lambda>f. f (tc_cfg tc')) [RHOBSProbeAPIURL, RHOBSOIDCClientID, RHOBSOIDCClientSecret, RHOBSOIDCIssuerURL]
                    = map (data_or_empty d) [''probe-api-url'', ''oidc-client-id'', ''oidc-client-secret'', ''oidc-issuer-url'']
                  \<and> RHOBSMetricsAPIURL (tc_cfg tc') =
                     (if RHOBSMetricsAPIURL (tc_cfg tc) \<noteq> [] then RHOBSMetricsAPIURL (tc_cfg tc)
                      else trim_suffix (data_or_empty d ''probe-api-url'') ''/probes''))))"
proof (cases "HasRHOBSAccess tc")
  case True
  then show ?thesis using assms by (simp add: LoadRHOBSCredentialsFromMC_def)
next
  case False
  show ?thesis
  proof (cases "pl_Kube (tc_mc tc)")
    case None
    then show ?thesis using assms False by (auto simp: LoadRHOBSCredentialsFromMC_def)
  next
    case (Some kube)
    obtain q w1 where c: "configmap_Data env kube ''openshift-route-monitor-operator'' ''route-monitor-operator-config'' w = (q, w1)"
      by (metis surj_pair)
    show ?thesis
    proof (cases q)
      case (Inl err)
      then show ?thesis using assms False Some c by (auto simp: LoadRHOBSCredentialsFromMC_def)
    next
      case (Inr d)
      then have t: "tc' = tc\<lparr>tc_cfg := take_rhobs_data d (tc_cfg tc)\<rparr>" "e = None \<longleftrightarrow> HasRHOBSAccess tc'"
        using assms False Some c by (auto simp: LoadRHOBSCredentialsFromMC_def Let_def split: if_splits)
      show ?thesis
        using t(2) False Some c Inr unfolding t(1)
        by (simp add: take_rhobs_data_def derive_metrics_url_def trim_suffix_def has_suffix_def)
    qed
  qed
qed

section \<open>Concrete runs\<close>

definition sample_env :: "(string \<rightharpoonup> string) \<Rightarrow> (unit, unit, unit, unit) context_env" where
  "sample_env d = \<lparr>getenv = (\<lambda>v. if v = ''MC_KUBECONFIG'' then ''/tmp/mc'' else []), ocm = sample_conn,
     BuildConfigFromFlags = (\<lambda>p w. (Inr (), w)), RESTConfigFromKubeConfig = (\<lambda>k. Inr ()),
     kubernetes_NewForConfig = (\<lambda>r. Inr ()), dynamic_NewForConfig = (\<lambda>r. Inr (static_dynamic [])),
     configmap_Data = (\<lambda>k ns n w. (Inr d, w)), LoadDefaultConfig = (\<lambda>r w. (Inr (), w)),
     Credentials_Retrieve = (\<lambda>a w. ((True, None), w))\<rparr>"

definition partial_cfg :: Config where
  "partial_cfg = default_config\<lparr>ClusterTopology := ''classic'', RHOBSOIDCClientID := ''from-env''\<rparr>"

definition mc_context :: "(unit, unit, unit, unit) test_context" where
  "mc_context = (NewTestContext partial_cfg)
     \<lparr>tc_mc := \<lparr>pl_Rest = Some (), pl_Kube = Some (), pl_Dynamic = Some (static_dynamic [])\<rparr>\<rparr>"

lemma mc_context_reached: "InitMCClients (sample_env d) (NewTestContext partial_cfg) () = (None, mc_context, ())"
  by (simp add: InitMCClients_def mc_cluster_id_def sample_env_def resolveKubeconfig_def NewTestContext_def partial_cfg_def
      default_config_def init_plane_def NewKubeClient_def Let_def find_namespaces_def mc_context_def empty_plane_def)

theorem topology_found_once_witness:
  "\<forall>u. Topology (sample_env Map.empty) (mc_context\<lparr>tc_topology := ''classic''\<rparr>) u = (''classic'', mc_context\<lparr>tc_topology := ''classic''\<rparr>, u)"
proof -
  have "Topology (sample_env Map.empty) mc_context () = (''classic'', mc_context\<lparr>tc_topology := ''classic''\<rparr>, ())"
    by (simp add: Topology_def mc_context_def NewTestContext_def partial_cfg_def)
  from topology_found_once [OF this] show ?thesis by simp
qed


theorem rhobs_credentials_loaded_witness:
  "\<exists>e tc'. LoadRHOBSCredentialsFromMC (sample_env [''probe-api-url'' \<mapsto> ''https://r/probes'']) mc_context () = (Some e, tc', ())
     \<and> \<not> HasRHOBSAccess tc' \<and> RHOBSOIDCClientID (tc_cfg mc_context) = ''from-env'' \<and> RHOBSOIDCClientID (tc_cfg tc') = []"
proof -
  let ?env = "sample_env [''probe-api-url'' \<mapsto> ''https://r/probes'']"
  obtain e tc' w' where l: "LoadRHOBSCredentialsFromMC ?env mc_context () = (e, tc', w')" by (metis prod_cases3)
  have c: "\<not> HasRHOBSAccess mc_context" "pl_Kube (tc_mc mc_context) = Some ()" "RHOBSOIDCClientID (tc_cfg mc_context) = ''from-env''"
    "configmap_Data ?env k ns n u = (Inr [''probe-api-url'' \<mapsto> ''https://r/probes''], u)" for k ns n u
    by (simp_all add: mc_context_def NewTestContext_def partial_cfg_def default_config_def HasRHOBSAccess_def sample_env_def)
  have "RHOBSOIDCClientID (tc_cfg tc') = []" "e = None \<longleftrightarrow> HasRHOBSAccess tc'"
    using rhobs_credentials_loaded [OF l] by (simp_all add: c data_or_empty_def)
  then show ?thesis using l c(3) by (cases e) (simp_all add: HasRHOBSAccess_def)
qed

end
