(* ===== verification/Stability.thy ===== *)
theory Stability
  imports Polling Ocm_Org Aws_Verifiers
begin

text \<open>
  pkg/verifiers/oauth_readiness.go (the oauth-apiserver pods are ready and the well-known endpoint answers) and
  revision.go (no deployment changes its revision while it is observed). Listing pods and deployments is a
  parameter: a pod is the list of the Ready flags of its containers, a deployment its namespace, its name and its
  annotations.
\<close>

section \<open>oauth_readiness.go\<close>

definition oauthAPIServerNamespace :: string where "oauthAPIServerNamespace = ''openshift-oauth-apiserver''"
definition oauthAPIServerLabel :: string where "oauthAPIServerLabel = ''app=openshift-oauth-apiserver''"
definition oauthWellKnownPath :: string where "oauthWellKnownPath = ''/.well-known/oauth-authorization-server''"

type_synonym 'w pod_lister = "string \<Rightarrow> string \<Rightarrow> 'w \<Rightarrow> (go_error + bool list list) \<times> 'w"

fun all_containers_ready :: "bool list \<Rightarrow> bool" where
  "all_containers_ready [] = True"
| "all_containers_ready (r # rs) = (if \<not> r then False else all_containers_ready rs)"

definition isPodContainersReady :: "bool list \<Rightarrow> bool" where
  "isPodContainersReady statuses = (if statuses = [] then False else all_containers_ready statuses)"

fun all_pods_ready :: "bool list list \<Rightarrow> bool" where
  "all_pods_ready [] = True"
| "all_pods_ready (p # ps) = (if \<not> isPodContainersReady p then False else all_pods_ready ps)"

text \<open>The select statement that ends a round: the error of the context, or another round.\<close>

definition pause :: "'w go_runtime \<Rightarrow> int \<Rightarrow> 'w \<Rightarrow> go_error option option \<times> 'w" where
  "pause rt interval w =
     (case select_done rt interval w of (Some e, w') \<Rightarrow> (Some (Some e), w') | (None, w') \<Rightarrow> (None, w'))"

definition oauth_pods_body ::
  "'w go_runtime \<Rightarrow> 'w pod_lister \<Rightarrow> int \<Rightarrow> int \<Rightarrow> 'w \<Rightarrow> go_error option option \<times> 'w" where
  "oauth_pods_body rt list_pods timeout deadline w =
     (if time_now rt w > deadline
      then (Some (Some (Errorf ''timed out after %s waiting for oauth-apiserver pods to be ready'' [FDur timeout])), w)
      else (case list_pods oauthAPIServerNamespace oauthAPIServerLabel w of
          (Inl err, w1) \<Rightarrow> (Some (Some (Errorf ''listing oauth-apiserver pods: %w'' [FErr err])), w1)
        | (Inr pods, w1) \<Rightarrow>
            if pods = [] then pause rt (15 * second) w1
            else if all_pods_ready pods then (Some None, w1)
            else pause rt (15 * second) w1))"

definition waitForOAuthPodReadiness ::
  "'w go_runtime \<Rightarrow> 'w pod_lister \<Rightarrow> int \<Rightarrow> 'w \<Rightarrow> (go_error option \<times> 'w) option" where
  "waitForOAuthPodReadiness rt list_pods timeout w =
     poll_loop (oauth_pods_body rt list_pods timeout (time_now rt w + timeout)) w"

definition well_known_endpoint :: "string \<Rightarrow> string" where
  "well_known_endpoint apiServerURL = trim_right apiServerURL (CHR ''/'') @ oauthWellKnownPath"

definition oauth_endpoint_body ::
  "'w go_runtime \<Rightarrow> 'w http_client \<Rightarrow> string \<Rightarrow> int \<Rightarrow> int \<Rightarrow> 'w \<Rightarrow> go_error option option \<times> 'w" where
  "oauth_endpoint_body rt hc endpoint timeout deadline w =
     (if time_now rt w > deadline
      then (Some (Some (Errorf ''timed out after %s waiting for OAuth well-known endpoint at %s'' [FDur timeout, FStr endpoint])), w)
      else (case check_request hc ''GET'' endpoint of
          Some err \<Rightarrow> (Some (Some (Errorf ''creating request for %s: %w'' [FStr endpoint, FErr err])), w)
        | None \<Rightarrow> (case http_Do hc (10 * second) \<lparr>rq_Method = ''GET'', rq_URL = endpoint, rq_Headers = [], rq_Body = []\<rparr> w of
              (Inr resp, w1) \<Rightarrow> if hr_StatusCode resp = 200 then (Some None, w1) else pause rt (10 * second) w1
            | (Inl reqErr, w1) \<Rightarrow> pause rt (10 * second) w1)))"

definition waitForOAuthWellKnownEndpoint ::
  "'w go_runtime \<Rightarrow> 'w http_client \<Rightarrow> string \<Rightarrow> int \<Rightarrow> 'w \<Rightarrow> (go_error option \<times> 'w) option" where
  "waitForOAuthWellKnownEndpoint rt hc apiServerURL timeout w =
     poll_loop (oauth_endpoint_body rt hc (well_known_endpoint apiServerURL) timeout (time_now rt w + timeout)) w"

definition VerifyOAuthServerReadiness ::
  "'w go_runtime \<Rightarrow> 'w pod_lister \<Rightarrow> 'w http_client \<Rightarrow> string \<Rightarrow> int \<Rightarrow> 'w \<Rightarrow> (go_error option \<times> 'w) option" where
  "VerifyOAuthServerReadiness rt list_pods hc apiServerURL timeout w =
     (case waitForOAuthPodReadiness rt list_pods timeout w of
        None \<Rightarrow> None
      | Some (Some err, w1) \<Rightarrow> Some (Some (Errorf ''oauth-apiserver pod readiness: %w'' [FErr err]), w1)
      | Some (None, w1) \<Rightarrow> (case waitForOAuthWellKnownEndpoint rt hc apiServerURL timeout w1 of
            None \<Rightarrow> None
          | Some (Some err, w2) \<Rightarrow> Some (Some (Errorf ''oauth well-known endpoint: %w'' [FErr err]), w2)
          | Some (None, w2) \<Rightarrow> Some (None, w2)))"

section \<open>revision.go\<close>

definition revisionAnnotation :: string where "revisionAnnotation = ''deployment.kubernetes.io/revision''"

record deploymentRef =
  dr_namespace :: string
  dr_name :: string

type_synonym deployment_row = "deploymentRef \<times> (string \<rightharpoonup> string)" \<comment> \<open>the annotations\<close>

fun revision_map :: "deployment_row list \<Rightarrow> (deploymentRef \<rightharpoonup> string) \<Rightarrow> (deploymentRef \<rightharpoonup> string)" where
  "revision_map [] revisions = revisions"
| "revision_map ((ref, annotations) # ds) revisions =
     revision_map ds (revisions(ref \<mapsto> (case annotations revisionAnnotation of None \<Rightarrow> [] | Some r \<Rightarrow> r)))"

text \<open>A snapshot with the keys of the map, in the order they were first set.\<close>

definition snapshotDeploymentRevisions ::
  "(string \<Rightarrow> 'w \<Rightarrow> (go_error + deployment_row list) \<times> 'w) \<Rightarrow> string \<Rightarrow> 'w
   \<Rightarrow> (go_error + deploymentRef list \<times> (deploymentRef \<rightharpoonup> string)) \<times> 'w" where
  "snapshotDeploymentRevisions list_deployments namespace w =
     (case list_deployments namespace w of
        (Inl err, w') \<Rightarrow> (Inl (Errorf ''listing deployments: %w'' [FErr err]), w')
      | (Inr items, w') \<Rightarrow> (Inr (remdups (map fst items), revision_map items Map.empty), w'))"

definition changed_line :: "(deploymentRef \<rightharpoonup> string) \<Rightarrow> (deploymentRef \<rightharpoonup> string) \<Rightarrow> deploymentRef \<Rightarrow> string list" where
  "changed_line initial final ref =
     (case (initial ref, final ref) of
        (Some initialRev, Some finalRev) \<Rightarrow>
          if initialRev \<noteq> finalRev
          then [fmt_Sprintf ''- %s/%s: revision %s -> %s'' [FStr (dr_namespace ref), FStr (dr_name ref), FStr initialRev, FStr finalRev]]
          else []
      | _ \<Rightarrow> [])"

text \<open>The loop ranges over the first snapshot in an order that Go leaves open: \<open>shuffle\<close>.\<close>

definition VerifyDeploymentRevisionsStable ::
  "'w go_runtime \<Rightarrow> (nat \<Rightarrow> deploymentRef list \<Rightarrow> deploymentRef list) \<Rightarrow> (string \<Rightarrow> 'w \<Rightarrow> (go_error + deployment_row list) \<times> 'w)
   \<Rightarrow> string \<Rightarrow> int \<Rightarrow> 'w \<Rightarrow> go_error option \<times> 'w" where
  "VerifyDeploymentRevisionsStable rt shuffle list_deployments namespace observationPeriod w =
     (case snapshotDeploymentRevisions list_deployments namespace w of
        (Inl err, w1) \<Rightarrow> (Some (Errorf ''taking initial revision snapshot: %w'' [FErr err]), w1)
      | (Inr (keys, initial), w1) \<Rightarrow>
          if keys = [] then (None, w1)
          else (case select_done rt observationPeriod w1 of
              (Some e, w2) \<Rightarrow> (Some e, w2)
            | (None, w2) \<Rightarrow> (case snapshotDeploymentRevisions list_deployments namespace w2 of
                  (Inl err, w3) \<Rightarrow> (Some (Errorf ''taking final revision snapshot: %w'' [FErr err]), w3)
                | (Inr (_, final), w3) \<Rightarrow>
                    (let changed = concat (map (changed_line initial final) (shuffle 0 keys)) in
                     if changed \<noteq> []
                     then (Some (Errorf (''found %d deployment(s) with unexpected revision changes during %s observation:'' @ nl @ ''%s'')
                             [FInt (int (length changed)), FDur observationPeriod, FStr (str_join nl changed)]), w3)
                     else (None, w3)))))"

section \<open>The waits end\<close>

text \<open>
  How many more rounds a wait with this interval can have before its deadline. The clock does not go back during a
  call, and the timer of a pause fires after the interval (\<open>clock_ok\<close>).
\<close>

definition rounds_left :: "'w go_runtime \<Rightarrow> int \<Rightarrow> int \<Rightarrow> 'w \<Rightarrow> nat" where
  "rounds_left rt interval deadline w =
     (if time_now rt w > deadline then 0 else Suc (nat ((deadline - time_now rt w) div interval)))"

definition clock_forward :: "'w go_runtime \<Rightarrow> ('w \<Rightarrow> 'a \<times> 'w) \<Rightarrow> bool" where
  "clock_forward rt f \<longleftrightarrow> (\<forall>w. time_now rt w \<le> time_now rt (snd (f w)))"

lemma rounds_left_pause:
  assumes "clock_ok rt" and "time_now rt w \<le> deadline" and "time_now rt w \<le> time_now rt w1"
    and "pause rt interval w1 = (None, w')" and "0 < interval"
  shows "rounds_left rt interval deadline w' < rounds_left rt interval deadline w"
proof -
  have "select_done rt interval w1 = (None, w')" using assms(4) by (auto simp: pause_def split: prod.splits option.splits)
  then have t: "time_now rt w + interval \<le> time_now rt w'" using assms(1,3) unfolding clock_ok_def by fastforce
  show ?thesis
  proof (cases "time_now rt w' > deadline")
    case True
    then show ?thesis using assms(2) by (simp add: rounds_left_def)
  next
    case False
    have "(deadline - time_now rt w') div interval \<le> (deadline - time_now rt w - interval) div interval"
      using t assms(5) by (intro zdiv_mono1) auto
    also have "\<dots> = (deadline - time_now rt w) div interval - 1"
      using assms(5) by (metis div_add_self2 diff_add_cancel add_diff_cancel_right' order_less_irrefl)
    finally have "(deadline - time_now rt w') div interval < (deadline - time_now rt w) div interval" by simp
    moreover have "0 \<le> (deadline - time_now rt w') div interval" using False assms(5) by (simp add: pos_imp_zdiv_nonneg_iff)
    ultimately show ?thesis using False assms(2) by (simp add: rounds_left_def)
  qed
qed

definition pods_seen_ready :: "'w pod_lister \<Rightarrow> bool" where
  "pods_seen_ready list_pods \<longleftrightarrow>
     (\<exists>w pods. fst (list_pods oauthAPIServerNamespace oauthAPIServerLabel w) = Inr pods
        \<and> pods \<noteq> [] \<and> list_all (\<lambda>p. p \<noteq> [] \<and> list_all (\<lambda>r. r) p) pods)"

lemma all_pods_ready_iff: "all_pods_ready pods \<longleftrightarrow> list_all (\<lambda>p. p \<noteq> [] \<and> list_all (\<lambda>r. r) p) pods"
proof -
  have "all_containers_ready rs \<longleftrightarrow> list_all (\<lambda>r. r) rs" for rs by (induction rs) auto
  then show ?thesis by (induction pods) (auto simp: isPodContainersReady_def)
qed

interpretation oauth_pods: bounded_poll "oauth_pods_body rt list_pods timeout deadline"
  "\<lambda>w. clock_ok rt \<and> clock_forward rt (list_pods oauthAPIServerNamespace oauthAPIServerLabel)"
  "\<lambda>w r. r = None \<longrightarrow> pods_seen_ready list_pods" "rounds_left rt (15 * second) deadline" for rt list_pods timeout deadline
proof
  fix w r w'
  assume "oauth_pods_body rt list_pods timeout deadline w = (Some r, w')"
  then show "r = None \<longrightarrow> pods_seen_ready list_pods"
    by (auto simp: oauth_pods_body_def pods_seen_ready_def all_pods_ready_iff pause_def
        intro!: exI [of _ w] split: if_splits prod.splits sum.splits option.splits)
next
  fix w w'
  assume c: "clock_ok rt \<and> clock_forward rt (list_pods oauthAPIServerNamespace oauthAPIServerLabel)"
    and b: "oauth_pods_body rt list_pods timeout deadline w = (None, w')"
  obtain q w1 where l: "list_pods oauthAPIServerNamespace oauthAPIServerLabel w = (q, w1)" by (metis surj_pair)
  then have "time_now rt w \<le> time_now rt w1" using c unfolding clock_forward_def by (metis snd_conv)
  moreover have "time_now rt w \<le> deadline \<and> pause rt (15 * second) w1 = (None, w')"
    using b l by (auto simp: oauth_pods_body_def split: if_splits sum.splits)
  ultimately show "rounds_left rt (15 * second) deadline w' < rounds_left rt (15 * second) deadline w"
    using c by (intro rounds_left_pause [of rt w deadline w1]) (simp_all add: second_def)
qed

definition endpoint_answered :: "'w http_client \<Rightarrow> string \<Rightarrow> bool" where
  "endpoint_answered hc endpoint \<longleftrightarrow>
     (\<exists>w req resp. rq_Method req = ''GET'' \<and> rq_URL req = endpoint \<and> fst (http_Do hc (10 * second) req w) = Inr resp
        \<and> hr_StatusCode resp = 200)"

interpretation oauth_endpoint: bounded_poll "oauth_endpoint_body rt hc endpoint timeout deadline"
  "\<lambda>w. clock_ok rt \<and> (\<forall>t req. clock_forward rt (http_Do hc t req))"
  "\<lambda>w r. r = None \<longrightarrow> endpoint_answered hc endpoint" "rounds_left rt (10 * second) deadline" for rt hc endpoint timeout deadline
proof
  let ?req = "\<lparr>rq_Method = ''GET'', rq_URL = endpoint, rq_Headers = [], rq_Body = []\<rparr>"
  fix w r w'
  assume "oauth_endpoint_body rt hc endpoint timeout deadline w = (Some r, w')"
  then show "r = None \<longrightarrow> endpoint_answered hc endpoint"
    by (auto simp: oauth_endpoint_body_def endpoint_answered_def pause_def
        intro!: exI [of _ w] exI [of _ ?req] split: if_splits prod.splits sum.splits option.splits)
next
  let ?req = "\<lparr>rq_Method = ''GET'', rq_URL = endpoint, rq_Headers = [], rq_Body = []\<rparr>"
  fix w w'
  assume c: "clock_ok rt \<and> (\<forall>t req. clock_forward rt (http_Do hc t req))"
    and b: "oauth_endpoint_body rt hc endpoint timeout deadline w = (None, w')"
  obtain q w1 where l: "http_Do hc (10 * second) ?req w = (q, w1)" by (metis surj_pair)
  then have "time_now rt w \<le> time_now rt w1" using c unfolding clock_forward_def by (metis snd_conv)
  moreover have "time_now rt w \<le> deadline \<and> pause rt (10 * second) w1 = (None, w')"
    using b l by (auto simp: oauth_endpoint_body_def split: if_splits sum.splits option.splits)
  ultimately show "rounds_left rt (10 * second) deadline w' < rounds_left rt (10 * second) deadline w"
    using c by (intro rounds_left_pause [of rt w deadline w1]) (simp_all add: second_def)
qed

text \<open>
  C23. VerifyOAuthServerReadiness returns, whatever the cluster answers, when the clock runs; and when it returns nil,
  a listing of the oauth-apiserver pods was not empty and had every container of every pod ready, and the
  well-known endpoint answered a GET with status 200.
\<close>

theorem oauth_readiness_returns:
  assumes "clock_ok rt" and "clock_forward rt (list_pods oauthAPIServerNamespace oauthAPIServerLabel)"
    and "\<forall>t req. clock_forward rt (http_Do hc t req)"
  shows "\<exists>r w'. VerifyOAuthServerReadiness rt list_pods hc apiServerURL timeout w = Some (r, w')
    \<and> (r = None \<longrightarrow> pods_seen_ready list_pods \<and> endpoint_answered hc (well_known_endpoint apiServerURL))"
proof -
  obtain r1 w1 where p: "waitForOAuthPodReadiness rt list_pods timeout w = Some (r1, w1)" "r1 = None \<longrightarrow> pods_seen_ready list_pods"
    using oauth_pods.returns [where rt = rt and list_pods = list_pods and s = w and timeout = timeout
        and deadline = "time_now rt w + timeout"] assms(1,2)
    unfolding waitForOAuthPodReadiness_def by auto
  obtain r2 w2 where e: "waitForOAuthWellKnownEndpoint rt hc apiServerURL timeout w1 = Some (r2, w2)"
    "r2 = None \<longrightarrow> endpoint_answered hc (well_known_endpoint apiServerURL)"
    using oauth_endpoint.returns [where rt = rt and hc = hc and s = w1 and timeout = timeout
        and endpoint = "well_known_endpoint apiServerURL" and deadline = "time_now rt w1 + timeout"] assms(1,3)
    unfolding waitForOAuthWellKnownEndpoint_def by auto
  show ?thesis
    using p e by (cases r1; cases r2) (simp_all add: VerifyOAuthServerReadiness_def)
qed

section \<open>Revisions\<close>

text \<open>The revision of a deployment in a listing; the annotation of the last entry counts, and none is an empty revision.\<close>

definition listed_revision :: "deployment_row list \<Rightarrow> deploymentRef \<Rightarrow> string option" where
  "listed_revision ds ref =
     map_option (\<lambda>a. case a revisionAnnotation of None \<Rightarrow> [] | Some r \<Rightarrow> r) (map_of (rev ds) ref)"

lemma listed_revision_Cons:
  "listed_revision ((ref, a) # ds) r =
     (case listed_revision ds r of
        None \<Rightarrow> if r = ref then Some (case a revisionAnnotation of None \<Rightarrow> [] | Some x \<Rightarrow> x) else None
      | Some x \<Rightarrow> Some x)"
  by (auto simp: listed_revision_def map_add_def split: option.splits)

lemma revision_map_eq: "revision_map ds m r = (case listed_revision ds r of None \<Rightarrow> m r | Some x \<Rightarrow> Some x)"
proof (induction ds arbitrary: m)
  case (Cons d ds)
  obtain ref a where d: "d = (ref, a)" by (cases d)
  show ?case unfolding d revision_map.simps Cons.IH listed_revision_Cons by (cases "listed_revision ds r") simp_all
qed (simp add: listed_revision_def)

lemma revision_map_empty [simp]: "revision_map ds Map.empty = listed_revision ds"
  by (rule ext) (simp add: revision_map_eq split: option.split)

lemma listed_revision_dom: "listed_revision ds ref \<noteq> None \<longleftrightarrow> ref \<in> set (map fst ds)"
  by (simp add: listed_revision_def map_of_eq_None_iff)

definition revision_changed :: "deployment_row list \<Rightarrow> deployment_row list \<Rightarrow> deploymentRef \<Rightarrow> bool" where
  "revision_changed ds1 ds2 ref \<longleftrightarrow> listed_revision ds1 ref \<noteq> None \<and> listed_revision ds2 ref \<noteq> None
     \<and> listed_revision ds1 ref \<noteq> listed_revision ds2 ref"

lemma changed_line_Nil: "changed_line (listed_revision ds1) (listed_revision ds2) ref = [] \<longleftrightarrow> \<not> revision_changed ds1 ds2 ref"
  by (auto simp: changed_line_def revision_changed_def split: option.splits)

lemma changed_line_name: "p \<in> set (changed_line m1 m2 ref) \<Longrightarrow> contains p (dr_namespace ref) \<and> contains p (dr_name ref)"
  by (auto simp: changed_line_def eval_nat_numeral split: option.splits if_splits
      intro: Sprintf_contains_str [where i = 0] Sprintf_contains_str [where i = 1])

lemma revision_error_text:
  "p \<in> set ps \<Longrightarrow> contains (error_text (Errorf (''found %d deployment(s) with unexpected revision changes during %s observation:'' @ nl @ ''%s'')
     [FInt n, FDur d, FStr (str_join nl ps)])) p"
  by (rule contains_trans [OF Errorf_contains_str [where i = 2] contains_join]) (simp_all add: nl_def eval_nat_numeral)

text \<open>The lines of the report, for two snapshots.\<close>

definition report_lines :: "(nat \<Rightarrow> deploymentRef list \<Rightarrow> deploymentRef list) \<Rightarrow> deployment_row list \<Rightarrow> deployment_row list \<Rightarrow> string list" where
  "report_lines shuffle ds1 ds2 = concat (map (changed_line (listed_revision ds1) (listed_revision ds2)) (shuffle 0 (remdups (map fst ds1))))"

definition report_error :: "string list \<Rightarrow> int \<Rightarrow> go_error" where
  "report_error ls period = Errorf (''found %d deployment(s) with unexpected revision changes during %s observation:'' @ nl @ ''%s'')
     [FInt (int (length ls)), FDur period, FStr (str_join nl ls)]"

lemma report_names:
  assumes "map_range_ok shuffle" and "revision_changed ds1 ds2 ref"
  shows "\<exists>p \<in> set (report_lines shuffle ds1 ds2). contains p (dr_namespace ref) \<and> contains p (dr_name ref)"
proof -
  obtain p where p: "p \<in> set (changed_line (listed_revision ds1) (listed_revision ds2) ref)"
    using assms(2) changed_line_Nil by (metis list.set_intros(1) neq_Nil_conv)
  have "ref \<in> set (map fst ds1)" using assms(2) listed_revision_dom [of ds1 ref] by (simp add: revision_changed_def)
  then have "p \<in> set (report_lines shuffle ds1 ds2)" using p map_range_set [OF assms(1)] unfolding report_lines_def by auto
  then show ?thesis using changed_line_name [OF p] by blast
qed

lemma report_empty: "map_range_ok shuffle \<Longrightarrow> report_lines shuffle ds1 ds2 = [] \<longleftrightarrow> (\<nexists>ref. revision_changed ds1 ds2 ref)"
proof
  assume "map_range_ok shuffle" and "report_lines shuffle ds1 ds2 = []"
  then show "\<nexists>ref. revision_changed ds1 ds2 ref" using report_names [of shuffle ds1 ds2] by auto
next
  assume "\<nexists>ref. revision_changed ds1 ds2 ref"
  then show "report_lines shuffle ds1 ds2 = []" by (simp add: report_lines_def changed_line_Nil)
qed

lemma report_error_names:
  assumes "map_range_ok shuffle" and "revision_changed ds1 ds2 ref"
  shows "contains (error_text (report_error (report_lines shuffle ds1 ds2) period)) (dr_namespace ref)
    \<and> contains (error_text (report_error (report_lines shuffle ds1 ds2) period)) (dr_name ref)"
  using report_names [OF assms] revision_error_text contains_trans unfolding report_error_def by meson

lemma revisions_run:
  assumes "list_deployments namespace w = (Inr ds1, w1)" and "ds1 \<noteq> []"
    and "select_done rt period w1 = (None, w2)" and "list_deployments namespace w2 = (Inr ds2, w3)"
  shows "fst (VerifyDeploymentRevisionsStable rt shuffle list_deployments namespace period w) =
    (let ls = report_lines shuffle ds1 ds2 in if ls \<noteq> [] then Some (report_error ls period) else None)"
  using assms by (simp add: VerifyDeploymentRevisionsStable_def snapshotDeploymentRevisions_def report_lines_def report_error_def Let_def)

text \<open>
  When both snapshots are taken, VerifyDeploymentRevisionsStable passes exactly when no deployment that is in both
  has another revision in the second, whatever order the map is visited in; otherwise the error names
  every such deployment with its namespace. Deployments that came or went in between do not count.
\<close>

theorem revisions_stable_verdict:
  assumes "map_range_ok shuffle" and "list_deployments namespace w = (Inr ds1, w1)"
    and "select_done rt period w1 = (None, w2)" and "list_deployments namespace w2 = (Inr ds2, w3)"
  shows "case fst (VerifyDeploymentRevisionsStable rt shuffle list_deployments namespace period w) of
      None \<Rightarrow> (\<nexists>ref. revision_changed ds1 ds2 ref)
    | Some e \<Rightarrow> (\<exists>ref. revision_changed ds1 ds2 ref)
        \<and> (\<forall>ref. revision_changed ds1 ds2 ref \<longrightarrow> contains (error_text e) (dr_namespace ref) \<and> contains (error_text e) (dr_name ref))"
proof (cases "ds1 = []")
  case True
  then have "\<nexists>ref. revision_changed ds1 ds2 ref" by (simp add: revision_changed_def listed_revision_def)
  then show ?thesis using assms(2) True by (simp add: VerifyDeploymentRevisionsStable_def snapshotDeploymentRevisions_def)
next
  case False
  show ?thesis
    using revisions_run [of list_deployments namespace w ds1 w1 rt period w2 ds2 w3 shuffle] assms(2-4) False report_empty [OF assms(1), of ds1 ds2] report_error_names [OF assms(1), of ds1 ds2]
    by (simp add: Let_def)
qed

section \<open>Concrete runs\<close>

text \<open>The world of the samples is the clock; a request takes a nanosecond.\<close>

definition sample_clock :: "int go_runtime" where
  "sample_clock = \<lparr>time_now = (\<lambda>w. w), select_done = (\<lambda>d w. (None, w + d))\<rparr>"

definition sample_pods :: "int pod_lister" where
  "sample_pods ns label w = (Inr (if w < 20 * second then [[True], [True, False]] else [[True], [True, True]]), w + 1)"

definition sample_endpoint :: "int http_client" where
  "sample_endpoint = \<lparr>check_request = (\<lambda>m u. None),
     http_Do = (\<lambda>t req w. (Inr \<lparr>hr_StatusCode = 200, hr_Status = ''200 OK'', hr_Body = [], hr_ReadError = None\<rparr>, w + 1)),
     decode_error = (\<lambda>s. ErrorsNew ''json'')\<rparr>"

theorem oauth_readiness_returns_witness:
  "\<exists>r w'. VerifyOAuthServerReadiness sample_clock sample_pods sample_endpoint ''https://api/'' (60 * second) 0 = Some (r, w')"
proof -
  have "clock_ok sample_clock" "clock_forward sample_clock (sample_pods ns l)" "clock_forward sample_clock (http_Do sample_endpoint t req)"
    for ns l t req
    by (simp_all add: clock_ok_def clock_forward_def sample_clock_def sample_pods_def sample_endpoint_def)
  then show ?thesis using oauth_readiness_returns [of sample_clock sample_pods sample_endpoint] by blast
qed

definition sample_deployments :: "string \<Rightarrow> int \<Rightarrow> (go_error + deployment_row list) \<times> int" where
  "sample_deployments ns w =
     (Inr [(\<lparr>dr_namespace = ''ns'', dr_name = ''a''\<rparr>, [revisionAnnotation \<mapsto> (if w < second then ''1'' else ''2'')]),
           (\<lparr>dr_namespace = ''ns'', dr_name = ''b''\<rparr>, Map.empty)], w + 1)"

theorem revisions_stable_verdict_witness:
  "fst (VerifyDeploymentRevisionsStable sample_clock alternate sample_deployments [] second 0) \<noteq> None
   \<and> fst (VerifyDeploymentRevisionsStable sample_clock alternate sample_deployments [] second second) = None"
proof -
  have l: "sample_deployments [] w = (Inr (projr (fst (sample_deployments [] w))), w + 1)" for w
    by (simp add: sample_deployments_def)
  have t: "select_done sample_clock d w = (None, w + d)" for d w by (simp add: sample_clock_def)
  have r: "listed_revision (projr (fst (sample_deployments [] w))) ref =
      (if ref = \<lparr>dr_namespace = ''ns'', dr_name = ''a''\<rparr> then Some (if w < second then ''1'' else ''2'')
       else if ref = \<lparr>dr_namespace = ''ns'', dr_name = ''b''\<rparr> then Some [] else None)" for w ref
    by (simp add: listed_revision_def sample_deployments_def)
  have c: "\<exists>ref. revision_changed (projr (fst (sample_deployments [] 0))) (projr (fst (sample_deployments [] (0 + 1 + second)))) ref"
    "\<nexists>ref. revision_changed (projr (fst (sample_deployments [] second))) (projr (fst (sample_deployments [] (second + 1 + second)))) ref"
    unfolding revision_changed_def r by (auto simp: second_def)
  show ?thesis
    using revisions_stable_verdict [where list_deployments = sample_deployments and namespace = "[]" and w = 0
        and rt = sample_clock and period = second, OF alternate_range l t l]
      revisions_stable_verdict [where list_deployments = sample_deployments and namespace = "[]" and w = second
        and rt = sample_clock and period = second, OF alternate_range l t l] c
    by (auto split: option.splits)
qed

end
