(* ===== verification/Workloads.thy ===== *)
theory Workloads
  imports Item_Checks Kube_Api
begin

text \<open>
  pkg/framework/namespace.go, workload.go and storage.go: the namespaces, deployments, volume claims and storage classes
  that the tests create on a cluster, and the functions that remove them.

  The clientset is outside the repository (\<open>object_api\<close>); the objects are records of the fields the sources set. So is
  wait.PollUntilContextTimeout: it is the parameter \<open>poll\<close>, of which \<open>poll_ok\<close> states what its documentation promises: it
  evaluates the condition again and again until it is true or fails, and ends with that outcome, or with an
  error of the context. A cleanup function that the source returns is a definition of its own, applied to
  the name that the closure captured.
\<close>

section \<open>Objects and the client\<close>

record namespace_object =
  no_Name :: string
  no_Labels :: "(string \<times> string) list"

record container =
  ct_Name :: string
  ct_Image :: string
  ct_Command :: "string list"
  ct_Args :: "string list"
  ct_Ports :: "(int \<times> string) list" \<comment> \<open>ContainerPort, Protocol\<close>
  ct_VolumeMounts :: "(string \<times> string) list" \<comment> \<open>Name, MountPath\<close>
  ct_AllowPrivilegeEscalation :: "bool option"
  ct_DropCapabilities :: "string list"

record deployment_object =
  do_Name :: string
  do_Namespace :: string
  do_Replicas :: int
  do_MatchLabels :: "(string \<times> string) list"
  do_TemplateLabels :: "(string \<times> string) list"
  do_Containers :: "container list"

record service_object =
  so_Name :: string
  so_Namespace :: string
  so_Type :: string
  so_Selector :: "(string \<times> string) list"
  so_Ports :: "(int \<times> int \<times> string) list" \<comment> \<open>Port, TargetPort, Protocol\<close>

record pvc_object =
  po_Name :: string
  po_Namespace :: string
  po_AccessModes :: "string list"
  po_StorageRequest :: string
  po_StorageClassName :: "string option"

record pod_object =
  pd_Name :: string
  pd_Namespace :: string
  pd_RunAsNonRoot :: bool
  pd_RunAsUser :: int
  pd_FSGroup :: int
  pd_SeccompProfile :: string
  pd_Containers :: "container list"
  pd_ClaimVolumes :: "(string \<times> string) list" \<comment> \<open>Name, ClaimName\<close>

record storage_class_object =
  sc_Name :: string
  sc_Provisioner :: string
  sc_VolumeBindingMode :: string
  sc_ReclaimPolicy :: string
  sc_Parameters :: "(string \<times> string) list"

record bound_claim =
  bc_VolumeName :: string

record volume_object =
  vo_Name :: string
  vo_CSIHandle :: "string option" \<comment> \<open>Spec.CSI.VolumeHandle, when Spec.CSI is not nil\<close>

record 'w object_api =
  namespace_Create :: "namespace_object \<Rightarrow> 'w \<Rightarrow> go_error option \<times> 'w"
  namespace_Delete :: "string \<Rightarrow> 'w \<Rightarrow> go_error option \<times> 'w"
  serviceaccount_Get :: "string \<Rightarrow> string \<Rightarrow> 'w \<Rightarrow> go_error option \<times> 'w" \<comment> \<open>namespace, name\<close>
  deployment_Create :: "deployment_object \<Rightarrow> 'w \<Rightarrow> go_error option \<times> 'w"
  deployment_Conditions :: "string \<Rightarrow> string \<Rightarrow> 'w \<Rightarrow> (go_error + condition list) \<times> 'w" \<comment> \<open>namespace, name\<close>
  service_Create :: "service_object \<Rightarrow> 'w \<Rightarrow> go_error option \<times> 'w"
  pvc_Create :: "pvc_object \<Rightarrow> 'w \<Rightarrow> go_error option \<times> 'w"
  pod_Create :: "pod_object \<Rightarrow> 'w \<Rightarrow> go_error option \<times> 'w"
  storageclass_Create :: "storage_class_object \<Rightarrow> 'w \<Rightarrow> go_error option \<times> 'w"
  storageclass_Delete :: "string \<Rightarrow> 'w \<Rightarrow> go_error option \<times> 'w"
  pvc_Get :: "string \<Rightarrow> string \<Rightarrow> 'w \<Rightarrow> (go_error + bound_claim) \<times> 'w"
  pv_Get :: "string \<Rightarrow> 'w \<Rightarrow> (go_error + volume_object) \<times> 'w"
  error_is :: "string \<Rightarrow> go_error \<Rightarrow> bool" \<comment> \<open>the predicates of apierrors: errors.IsNotFound is error_is ''NotFound''\<close>

text \<open>A condition function: done, error.\<close>

type_synonym 'w condition_fn = "'w \<Rightarrow> (bool \<times> go_error option) \<times> 'w"
type_synonym 'w poller = "int \<Rightarrow> int \<Rightarrow> bool \<Rightarrow> 'w condition_fn \<Rightarrow> 'w \<Rightarrow> go_error option \<times> 'w"
  \<comment> \<open>interval, timeout, immediate\<close>

definition keeps_polling :: "'w condition_fn \<Rightarrow> 'w \<Rightarrow> bool" where
  "keeps_polling cond w \<longleftrightarrow> fst (cond w) = (False, None)"

text \<open>
  The worlds in which a poll that starts in \<open>w\<close> evaluates its condition: time passes before each evaluation, in which
  everything outside may change as \<open>passes\<close> allows, and after an evaluation that is neither true nor an error there may be
  another one. \<open>poll_ok\<close> says that a nil result comes from an evaluation that was true, and an error from the
  context or from an evaluation.
\<close>

inductive polled :: "('w \<Rightarrow> 'w \<Rightarrow> bool) \<Rightarrow> 'w condition_fn \<Rightarrow> 'w \<Rightarrow> 'w \<Rightarrow> bool"
  for passes cond w where
  first: "passes w u \<Longrightarrow> polled passes cond w u"
| again: "polled passes cond w u \<Longrightarrow> keeps_polling cond u \<Longrightarrow> passes (snd (cond u)) u' \<Longrightarrow> polled passes cond w u'"

definition poll_ok :: "('w \<Rightarrow> 'w \<Rightarrow> bool) \<Rightarrow> 'w poller \<Rightarrow> bool" where
  "poll_ok passes poll \<longleftrightarrow> (\<forall>interval timeout immediate cond w.
     case poll interval timeout immediate cond w of
       (None, w') \<Rightarrow> \<exists>u. polled passes cond w u \<and> cond u = ((True, None), w')
     | (Some e, w') \<Rightarrow> e \<in> {DeadlineExceeded, Canceled} \<or> (\<exists>u. polled passes cond w u \<and> snd (fst (cond u)) = Some e))"

section \<open>namespace.go\<close>

definition isNonTransientError :: "'w object_api \<Rightarrow> go_error \<Rightarrow> bool" where
  "isNonTransientError api err \<longleftrightarrow> error_is api ''Forbidden'' err \<or> error_is api ''Invalid'' err
     \<or> error_is api ''MethodNotSupported'' err \<or> error_is api ''NotAcceptable'' err
     \<or> error_is api ''ResourceExpired'' err \<or> error_is api ''Unauthorized'' err"

definition create_namespace_once :: "'w object_api \<Rightarrow> namespace_object \<Rightarrow> 'w condition_fn" where
  "create_namespace_once api ns w =
     (case namespace_Create api ns w of
        (None, w') \<Rightarrow> ((True, None), w')
      | (Some createErr, w') \<Rightarrow>
          if error_is api ''AlreadyExists'' createErr then ((True, None), w')
          else if isNonTransientError api createErr then ((False, Some createErr), w')
          else ((False, None), w'))"

definition service_account_once :: "'w object_api \<Rightarrow> string \<Rightarrow> 'w condition_fn" where
  "service_account_once api name w =
     (case serviceaccount_Get api name ''default'' w of
        (saErr, w') \<Rightarrow>
          if saErr = None \<or> error_is api ''NotFound'' (the saErr) then ((saErr = None, None), w')
          else ((False, None), w'))"

definition test_namespace :: "string \<Rightarrow> namespace_object" where
  "test_namespace name = \<lparr>no_Name = name, no_Labels = [(''e2e-test'', ''true''), (''created-by'', ''rosa-e2e'')]\<rparr>"

text \<open>\<open>None\<close> means that the cleanup function for \<open>name\<close> is returned.\<close>

definition CreateTestNamespace :: "'w poller \<Rightarrow> 'w object_api \<Rightarrow> string \<Rightarrow> 'w \<Rightarrow> go_error option \<times> 'w" where
  "CreateTestNamespace poll api name w =
     (case poll (10 * second) (2 * minute) True (create_namespace_once api (test_namespace name)) w of
        (Some err, w1) \<Rightarrow> (Some (Errorf ''creating namespace %s: %w'' [FStr name, FErr err]), w1)
      | (None, w1) \<Rightarrow> (case poll (2 * second) (1 * minute) True (service_account_once api name) w1 of
            (Some err, w2) \<Rightarrow> (Some (Errorf ''waiting for default ServiceAccount in namespace %s: %w'' [FStr name, FErr err]), w2)
          | (None, w2) \<Rightarrow> (None, w2)))"

definition namespace_cleanup :: "'w object_api \<Rightarrow> string \<Rightarrow> 'w \<Rightarrow> go_error option \<times> 'w" where
  "namespace_cleanup api name w =
     (case namespace_Delete api name w of
        (Some deleteErr, w') \<Rightarrow>
          if \<not> error_is api ''NotFound'' deleteErr
          then (Some (Errorf ''deleting test namespace %s: %w'' [FStr name, FErr deleteErr]), w') else (None, w')
      | (None, w') \<Rightarrow> (None, w'))"

section \<open>workload.go\<close>

definition nginx_deployment :: "string \<Rightarrow> deployment_object" where
  "nginx_deployment namespace =
     \<lparr>do_Name = ''test-nginx'', do_Namespace = namespace, do_Replicas = 1, do_MatchLabels = [(''app'', ''test-nginx'')],
      do_TemplateLabels = [(''app'', ''test-nginx'')],
      do_Containers = [\<lparr>ct_Name = ''httpd'', ct_Image = ''registry.access.redhat.com/ubi9/httpd-24:latest'', ct_Command = [],
        ct_Args = [], ct_Ports = [(8080, ''TCP'')], ct_VolumeMounts = [], ct_AllowPrivilegeEscalation = None, ct_DropCapabilities = []\<rparr>]\<rparr>"

definition nginx_service :: "string \<Rightarrow> service_object" where
  "nginx_service namespace =
     \<lparr>so_Name = ''test-nginx-svc'', so_Namespace = namespace, so_Type = ''ClusterIP'', so_Selector = [(''app'', ''test-nginx'')],
      so_Ports = [(80, 8080, ''TCP'')]\<rparr>"

fun workload_available :: "condition list \<Rightarrow> bool" where
  "workload_available [] = False"
| "workload_available (c # cs) = (if cond_Type c = ''Available'' \<and> cond_Status c = ''True'' then True else workload_available cs)"

definition deployment_available_once :: "'w object_api \<Rightarrow> string \<Rightarrow> 'w condition_fn" where
  "deployment_available_once api namespace w =
     (case deployment_Conditions api namespace ''test-nginx'' w of
        (Inl err, w') \<Rightarrow> ((False, Some err), w')
      | (Inr conditions, w') \<Rightarrow> ((workload_available conditions, None), w'))"

definition DeployTestWorkload :: "'w poller \<Rightarrow> 'w object_api \<Rightarrow> string \<Rightarrow> 'w \<Rightarrow> go_error option \<times> 'w" where
  "DeployTestWorkload poll api namespace w =
     (case namespace_Create api \<lparr>no_Name = namespace, no_Labels = []\<rparr> w of
        (err, w1) \<Rightarrow>
          if err \<noteq> None \<and> \<not> error_is api ''AlreadyExists'' (the err)
          then (Some (Errorf ''creating namespace %s: %w'' [FStr namespace, FErr (the err)]), w1)
          else (case deployment_Create api (nginx_deployment namespace) w1 of
              (Some err, w2) \<Rightarrow> (Some (Errorf ''creating deployment: %w'' [FErr err]), w2)
            | (None, w2) \<Rightarrow> (case service_Create api (nginx_service namespace) w2 of
                  (Some err, w3) \<Rightarrow> (Some (Errorf ''creating service: %w'' [FErr err]), w3)
                | (None, w3) \<Rightarrow> (case poll (5 * second) (5 * minute) True (deployment_available_once api namespace) w3 of
                      (Some err, w4) \<Rightarrow> (Some (Errorf ''waiting for deployment to be available: %w'' [FErr err]), w4)
                    | (None, w4) \<Rightarrow> (None, w4)))))"

definition workload_cleanup :: "'w object_api \<Rightarrow> string \<Rightarrow> 'w \<Rightarrow> 'w" where
  "workload_cleanup api namespace w = snd (namespace_Delete api namespace w)"

section \<open>storage.go\<close>

definition CreateTestPVC :: "'w object_api \<Rightarrow> string \<Rightarrow> string \<Rightarrow> 'w \<Rightarrow> (go_error + string) \<times> 'w" where
  "CreateTestPVC api namespace storageClass w =
     (case pvc_Create api \<lparr>po_Name = ''test-pvc'', po_Namespace = namespace, po_AccessModes = [''ReadWriteOnce''],
         po_StorageRequest = ''1Gi'', po_StorageClassName = (if storageClass \<noteq> [] then Some storageClass else None)\<rparr> w of
        (Some err, w') \<Rightarrow> (Inl (Errorf ''creating PVC: %w'' [FErr err]), w')
      | (None, w') \<Rightarrow> (Inr ''test-pvc'', w'))"

definition pvc_pod :: "string \<Rightarrow> string \<Rightarrow> pod_object" where
  "pvc_pod namespace pvcName =
     \<lparr>pd_Name = ''test-pod-pvc'', pd_Namespace = namespace, pd_RunAsNonRoot = True, pd_RunAsUser = 1000, pd_FSGroup = 1000,
      pd_SeccompProfile = ''RuntimeDefault'',
      pd_Containers = [\<lparr>ct_Name = ''busybox'', ct_Image = ''registry.access.redhat.com/ubi9/ubi-minimal:latest'',
        ct_Command = [''/bin/sh''],
        ct_Args = [''-c'', ''echo '' @ [CHR 0x27] @ ''test data'' @ [CHR 0x27] @ '' > /data/test.txt && sleep 3600''],
        ct_Ports = [], ct_VolumeMounts = [(''data'', ''/data'')], ct_AllowPrivilegeEscalation = Some False,
        ct_DropCapabilities = [''ALL'']\<rparr>],
      pd_ClaimVolumes = [(''data'', pvcName)]\<rparr>"

definition CreateTestPodWithPVC :: "'w object_api \<Rightarrow> string \<Rightarrow> string \<Rightarrow> 'w \<Rightarrow> (go_error + string) \<times> 'w" where
  "CreateTestPodWithPVC api namespace pvcName w =
     (case pod_Create api (pvc_pod namespace pvcName) w of
        (Some err, w') \<Rightarrow> (Inl (Errorf ''creating pod with PVC: %w'' [FErr err]), w')
      | (None, w') \<Rightarrow> (Inr ''test-pod-pvc'', w'))"

definition kms_storage_class :: "string \<Rightarrow> string \<Rightarrow> storage_class_object" where
  "kms_storage_class name kmsKeyARN =
     \<lparr>sc_Name = name, sc_Provisioner = ''ebs.csi.aws.com'', sc_VolumeBindingMode = ''Immediate'', sc_ReclaimPolicy = ''Delete'',
      sc_Parameters = [(''type'', ''gp3''), (''encrypted'', ''true''), (''kmsKeyId'', kmsKeyARN)]\<rparr>"

definition CreateKMSStorageClass :: "'w object_api \<Rightarrow> string \<Rightarrow> string \<Rightarrow> 'w \<Rightarrow> go_error option \<times> 'w" where
  "CreateKMSStorageClass api name kmsKeyARN w =
     (case storageclass_Create api (kms_storage_class name kmsKeyARN) w of
        (Some err, w') \<Rightarrow> (Some (Errorf ''creating storage class %s: %w'' [FStr name, FErr err]), w')
      | (None, w') \<Rightarrow> (None, w'))"

definition storage_class_cleanup :: "'w object_api \<Rightarrow> string \<Rightarrow> 'w \<Rightarrow> go_error option \<times> 'w" where
  "storage_class_cleanup api name w =
     (case storageclass_Delete api name w of
        (Some deleteErr, w') \<Rightarrow> (Some (Errorf ''deleting storage class %s: %w'' [FStr name, FErr deleteErr]), w')
      | (None, w') \<Rightarrow> (None, w'))"

definition GetPVCVolumeID :: "'w object_api \<Rightarrow> string \<Rightarrow> string \<Rightarrow> 'w \<Rightarrow> (go_error + string) \<times> 'w" where
  "GetPVCVolumeID api namespace pvcName w =
     (case pvc_Get api namespace pvcName w of
        (Inl err, w1) \<Rightarrow> (Inl (Errorf ''getting PVC %s/%s: %w'' [FStr namespace, FStr pvcName, FErr err]), w1)
      | (Inr pvc, w1) \<Rightarrow>
          if bc_VolumeName pvc = []
          then (Inl (Errorf ''PVC %s/%s is not bound to a volume yet'' [FStr namespace, FStr pvcName]), w1)
          else (case pv_Get api (bc_VolumeName pvc) w1 of
              (Inl err, w2) \<Rightarrow> (Inl (Errorf ''getting PV %s: %w'' [FStr (bc_VolumeName pvc), FErr err]), w2)
            | (Inr pv, w2) \<Rightarrow>
                if vo_CSIHandle pv = None \<or> vo_CSIHandle pv = Some []
                then (Inl (Errorf ''PV %s has no CSI volume handle'' [FStr (vo_Name pv)]), w2)
                else (Inr (the (vo_CSIHandle pv)), w2)))"

section \<open>What a poll ends with\<close>

lemma poll_okD:
  "poll_ok passes poll \<Longrightarrow> case poll i t b cond w of
       (None, w') \<Rightarrow> \<exists>u. polled passes cond w u \<and> cond u = ((True, None), w')
     | (Some e, w') \<Rightarrow> e \<in> {DeadlineExceeded, Canceled} \<or> (\<exists>u. polled passes cond w u \<and> snd (fst (cond u)) = Some e)"
  unfolding poll_ok_def by (elim allE)

lemma poll_None: "poll_ok passes poll \<Longrightarrow> poll i t b cond w = (None, w') \<Longrightarrow> \<exists>u. polled passes cond w u \<and> cond u = ((True, None), w')"
  using poll_okD [where passes = passes and poll = poll and i = i and t = t and b = b and cond = cond and w = w] by simp

lemma poll_Some:
  assumes "poll_ok passes poll" and "poll i t b cond w = (Some e, w')"
  obtains "e = DeadlineExceeded \<or> e = Canceled" | u where "polled passes cond w u" and "snd (fst (cond u)) = Some e"
  using poll_okD [OF assms(1), where i = i and t = t and b = b and cond = cond and w = w] assms(2) that by auto

lemma create_once_done:
  "create_namespace_once api ns u = ((True, None), u') \<Longrightarrow>
   snd (namespace_Create api ns u) = u' \<and> (case fst (namespace_Create api ns u) of None \<Rightarrow> True | Some e \<Rightarrow> error_is api ''AlreadyExists'' e)"
  by (auto simp: create_namespace_once_def split: prod.splits option.splits if_splits)

lemma create_once_error:
  "snd (fst (create_namespace_once api ns u)) = Some e \<Longrightarrow> fst (namespace_Create api ns u) = Some e \<and> isNonTransientError api e"
  by (auto simp: create_namespace_once_def split: prod.splits option.splits if_splits)

lemma account_once_done: "service_account_once api name u = ((True, None), u') \<Longrightarrow> fst (serviceaccount_Get api name ''default'' u) = None"
  by (auto simp: service_account_once_def split: prod.splits if_splits)

lemma account_once_no_error: "snd (fst (service_account_once api name u)) = None"
  by (auto simp: service_account_once_def split: prod.splits if_splits)

lemma wrapped_is: "errors_is (Errorf f [FStr name, FErr e]) e"
  by (rule errors_is_wrapped [of e]) simp_all

lemma CreateTestNamespace_cases:
  assumes "CreateTestNamespace poll api name w = (r, w')"
  obtains (create_fails) e w1 where "poll (10 * second) (2 * minute) True (create_namespace_once api (test_namespace name)) w = (Some e, w1)"
      and "r = Some (Errorf ''creating namespace %s: %w'' [FStr name, FErr e])"
  | (account_fails) e w1 w2 where "poll (2 * second) (1 * minute) True (service_account_once api name) w1 = (Some e, w2)"
      and "r = Some (Errorf ''waiting for default ServiceAccount in namespace %s: %w'' [FStr name, FErr e])"
  | (created) w1 w2 where "poll (10 * second) (2 * minute) True (create_namespace_once api (test_namespace name)) w = (None, w1)"
      and "poll (2 * second) (1 * minute) True (service_account_once api name) w1 = (None, w2)" and "r = None"
  using assms by (auto simp: CreateTestNamespace_def split: prod.splits option.splits)

text \<open>
  C36. When CreateTestNamespace succeeds, some evaluation of its first poll had the namespace accepted by the API server or
  reported as existing, and from there on some evaluation of its second poll was served the default service
  account. When it fails, the error wraps the end of the context or an error that an evaluation of the first poll
  got and that is of the kinds that do not pass: a transient error of the API server is never reported, it
  only delays. The cleanup function fails only on a deletion error other than not-found.
\<close>

theorem test_namespace_outcome:
  assumes "poll_ok passes poll" and "CreateTestNamespace poll api name w = (r, w')"
  shows "(case r of
      None \<Rightarrow> \<exists>u v. polled passes (create_namespace_once api (test_namespace name)) w u
        \<and> (case fst (namespace_Create api (test_namespace name) u) of None \<Rightarrow> True | Some e \<Rightarrow> error_is api ''AlreadyExists'' e)
        \<and> polled passes (service_account_once api name) (snd (namespace_Create api (test_namespace name) u)) v
        \<and> fst (serviceaccount_Get api name ''default'' v) = None
    | Some err \<Rightarrow> \<exists>e. errors_is err e \<and>
        (e = DeadlineExceeded \<or> e = Canceled \<or>
         (\<exists>u. polled passes (create_namespace_once api (test_namespace name)) w u
            \<and> fst (namespace_Create api (test_namespace name) u) = Some e \<and> isNonTransientError api e)))
    \<and> (\<forall>u. fst (namespace_cleanup api name u) \<noteq> None \<longleftrightarrow>
         (\<exists>e. fst (namespace_Delete api name u) = Some e \<and> \<not> error_is api ''NotFound'' e))"
proof (rule conjI [OF _ allI])
  show "fst (namespace_cleanup api name u) \<noteq> None \<longleftrightarrow> (\<exists>e. fst (namespace_Delete api name u) = Some e \<and> \<not> error_is api ''NotFound'' e)" for u
    by (auto simp: namespace_cleanup_def split: prod.splits option.splits)
  show "case r of
      None \<Rightarrow> \<exists>u v. polled passes (create_namespace_once api (test_namespace name)) w u
        \<and> (case fst (namespace_Create api (test_namespace name) u) of None \<Rightarrow> True | Some e \<Rightarrow> error_is api ''AlreadyExists'' e)
        \<and> polled passes (service_account_once api name) (snd (namespace_Create api (test_namespace name) u)) v
        \<and> fst (serviceaccount_Get api name ''default'' v) = None
    | Some err \<Rightarrow> \<exists>e. errors_is err e \<and>
        (e = DeadlineExceeded \<or> e = Canceled \<or>
         (\<exists>u. polled passes (create_namespace_once api (test_namespace name)) w u
            \<and> fst (namespace_Create api (test_namespace name) u) = Some e \<and> isNonTransientError api e))"
    using assms(2)
  proof (cases rule: CreateTestNamespace_cases)
    case (create_fails e w1)
    from poll_Some [OF assms(1) create_fails(1)]
    have "e = DeadlineExceeded \<or> e = Canceled \<or> (\<exists>u. polled passes (create_namespace_once api (test_namespace name)) w u
        \<and> fst (namespace_Create api (test_namespace name) u) = Some e \<and> isNonTransientError api e)"
      by cases (blast dest: create_once_error)+
    then show ?thesis using wrapped_is [of "''creating namespace %s: %w''" name e] unfolding create_fails(2) option.case by blast
  next
    case (account_fails e w1 w2)
    from poll_Some [OF assms(1) account_fails(1)] have "e = DeadlineExceeded \<or> e = Canceled"
      by cases (simp_all add: account_once_no_error)
    then show ?thesis using wrapped_is [of "''waiting for default ServiceAccount in namespace %s: %w''" name e] unfolding account_fails(2) option.case by blast
  next
    case (created w1 w2)
    obtain u where u: "polled passes (create_namespace_once api (test_namespace name)) w u"
        "create_namespace_once api (test_namespace name) u = ((True, None), w1)" using poll_None [OF assms(1) created(1)] by blast
    obtain v where v: "polled passes (service_account_once api name) w1 v" "service_account_once api name v = ((True, None), w2)"
      using poll_None [OF assms(1) created(2)] by blast
    show ?thesis using created(3) u(1) v(1) create_once_done [OF u(2)] account_once_done [OF v(2)] by auto
  qed
qed

text \<open>
  When DeployTestWorkload succeeds, the calls were accepted one after the other and an evaluation of the poll that followed them
  saw the deployment with the condition Available=True.
\<close>

lemma workload_available_iff: "workload_available cs \<longleftrightarrow> (\<exists>c \<in> set cs. cond_Type c = ''Available'' \<and> cond_Status c = ''True'')"
  by (induction cs) auto

lemma workload_deployed:
  assumes "poll_ok passes poll" and "DeployTestWorkload poll api namespace w = (None, w')"
  shows "\<exists>w1 w2 w3 u cs. snd (namespace_Create api \<lparr>no_Name = namespace, no_Labels = []\<rparr> w) = w1
    \<and> deployment_Create api (nginx_deployment namespace) w1 = (None, w2) \<and> service_Create api (nginx_service namespace) w2 = (None, w3)
    \<and> polled passes (deployment_available_once api namespace) w3 u
    \<and> deployment_Conditions api namespace ''test-nginx'' u = (Inr cs, w')
    \<and> (\<exists>c \<in> set cs. cond_Type c = ''Available'' \<and> cond_Status c = ''True'')"
proof -
  obtain w1 w2 w3 where c: "snd (namespace_Create api \<lparr>no_Name = namespace, no_Labels = []\<rparr> w) = w1"
      "deployment_Create api (nginx_deployment namespace) w1 = (None, w2)" "service_Create api (nginx_service namespace) w2 = (None, w3)"
    and p: "poll (5 * second) (5 * minute) True (deployment_available_once api namespace) w3 = (None, w')"
    using assms(2) by (auto simp: DeployTestWorkload_def split: prod.splits option.splits if_splits)
  obtain u where u: "polled passes (deployment_available_once api namespace) w3 u" "deployment_available_once api namespace u = ((True, None), w')"
    using poll_None [OF assms(1) p] by blast
  then obtain cs where "deployment_Conditions api namespace ''test-nginx'' u = (Inr cs, w')" "workload_available cs"
    by (auto simp: deployment_available_once_def split: prod.splits sum.splits)
  with c u(1) show ?thesis by (auto simp: workload_available_iff)
qed

section \<open>Concrete runs\<close>

text \<open>
  A poll whose context ends after two evaluations, in a world that counts the requests, and an API server that refuses the
  first request and on which everything works afterwards.
\<close>

definition two_polls :: "'w poller" where
  "two_polls interval timeout immediate cond w =
     (case cond w of ((ok, err), w1) \<Rightarrow>
        if ok \<or> err \<noteq> None then (err, w1)
        else (case cond w1 of ((ok', err'), w2) \<Rightarrow> (if ok' \<or> err' \<noteq> None then err' else Some DeadlineExceeded, w2)))"

lemma evaluation_decides:
  assumes "polled passes cond w u" and "cond u = ((ok, err), u')" and "ok \<or> err \<noteq> None"
  shows "case (err, u') of
       (None, w') \<Rightarrow> \<exists>u. polled passes cond w u \<and> cond u = ((True, None), w')
     | (Some e, w') \<Rightarrow> e \<in> {DeadlineExceeded, Canceled} \<or> (\<exists>u. polled passes cond w u \<and> snd (fst (cond u)) = Some e)"
proof (cases err)
  case None
  then have "cond u = ((True, None), u')" using assms(2,3) by simp
  then show ?thesis using assms(1) None by auto
next
  case (Some e)
  then have "snd (fst (cond u)) = Some e" using assms(2) by simp
  then show ?thesis using assms(1) Some by auto
qed

lemma two_polls_ok: "poll_ok (=) two_polls"
  unfolding poll_ok_def
proof (intro allI)
  fix i t b and cond :: "'a condition_fn" and w
  obtain ok err w1 where c: "cond w = ((ok, err), w1)" by (metis surj_pair)
  obtain ok' err' w2 where d: "cond w1 = ((ok', err'), w2)" by (metis surj_pair)
  have 1: "polled (=) cond w w" by (rule polled.first) simp
  show "case two_polls i t b cond w of
       (None, w') \<Rightarrow> \<exists>u. polled (=) cond w u \<and> cond u = ((True, None), w')
     | (Some e, w') \<Rightarrow> e \<in> {DeadlineExceeded, Canceled} \<or> (\<exists>u. polled (=) cond w u \<and> snd (fst (cond u)) = Some e)"
  proof (cases "ok \<or> err \<noteq> None")
    case True
    then have "two_polls i t b cond w = (err, w1)" by (simp add: two_polls_def c)
    then show ?thesis using evaluation_decides [OF 1 c True] by (simp only:)
  next
    case again: False
    have 2: "polled (=) cond w w1" by (rule polled.again [OF 1]) (use again c in \<open>simp_all add: keeps_polling_def\<close>)
    show ?thesis
    proof (cases "ok' \<or> err' \<noteq> None")
      case True
      then have "two_polls i t b cond w = (err', w2)" using again by (simp add: two_polls_def c d)
      then show ?thesis using evaluation_decides [OF 2 d True] by (simp only:)
    next
      case False
      then have "two_polls i t b cond w = (Some DeadlineExceeded, w2)" using again by (simp add: two_polls_def c d)
      then show ?thesis by simp
    qed
  qed
qed

definition sample_api :: "nat object_api" where
  "sample_api = \<lparr>namespace_Create = (\<lambda>n w. (if w = 0 then Some (ErrorsNew ''busy'') else Some (ErrorsNew ''exists''), Suc w)),
     namespace_Delete = (\<lambda>n w. (None, w)),
     serviceaccount_Get = (\<lambda>n a w. (None, Suc w)), deployment_Create = (\<lambda>d w. (None, w)),
     deployment_Conditions = (\<lambda>n d w. (Inr [], w)), service_Create = (\<lambda>s w. (None, w)), pvc_Create = (\<lambda>p w. (None, w)),
     pod_Create = (\<lambda>p w. (None, w)), storageclass_Create = (\<lambda>s w. (None, w)), storageclass_Delete = (\<lambda>n w. (None, w)),
     pvc_Get = (\<lambda>n p w. (Inl (ErrorsNew ''missing''), w)), pv_Get = (\<lambda>n w. (Inl (ErrorsNew ''missing''), w)),
     error_is = (\<lambda>k e. k = ''AlreadyExists'' \<and> e = ErrorsNew ''exists'')\<rparr>"

theorem test_namespace_outcome_witness:
  "\<exists>w' u v. CreateTestNamespace two_polls sample_api ''e2e'' 0 = (None, w')
     \<and> polled (=) (create_namespace_once sample_api (test_namespace ''e2e'')) 0 u
     \<and> polled (=) (service_account_once sample_api ''e2e'') (Suc u) v \<and> fst (serviceaccount_Get sample_api ''e2e'' ''default'' v) = None"
proof -
  have c: "CreateTestNamespace two_polls sample_api ''e2e'' 0 = (None, 3)"
    by (simp add: CreateTestNamespace_def two_polls_def create_namespace_once_def service_account_once_def sample_api_def isNonTransientError_def)
  have s: "snd (namespace_Create sample_api n u) = Suc u" for n u by (simp add: sample_api_def)
  show ?thesis using conjunct1 [OF test_namespace_outcome [OF two_polls_ok c]] c by (auto simp: s)
qed

end
