(* ===== verification/Go_Float.thy ===== *)
theory Go_Float
  imports Complex_Main Go_Prelude
begin

text \<open>
  What the sources use of float64: subtraction, division, multiplication, the comparisons, and the scanning of a
  decimal number by fmt.Sscanf with %f. A value is an exact rational that the format can hold, an infinity or NaN;
  \<open>round64\<close> rounds to the nearest of 53 significant bits, ties to even, with the subnormal range below and
  overflow to infinity above. Zero has no sign here: the sources divide only by values above zero, and
  comparisons do not see it. The scanner follows package fmt (the token it takes from the text, underscores, hexadecimal
  digits and binary exponents included) and strconv.ParseFloat; spaces outside ASCII are not skipped.
\<close>

datatype f64 = Fin rat | PInf | NInf | NaN

section \<open>Rounding\<close>

fun bit_len :: "nat \<Rightarrow> nat" where
  "bit_len n = (if n = 0 then 0 else Suc (bit_len (n div 2)))"

declare bit_len.simps [simp del]

definition pow2 :: "int \<Rightarrow> rat" where
  "pow2 e = (if 0 \<le> e then 2 ^ nat e else 1 / 2 ^ nat (- e))"

definition floor_log2 :: "rat \<Rightarrow> int" where
  "floor_log2 a =
     (case quotient_of a of (n, d) \<Rightarrow>
        let e = int (bit_len (nat n)) - int (bit_len (nat d)) in if pow2 e \<le> a then e else e - 1)"

definition round_half_even :: "rat \<Rightarrow> int" where
  "round_half_even x =
     (let f = \<lfloor>x\<rfloor>; r = x - of_int f in
      if r < 1 / 2 then f else if 1 / 2 < r then f + 1 else if even f then f else f + 1)"

definition round64 :: "rat \<Rightarrow> f64" where
  "round64 x =
     (if x = 0 then Fin 0
      else let a = \<bar>x\<bar>; q = max (floor_log2 a - 52) (- 1074); v = of_int (round_half_even (a / pow2 q)) * pow2 q in
        if 2 ^ 1024 \<le> v then (if 0 < x then PInf else NInf) else Fin (if 0 < x then v else - v))"

section \<open>Operations\<close>

fun f_sub :: "f64 \<Rightarrow> f64 \<Rightarrow> f64" where
  "f_sub (Fin x) (Fin y) = round64 (x - y)"
| "f_sub NaN _ = NaN" | "f_sub _ NaN = NaN"
| "f_sub PInf PInf = NaN" | "f_sub NInf NInf = NaN"
| "f_sub PInf _ = PInf" | "f_sub NInf _ = NInf"
| "f_sub (Fin _) PInf = NInf" | "f_sub (Fin _) NInf = PInf"

fun f_neg :: "f64 \<Rightarrow> f64" where
  "f_neg (Fin x) = Fin (- x)" | "f_neg PInf = NInf" | "f_neg NInf = PInf" | "f_neg NaN = NaN"

definition signed_inf :: "bool \<Rightarrow> f64" where
  "signed_inf pos = (if pos then PInf else NInf)"

fun f_mul :: "f64 \<Rightarrow> f64 \<Rightarrow> f64" where
  "f_mul (Fin x) (Fin y) = round64 (x * y)"
| "f_mul NaN _ = NaN" | "f_mul _ NaN = NaN"
| "f_mul PInf (Fin y) = (if y = 0 then NaN else signed_inf (0 < y))"
| "f_mul NInf (Fin y) = (if y = 0 then NaN else signed_inf (y < 0))"
| "f_mul (Fin x) PInf = (if x = 0 then NaN else signed_inf (0 < x))"
| "f_mul (Fin x) NInf = (if x = 0 then NaN else signed_inf (x < 0))"
| "f_mul PInf PInf = PInf" | "f_mul NInf NInf = PInf" | "f_mul PInf NInf = NInf" | "f_mul NInf PInf = NInf"

fun f_div :: "f64 \<Rightarrow> f64 \<Rightarrow> f64" where
  "f_div (Fin x) (Fin y) = (if y = 0 then (if x = 0 then NaN else signed_inf (0 < x)) else round64 (x / y))"
| "f_div NaN _ = NaN" | "f_div _ NaN = NaN"
| "f_div PInf (Fin y) = signed_inf (0 \<le> y)" | "f_div NInf (Fin y) = signed_inf (y < 0)"
| "f_div (Fin x) PInf = Fin 0" | "f_div (Fin x) NInf = Fin 0"
| "f_div _ _ = NaN"

fun f_le :: "f64 \<Rightarrow> f64 \<Rightarrow> bool" where
  "f_le (Fin x) (Fin y) \<longleftrightarrow> x \<le> y"
| "f_le NaN _ \<longleftrightarrow> False" | "f_le _ NaN \<longleftrightarrow> False"
| "f_le NInf _ \<longleftrightarrow> True" | "f_le _ PInf \<longleftrightarrow> True"
| "f_le PInf _ \<longleftrightarrow> False" | "f_le _ NInf \<longleftrightarrow> False"

definition f_gt :: "f64 \<Rightarrow> f64 \<Rightarrow> bool" where
  "f_gt x y \<longleftrightarrow> x \<noteq> NaN \<and> y \<noteq> NaN \<and> \<not> f_le x y"

text \<open>The operators of the type, so that the formulas read as in the sources. They obey none of the usual laws.\<close>

instantiation f64 :: "{zero, minus, times, inverse, ord}"
begin

definition zero_f64 :: f64 where "zero_f64 = Fin 0"
definition minus_f64 :: "f64 \<Rightarrow> f64 \<Rightarrow> f64" where "minus_f64 = f_sub"
definition times_f64 :: "f64 \<Rightarrow> f64 \<Rightarrow> f64" where "times_f64 = f_mul"
definition divide_f64 :: "f64 \<Rightarrow> f64 \<Rightarrow> f64" where "divide_f64 = f_div"
definition inverse_f64 :: "f64 \<Rightarrow> f64" where "inverse_f64 = f_div (Fin 1)"
definition less_eq_f64 :: "f64 \<Rightarrow> f64 \<Rightarrow> bool" where "less_eq_f64 = f_le"
definition less_f64 :: "f64 \<Rightarrow> f64 \<Rightarrow> bool" where "less_f64 x y \<longleftrightarrow> f_gt y x"

instance ..

end

lemmas f64_ops = zero_f64_def minus_f64_def times_f64_def divide_f64_def less_eq_f64_def less_f64_def

section \<open>Scanning\<close>

text \<open>The value of a decimal with the digits \<open>ip\<close> and \<open>fp\<close> around the point and exponent \<open>ex\<close>; None when it overflows.\<close>

definition decimal_value :: "bool \<Rightarrow> string \<Rightarrow> string \<Rightarrow> int \<Rightarrow> f64 option" where
  "decimal_value neg ip fp ex =
     (let m = int (nat_of_digits (ip @ fp)); e10 = ex - int (length fp);
          d = int (length (dropWhile (\<lambda>x. x = CHR ''0'') (ip @ fp))) + e10 in
      if m = 0 \<or> d < - 400 then Some (Fin 0)
      else if 310 < d then None
      else (let r = (if 0 \<le> e10 then of_int m * 10 ^ nat e10 else of_int m / 10 ^ nat (- e10)) :: rat in
            case round64 (if neg then - r else r) of Fin x \<Rightarrow> Some (Fin x) | _ \<Rightarrow> None))"

text \<open>The same for hexadecimal digits and a binary exponent.\<close>

definition is_hex :: "char \<Rightarrow> bool" where
  "is_hex c \<longleftrightarrow> c \<in> set ''0123456789abcdefABCDEF''"

definition hex_val :: "char \<Rightarrow> nat" where
  "hex_val c = (if is_digit c then digit_val c else (of_char (lower_char c) :: nat) - 87)"

definition hex_value :: "bool \<Rightarrow> string \<Rightarrow> string \<Rightarrow> int \<Rightarrow> f64 option" where
  "hex_value neg ip fp ex =
     (let m = foldl (\<lambda>n c. 16 * n + hex_val c) 0 (ip @ fp); e2 = ex - 4 * int (length fp); d = int (bit_len m) + e2 in
      if m = 0 \<or> d < - 1100 then Some (Fin 0)
      else if 1100 < d then None
      else (let r = of_nat m * pow2 e2 in
            case round64 (if neg then - r else r) of Fin x \<Rightarrow> Some (Fin x) | _ \<Rightarrow> None))"

text \<open>strconv.ParseFloat(s, 64): where underscores may stand, and the value of a number without them.\<close>

fun underscores_from :: "bool \<Rightarrow> char \<Rightarrow> string \<Rightarrow> bool" where
  "underscores_from hex i [] \<longleftrightarrow> i \<noteq> CHR ''_''"
| "underscores_from hex i (c # s) \<longleftrightarrow>
     (if is_digit c \<or> hex \<and> is_hex c then underscores_from hex (CHR ''0'') s
      else if c = CHR ''_'' then i = CHR ''0'' \<and> underscores_from hex (CHR ''_'') s
      else i \<noteq> CHR ''_'' \<and> underscores_from hex (CHR ''!'') s)"

definition underscoreOK :: "string \<Rightarrow> bool" where
  "underscoreOK u \<longleftrightarrow>
     (if to_lower (take 2 u) = ''0x'' then underscores_from True (CHR ''0'') (drop 2 u) else underscores_from False (CHR ''!'') u)"

definition read_number :: "bool \<Rightarrow> string \<Rightarrow> f64 option" where
  "read_number neg u =
     (let hex = (2 < length u \<and> to_lower (take 2 u) = ''0x'');
          body = (if hex then drop 2 u else u);
          digit = (if hex then is_hex else is_digit);
          number = (if hex then hex_value neg else decimal_value neg);
          ip = takeWhile digit body; r = dropWhile digit body;
          dot = (r \<noteq> [] \<and> hd r = CHR ''.'');
          fp = (if dot then takeWhile digit (tl r) else []);
          r1 = (if dot then dropWhile digit (tl r) else r) in
      if ip @ fp = [] then None
      else case r1 of
        [] \<Rightarrow> (if hex then None else number ip fp 0)
      | e # es \<Rightarrow>
          (let sign = takeWhile (\<lambda>x. x = CHR ''+'' \<or> x = CHR ''-'') (take 1 es); ds = drop (length sign) es in
           if lower_char e \<noteq> (if hex then CHR ''p'' else CHR ''e'') \<or> ds = [] \<or> \<not> list_all is_digit ds then None
           else number ip fp (if sign = ''-'' then - int (nat_of_digits ds) else int (nat_of_digits ds))))"

definition parse_float :: "string \<Rightarrow> f64 option" where
  "parse_float s =
     (if to_lower s = ''nan'' then Some NaN
      else let neg = (s \<noteq> [] \<and> hd s = CHR ''-'');
               u = (if s \<noteq> [] \<and> (hd s = CHR ''-'' \<or> hd s = CHR ''+'') then tl s else s) in
        if to_lower u = ''inf'' \<or> to_lower u = ''infinity'' then Some (if neg then NInf else PInf)
        else if CHR ''_'' \<in> set u \<and> \<not> underscoreOK u then None
        else read_number neg (filter (\<lambda>c. c \<noteq> CHR ''_'') u))"

text \<open>
  The token that the scanner of package fmt takes from its input: the text taken so far and the rest. A word of which only
  the beginning is there stays in the token, which then is no number.
\<close>

fun accept :: "string \<Rightarrow> string \<times> string \<Rightarrow> (string \<times> string) option" where
  "accept cs (buf, []) = None"
| "accept cs (buf, c # rest) = (if c \<in> set cs then Some (buf @ [c], rest) else None)"

fun accept_seq :: "string list \<Rightarrow> string \<times> string \<Rightarrow> bool \<times> string \<times> string" where
  "accept_seq [] st = (True, st)"
| "accept_seq (cs # css) st = (case accept cs st of None \<Rightarrow> (False, st) | Some st' \<Rightarrow> accept_seq css st')"

fun accept_all :: "string \<Rightarrow> string \<times> string \<Rightarrow> string \<times> string" where
  "accept_all cs (buf, rest) = (buf @ takeWhile (\<lambda>c. c \<in> set cs) rest, dropWhile (\<lambda>c. c \<in> set cs) rest)"

definition float_token :: "string \<Rightarrow> string" where
  "float_token s =
     (case accept_seq [''nN'', ''aA'', ''nN''] ([], s) of
        (True, st) \<Rightarrow> fst st
      | (False, st) \<Rightarrow> (case accept_seq [''iI'', ''nN'', ''fF''] (snd (accept_seq [''+-''] st)) of
          (True, st) \<Rightarrow> fst st
        | (False, st) \<Rightarrow>
            (let (hex, st1) = accept_seq [''0'', ''xX''] st;
                 digits = (if hex then ''0123456789aAbBcCdDeEfF_'' else ''0123456789_'');
                 (dot, st2) = accept_seq [''.''] (accept_all digits st1);
                 (ex, st3) = accept_seq [if hex then ''pP'' else ''eEpP''] (if dot then accept_all digits st2 else st2)
             in fst (if ex then accept_all ''0123456789_'' (snd (accept_seq [''+-''] st3)) else st3))))"

text \<open>A decimal with a binary exponent, which ParseFloat does not read: its value is that of math.Ldexp.\<close>

fun ldexp :: "f64 \<Rightarrow> int \<Rightarrow> f64" where
  "ldexp (Fin x) m =
     (if x = 0 \<or> m < - 2200 then Fin 0 else if 2200 < m then signed_inf (0 < x) else round64 (x * pow2 m))"
| "ldexp f m = f"

definition convert_float :: "string \<Rightarrow> f64 option" where
  "convert_float tok =
     (if CHR ''p'' \<in> set tok \<and> CHR ''x'' \<notin> set tok \<and> CHR ''X'' \<notin> set tok
      then (case parse_float (takeWhile (\<lambda>c. c \<noteq> CHR ''p'') tok) of
              None \<Rightarrow> None
            | Some f \<Rightarrow> (case strconv_Atoi (tl (dropWhile (\<lambda>c. c \<noteq> CHR ''p'') tok)) of
                Inl e \<Rightarrow> None
              | Inr m \<Rightarrow> Some (ldexp f m)))
      else parse_float tok)"

text \<open>Sscanf with %f: spaces are skipped, but a line break is refused; what follows the number is not looked at.\<close>

definition scan_float :: "string \<Rightarrow> f64 option" where
  "scan_float s =
     (if CHR 0x0A \<in> set (takeWhile is_space s) then None
      else let t = dropWhile is_space s in if t = [] then None else convert_float (float_token t))"

text \<open>Texts of the metrics API, and corners of the syntax.\<close>

lemma scan_float_tokens:
  "map float_token [''5x'', ''0x1p4 '', ''1_0.5e-3,'', ''NaN'', ''+Inf'', ''nap'', ''3p2q'', ''-7.25e+1e'', ''0b1'']
     = [''5'', ''0x1p4'', ''1_0.5e-3'', ''NaN'', ''+Inf'', ''nap'', ''3p2'', ''-7.25e+1'', ''0'']"
  by code_simp

lemma scan_float_refused:
  "map scan_float [[CHR 0x0A, CHR ''5''], ''5p'', ''5_'', ''1__0'', ''nap'', '''', ''.'', ''5e'', ''0x10'', ''-NaN''] = replicate 10 None"
  by code_simp

lemma scan_float_special: "map scan_float ['' NaN'', ''+Inf'', ''-infinity'', ''0'', ''-0.00''] = map Some [NaN, PInf, NInf, Fin 0, Fin 0]"
  by code_simp

section \<open>Rounding is sound\<close>

lemma bit_len_bounds: "0 < n \<Longrightarrow> 2 ^ (bit_len n - 1) \<le> n \<and> n < 2 ^ bit_len n"
proof (induction n rule: bit_len.induct)
  case (1 n)
  show ?case
  proof (cases "n = 1")
    case True
    then show ?thesis by (simp add: bit_len.simps)
  next
    case False
    then have n: "0 < n div 2" "bit_len n = Suc (bit_len (n div 2))" using 1(2) by (simp_all add: bit_len.simps [of n])
    then have b: "2 ^ (bit_len (n div 2) - 1) \<le> n div 2" "n div 2 < 2 ^ bit_len (n div 2)" using 1 by auto
    moreover have "0 < bit_len (n div 2)" using n(1) by (simp add: bit_len.simps [of "n div 2"])
    ultimately have "2 ^ bit_len (n div 2) \<le> 2 * (n div 2)" by (cases "bit_len (n div 2)") auto
    moreover have "n div 2 + 1 \<le> 2 ^ bit_len (n div 2)" using b(2) by simp
    ultimately show ?thesis using n(2) by simp linarith
  qed
qed

lemma pow2_pos [simp]: "0 < pow2 e"
  by (simp add: pow2_def)

lemma round_half_even_nonneg: "0 \<le> x \<Longrightarrow> 0 \<le> round_half_even x"
  by (simp add: round_half_even_def Let_def)

lemma round_half_even_close: "\<bar>of_int (round_half_even x) - x\<bar> \<le> 1 / 2"
  unfolding round_half_even_def Let_def by (auto simp: abs_if) linarith+

lemma round_half_even_int [simp]: "round_half_even (of_int i) = i"
  by (simp add: round_half_even_def)

text \<open>Rounding keeps the sign: a value that is not positive does not become positive.\<close>

lemma round64_nonpos:
  assumes "x \<le> 0"
  shows "round64 x = NInf \<or> (\<exists>y \<le> 0. round64 x = Fin y)"
proof (cases "x = 0")
  case False
  define v where "v = of_int (round_half_even (\<bar>x\<bar> / pow2 (max (floor_log2 \<bar>x\<bar> - 52) (- 1074)))) * pow2 (max (floor_log2 \<bar>x\<bar> - 52) (- 1074))"
  have "0 \<le> v" unfolding v_def
    by (intro mult_nonneg_nonneg) (simp_all add: round_half_even_nonneg less_imp_le)
  moreover have "round64 x = (if 2 ^ 1024 \<le> v then NInf else Fin (- v))"
    using False assms unfolding round64_def Let_def v_def [symmetric] by simp
  ultimately show ?thesis by (simp del: power_numeral)
qed (simp add: round64_def)

text \<open>A finite result is within half a unit in the last place of its exact value.\<close>

lemma round64_close:
  assumes "round64 x = Fin y" and "x \<noteq> 0"
  shows "\<bar>y - x\<bar> \<le> pow2 (max (floor_log2 \<bar>x\<bar> - 52) (- 1074)) / 2"
proof -
  define p where "p = pow2 (max (floor_log2 \<bar>x\<bar> - 52) (- 1074))"
  define k where "k = (of_int (round_half_even (\<bar>x\<bar> / p)) :: rat)"
  have p: "0 < p" by (simp add: p_def)
  have y: "y = (if 0 < x then k * p else - (k * p))"
    using assms by (auto simp: round64_def Let_def p_def k_def split: if_splits)
  have "\<bar>k - \<bar>x\<bar> / p\<bar> \<le> 1 / 2" unfolding k_def by (rule round_half_even_close)
  then have "\<bar>k - \<bar>x\<bar> / p\<bar> * p \<le> 1 / 2 * p" using p by (intro mult_right_mono) auto
  moreover have "\<bar>k - \<bar>x\<bar> / p\<bar> * p = \<bar>k * p - \<bar>x\<bar>\<bar>"
    using p by (metis abs_mult abs_of_pos left_diff_distrib nonzero_eq_divide_eq order_less_irrefl)
  moreover have "\<bar>y - x\<bar> = \<bar>k * p - \<bar>x\<bar>\<bar>" using y assms(2) by (auto simp: abs_if)
  ultimately show ?thesis unfolding p_def [symmetric] by simp
qed

section \<open>The error of rounding\<close>

lemma pow2_nonzero [simp]: "pow2 e \<noteq> 0"
  using pow2_pos [of e] by (rule less_imp_neq [symmetric])

lemma pow2_powi: "pow2 e = 2 powi e"
  by (simp add: pow2_def power_int_def field_simps)

lemma pow2_add: "pow2 (a + b) = pow2 a * pow2 b"
  by (simp add: pow2_powi power_int_add)

lemma pow2_mono: "a \<le> b \<Longrightarrow> pow2 a \<le> pow2 b"
  by (simp add: pow2_powi power_int_increasing)

lemma pow2_less_iff: "pow2 a < pow2 b \<longleftrightarrow> a < b"
  using pow2_mono [of b a] by (cases "a < b") (auto simp: pow2_powi power_int_strict_increasing)

lemma pow2_nat: "pow2 (int n) = 2 ^ n"
  by (simp add: pow2_def)

lemma floor_log2_bounds:
  assumes "0 < a"
  shows "pow2 (floor_log2 a) \<le> a \<and> a < pow2 (floor_log2 a + 1)"
proof -
  obtain n d where q: "quotient_of a = (n, d)" by (cases "quotient_of a")
  have d: "0 < d" using quotient_of_denom_pos [OF q] .
  have a: "a = of_int n / of_int d" using quotient_of_div [OF q] .
  have n: "0 < n" using assms d unfolding a by (simp add: zero_less_divide_iff)
  define l k where "l = bit_len (nat n)" and "k = bit_len (nat d)"
  have ln: "2 ^ (l - 1) \<le> nat n" "nat n < 2 ^ l" and ld: "2 ^ (k - 1) \<le> nat d" "nat d < 2 ^ k"
    using bit_len_bounds [of "nat n"] bit_len_bounds [of "nat d"] n d by (auto simp: l_def k_def)
  have pos: "0 < l" "0 < k" using n d by (auto simp: l_def k_def bit_len.simps)
  have N: "pow2 (int l - 1) \<le> of_int n" "of_int n < pow2 (int l)"
    and D: "pow2 (int k - 1) \<le> of_int d" "of_int d < pow2 (int k)"
  proof -
    have c: "(of_int m :: rat) = of_nat (nat m)" if "0 < m" for m using that by simp
    have e: "int l - 1 = int (l - 1)" "int k - 1 = int (k - 1)" using pos by simp_all
    show "pow2 (int l - 1) \<le> of_int n" "of_int n < pow2 (int l)" "pow2 (int k - 1) \<le> of_int d" "of_int d < pow2 (int k)"
      unfolding e pow2_nat c [OF n] c [OF d] using ln ld
      by (metis of_nat_le_iff of_nat_less_iff of_nat_numeral of_nat_power)+
  qed
  have hi: "a < pow2 (int l - int k + 1)"
  proof -
    have "of_int n < pow2 (int l)" by (rule N(2))
    also have "\<dots> = pow2 (int l - int k + 1) * pow2 (int k - 1)" by (simp flip: pow2_add)
    also have "\<dots> \<le> pow2 (int l - int k + 1) * of_int d" using D(1) by simp
    finally show ?thesis unfolding a using d by (simp add: divide_less_eq)
  qed
  have lo: "pow2 (int l - int k - 1) \<le> a"
  proof -
    have "pow2 (int l - int k - 1) * of_int d \<le> pow2 (int l - int k - 1) * pow2 (int k)" using D(2) by simp
    also have "\<dots> = pow2 (int l - 1)" by (simp flip: pow2_add)
    also have "\<dots> \<le> of_int n" by (rule N(1))
    finally show ?thesis unfolding a using d by (simp add: le_divide_eq)
  qed
  have "floor_log2 a = (if pow2 (int l - int k) \<le> a then int l - int k else int l - int k - 1)"
    by (simp add: floor_log2_def q l_def k_def Let_def)
  then show ?thesis using hi lo by auto
qed

text \<open>The error of rounding in the range of the normal numbers, relative to the value.\<close>

lemma round64_relative:
  assumes "round64 x = Fin y" and "x = 0 \<or> pow2 (- 1022) \<le> \<bar>x\<bar>"
  shows "\<bar>y - x\<bar> \<le> \<bar>x\<bar> / 2 ^ 53"
proof (cases "x = 0")
  case True
  then show ?thesis using assms(1) by (simp add: round64_def)
next
  case False
  define e where "e = floor_log2 \<bar>x\<bar>"
  have b: "pow2 e \<le> \<bar>x\<bar>" "\<bar>x\<bar> < pow2 (e + 1)" using floor_log2_bounds [of "\<bar>x\<bar>"] False by (simp_all add: e_def)
  have "pow2 (- 1022) < pow2 (e + 1)" using assms(2) b(2) False by simp
  then have "- 1022 \<le> e" by (simp add: pow2_less_iff)
  then have "max (e - 52) (- 1074) = e + (- 52)" by simp
  then have "\<bar>y - x\<bar> \<le> pow2 (e + (- 52)) / 2" using round64_close [OF assms(1) False] by (simp add: e_def)
  also have "\<dots> = pow2 e * pow2 (- 52) / 2" by (simp only: pow2_add)
  also have "\<dots> = pow2 e / 2 ^ 53" by (simp add: pow2_def [of "- 52"])
  also have "\<dots> \<le> \<bar>x\<bar> / 2 ^ 53" using b(1) by (simp add: divide_right_mono)
  finally show ?thesis .
qed

text \<open>A result far below the largest number is finite, and an integer of at most 53 bits is exact.\<close>

lemma round64_finite:
  assumes "\<bar>x\<bar> < pow2 1000"
  shows "\<exists>y. round64 x = Fin y"
proof (cases "x = 0")
  case False
  define q where "q = max (floor_log2 \<bar>x\<bar> - 52) (- 1074)"
  define k where "k = (of_int (round_half_even (\<bar>x\<bar> / pow2 q)) :: rat)"
  have b: "pow2 (floor_log2 \<bar>x\<bar>) \<le> \<bar>x\<bar>" using floor_log2_bounds [of "\<bar>x\<bar>"] False by simp
  then have "pow2 (floor_log2 \<bar>x\<bar>) < pow2 1000" using assms by linarith
  then have "q \<le> 1000" by (simp add: q_def pow2_less_iff)
  then have q: "pow2 q \<le> pow2 1000" by (rule pow2_mono)
  have "k \<le> \<bar>x\<bar> / pow2 q + 1" using round_half_even_close [of "\<bar>x\<bar> / pow2 q"] unfolding k_def by (simp add: abs_if split: if_splits)
  then have "k * pow2 q \<le> (\<bar>x\<bar> / pow2 q + 1) * pow2 q" by (intro mult_right_mono) (simp_all add: less_imp_le)
  also have "\<dots> = \<bar>x\<bar> + pow2 q" by (simp add: field_simps)
  also have "\<dots> < pow2 1000 + pow2 1000" using assms q by linarith
  also have "\<dots> = pow2 1001" using pow2_add [of 1 1000] by (simp add: pow2_def [of 1])
  also have "\<dots> \<le> pow2 1024" by (rule pow2_mono) simp
  finally have "k * pow2 q < 2 ^ 1024" using pow2_nat [of 1024] by (simp del: power_numeral)
  then show ?thesis using False unfolding round64_def Let_def q_def [symmetric] k_def [symmetric]
    by (auto simp del: power_numeral simp: not_le [symmetric])
qed (simp add: round64_def)

lemma round64_int:
  assumes "\<bar>i\<bar> < 2 ^ 53"
  shows "round64 (of_int i) = Fin (of_int i)"
proof (cases "i = 0")
  case False
  define e where "e = floor_log2 \<bar>of_int i\<bar>"
  have b: "pow2 e \<le> \<bar>of_int i\<bar>" "\<bar>of_int i\<bar> < pow2 (e + 1)" using floor_log2_bounds [of "\<bar>of_int i\<bar>"] False by (simp_all add: e_def)
  have lt: "\<bar>of_int i\<bar> < (pow2 53 :: rat)"
  proof -
    have "(of_int \<bar>i\<bar> :: rat) < of_int (2 ^ 53)" using assms by (simp only: of_int_less_iff)
    then show ?thesis by (simp add: pow2_def)
  qed
  have "pow2 0 \<le> \<bar>of_int i :: rat\<bar>" using False by (simp add: pow2_def)
  then have "pow2 0 < pow2 (e + 1)" "pow2 e < pow2 53" using b lt by simp_all
  then have e: "0 \<le> e" "e \<le> 52" by (simp_all add: pow2_less_iff)
  have q: "max (floor_log2 \<bar>of_int i\<bar> - 52) (- 1074) = e - 52" using e by (simp add: e_def)
  have "pow2 (52 - e) * pow2 (e - 52) = 1" using pow2_add [of "52 - e" "e - 52"] by (simp add: pow2_def [of 0])
  then have inv: "x / pow2 (e - 52) = x * pow2 (52 - e)" for x by (simp add: divide_eq_eq mult.assoc)
  have "pow2 (52 - e) = of_int (2 ^ nat (52 - e))" using e by (simp add: pow2_def)
  then have "\<bar>of_int i\<bar> / pow2 (e - 52) = of_int (\<bar>i\<bar> * 2 ^ nat (52 - e))" by (simp add: inv)
  then have "of_int (round_half_even (\<bar>of_int i\<bar> / pow2 (e - 52))) = \<bar>of_int i\<bar> / pow2 (e - 52)"
    by (simp only: round_half_even_int)
  then have v: "of_int (round_half_even (\<bar>of_int i\<bar> / pow2 (e - 52))) * pow2 (e - 52) = \<bar>of_int i\<bar>"
    using pow2_pos [of "e - 52"] by simp
  have "\<bar>of_int i\<bar> < (pow2 1024 :: rat)" using lt pow2_mono [of 53 1024] by linarith
  then have "\<not> 2 ^ 1024 \<le> \<bar>of_int i :: rat\<bar>" using pow2_nat [of 1024] by (simp del: power_numeral)
  then show ?thesis using False unfolding round64_def Let_def q v by (auto simp del: power_numeral simp: abs_if)
qed (simp add: round64_def)

text \<open>The form the callers use: away from both ends of the range a result is finite, close and of the same size.\<close>

lemma round64_normal:
  assumes "x = 0 \<or> 1 / 2 ^ 100 \<le> \<bar>x\<bar>" and "\<bar>x\<bar> \<le> 2 ^ 100"
  obtains y where "round64 x = Fin y" and "\<bar>y - x\<bar> \<le> \<bar>x\<bar> / 2 ^ 53" and "\<bar>x\<bar> / 2 \<le> \<bar>y\<bar>" and "\<bar>y\<bar> \<le> 2 * \<bar>x\<bar>"
proof -
  have "pow2 (- 1022) \<le> 1 / 2 ^ 100" using pow2_mono [of "- 1022" "- 100"] by (simp add: pow2_def [of "- 100"])
  then have lo: "x = 0 \<or> pow2 (- 1022) \<le> \<bar>x\<bar>" using assms(1) by linarith
  have "2 ^ 100 < pow2 1000" using pow2_less_iff [of 100 1000] pow2_nat [of 100] by simp
  then obtain y where y: "round64 x = Fin y" using round64_finite [of x] assms(2) by auto
  have c: "\<bar>y - x\<bar> \<le> \<bar>x\<bar> / 2 ^ 53" by (rule round64_relative [OF y lo])
  then have "\<bar>x\<bar> / 2 \<le> \<bar>y\<bar>" "\<bar>y\<bar> \<le> 2 * \<bar>x\<bar>" by (auto simp: abs_if split: if_splits)
  with y c show ?thesis by (rule that)
qed

section \<open>Values of the format\<close>

text \<open>
  The numbers that a float64 can hold: at most 53 significant bits and an exponent between those of the smallest subnormal
  and the largest number. Rounding yields one, and so do all operations and the scanning.
\<close>

definition binary64 :: "rat \<Rightarrow> bool" where
  "binary64 x \<longleftrightarrow> (\<exists>m q. \<bar>m\<bar> \<le> 2 ^ 53 \<and> - 1074 \<le> q \<and> q \<le> 971 \<and> x = of_int m * pow2 q)"

fun is_float64 :: "f64 \<Rightarrow> bool" where
  "is_float64 (Fin x) \<longleftrightarrow> binary64 x \<and> \<bar>x\<bar> < 2 ^ 1024"
| "is_float64 _ \<longleftrightarrow> True"

lemma round_half_even_mono_int:
  assumes "0 \<le> x" and "x < of_int n"
  shows "\<bar>round_half_even x\<bar> \<le> n"
proof -
  have "round_half_even x \<le> \<lfloor>x\<rfloor> + 1" by (simp add: round_half_even_def Let_def)
  moreover have "\<lfloor>x\<rfloor> < n" using assms(2) by (simp add: floor_less_iff)
  ultimately show ?thesis using round_half_even_nonneg [OF assms(1)] by simp
qed

lemma round_half_even_ge: "of_int n \<le> x \<Longrightarrow> n \<le> round_half_even x"
  by (simp add: round_half_even_def Let_def le_floor_iff) (simp add: le_floor_iff [symmetric])

lemma binary64_zero [simp]: "binary64 0"
  unfolding binary64_def by (intro exI [of _ 0]) simp

lemma round64_float64: "is_float64 (round64 x)"
proof (cases "x = 0")
  case True
  then show ?thesis using True by (simp add: round64_def)
next
  case False
  define e q where "e = floor_log2 \<bar>x\<bar>" and "q = max (e - 52) (- 1074)"
  define m where "m = round_half_even (\<bar>x\<bar> / pow2 q)"
  have b: "pow2 e \<le> \<bar>x\<bar>" "\<bar>x\<bar> < pow2 (e + 1)" using floor_log2_bounds [of "\<bar>x\<bar>"] False by (simp_all add: e_def)
  have "pow2 (e + 1) \<le> pow2 (53 + q)" by (rule pow2_mono) (simp add: q_def)
  then have "\<bar>x\<bar> < pow2 53 * pow2 q" using b(2) by (simp only: pow2_add)
  then have "\<bar>x\<bar> / pow2 q < of_int (2 ^ 53)" using pow2_nat [of 53] by (simp add: divide_less_eq)
  then have m: "\<bar>m\<bar> \<le> 2 ^ 53" unfolding m_def by (intro round_half_even_mono_int) (simp_all add: less_imp_le)
  have r: "round64 x = (if 2 ^ 1024 \<le> of_int m * pow2 q then if 0 < x then PInf else NInf
      else Fin (if 0 < x then of_int m * pow2 q else - (of_int m * pow2 q)))"
    using False unfolding round64_def Let_def e_def [symmetric] q_def [symmetric] m_def [symmetric] by simp
  show ?thesis
  proof (cases "2 ^ 1024 \<le> of_int m * pow2 q")
    case True
    then show ?thesis using r by simp
  next
    case small: False
    have "q \<le> 971"
    proof (cases "- 1074 \<le> e - 52")
      case True
      then have q: "q = e - 52" by (simp add: q_def)
      have "pow2 52 * pow2 q \<le> \<bar>x\<bar>" using b(1) pow2_add [of 52 q] by (simp add: q)
      then have "of_int (2 ^ 52) \<le> \<bar>x\<bar> / pow2 q" using pow2_nat [of 52] by (simp add: le_divide_eq)
      then have "2 ^ 52 \<le> m" unfolding m_def by (rule round_half_even_ge)
      then have "of_int (2 ^ 52) * pow2 q \<le> of_int m * pow2 q"
        by (intro mult_right_mono) (simp_all only: of_int_le_iff less_imp_le [OF pow2_pos])
      then have "pow2 e \<le> of_int m * pow2 q" using pow2_nat [of 52] pow2_add [of 52 q] by (simp add: q)
      also have "\<dots> < pow2 1024" using small pow2_nat [of 1024] by (simp del: power_numeral)
      finally have "pow2 e < pow2 1024" .
      then show ?thesis by (simp add: pow2_less_iff q)
    qed (simp add: q_def)
    moreover have "- 1074 \<le> q" by (simp add: q_def)
    ultimately have "binary64 (of_int m * pow2 q)" "binary64 (- (of_int m * pow2 q))"
      using m unfolding binary64_def by (blast, metis abs_minus_cancel mult_minus_left of_int_minus)
    moreover have "0 \<le> of_int m * pow2 q"
      using round_half_even_nonneg [of "\<bar>x\<bar> / pow2 q"] by (simp add: m_def less_imp_le)
    ultimately show ?thesis using r small by (simp del: power_numeral)
  qed
qed

lemma f_sub_float64 [simp]: "is_float64 (f_sub x y)"
  by (cases "(x, y)" rule: f_sub.cases) (simp_all add: round64_float64)

lemma f_mul_float64 [simp]: "is_float64 (f_mul x y)"
  by (cases "(x, y)" rule: f_mul.cases) (simp_all add: round64_float64 signed_inf_def)

lemma f_div_float64 [simp]: "is_float64 (f_div x y)"
  by (cases "(x, y)" rule: f_div.cases) (simp_all add: round64_float64 signed_inf_def)

lemma decimal_value_float64: "decimal_value neg ip fp ex = Some f \<Longrightarrow> is_float64 f"
  using round64_float64 by (auto simp: decimal_value_def Let_def split: if_splits f64.splits)

lemma hex_value_float64: "hex_value neg ip fp ex = Some f \<Longrightarrow> is_float64 f"
  using round64_float64 by (auto simp: hex_value_def Let_def split: if_splits f64.splits)

lemma if_Some: "(if P then x else y) = Some z \<Longrightarrow> P \<and> x = Some z \<or> \<not> P \<and> y = Some z"
  by (cases P) simp_all

lemma read_number_float64:
  assumes "read_number neg u = Some f"
  shows "is_float64 f"
proof -
  have "\<exists>ip fp ex. decimal_value neg ip fp ex = Some f \<or> hex_value neg ip fp ex = Some f"
    using assms unfolding read_number_def Let_def
    by (fastforce simp only: option.distinct option.inject if_split_mem2 split: if_split_asm list.split_asm)
  then show ?thesis using decimal_value_float64 hex_value_float64 by blast
qed

lemma parse_float_float64: "parse_float s = Some f \<Longrightarrow> is_float64 f"
  using read_number_float64 unfolding parse_float_def Let_def by (auto split: if_split_asm)

lemma ldexp_float64: "is_float64 f \<Longrightarrow> is_float64 (ldexp f m)"
  by (cases f) (simp_all add: round64_float64 signed_inf_def)

lemma scan_float_float64: "scan_float s = Some f \<Longrightarrow> is_float64 f"
  unfolding scan_float_def convert_float_def Let_def
  using parse_float_float64 ldexp_float64 by (fastforce split: if_split_asm option.splits sum.splits)

section \<open>A value that did not grow has no positive growth\<close>

lemma f_sub_no_growth: "f_le c b \<Longrightarrow> f_sub c b = NaN \<or> f_sub c b = NInf \<or> (\<exists>y \<le> 0. f_sub c b = Fin y)"
  by (cases c; cases b) (simp_all add: round64_nonpos)

lemma f_div_nonpos: "0 < y \<Longrightarrow> x \<le> 0 \<Longrightarrow> f_div (Fin x) (Fin y) = NInf \<or> (\<exists>z \<le> 0. f_div (Fin x) (Fin y) = Fin z)"
  using round64_nonpos [of "x / y"] by (simp add: divide_nonpos_pos)

lemma f_mul_nonpos: "0 < y \<Longrightarrow> x \<le> 0 \<Longrightarrow> f_mul (Fin x) (Fin y) = NInf \<or> (\<exists>z \<le> 0. f_mul (Fin x) (Fin y) = Fin z)"
  using round64_nonpos [of "x * y"] by (simp add: mult_nonpos_nonneg)

end
