(* ===== verification/Rhobs.thy ===== *)
theory Rhobs
  imports Ocm_Org Config Go_Float Aws_Verifiers
begin

text \<open>
  pkg/verifiers/rhobs.go: the probes and the metrics of a cluster in the RHOBS service. A request goes through the HTTP
  client of \<open>Ocm_Org\<close>; \<open>rhobs_env\<close> adds time.Sleep and the text that the verb %v prints for a decoded JSON value. A range
  over a map visits its entries in the order of \<open>shuffle\<close>, as in \<open>Aws_Verifiers\<close>.
\<close>

section \<open>Configuration and URLs\<close>

record 'w rhobs_env = "'w http_client" +
  Sleep :: "int \<Rightarrow> 'w \<Rightarrow> 'w"
  show_value :: "json \<Rightarrow> string"

record RHOBSProbe =
  probe_ID :: string
  probe_StaticURL :: string
  probe_Labels :: json_object
  probe_Status :: string

record RHOBSConfig =
  rc_ProbeAPIURL :: string
  rc_MetricsAPIURL :: string
  rc_OIDCClientID :: string
  rc_OIDCClientSecret :: string
  rc_OIDCIssuerURL :: string

definition NewRHOBSConfig :: "Config \<Rightarrow> RHOBSConfig" where
  "NewRHOBSConfig cfg = \<lparr>rc_ProbeAPIURL = RHOBSProbeAPIURL cfg, rc_MetricsAPIURL = RHOBSMetricsAPIURL cfg,
     rc_OIDCClientID = RHOBSOIDCClientID cfg, rc_OIDCClientSecret = RHOBSOIDCClientSecret cfg,
     rc_OIDCIssuerURL = RHOBSOIDCIssuerURL cfg\<rparr>"

definition IsConfigured :: "RHOBSConfig \<Rightarrow> bool" where
  "IsConfigured rc \<longleftrightarrow> rc_ProbeAPIURL rc \<noteq> [] \<and> rc_OIDCClientID rc \<noteq> [] \<and> rc_OIDCClientSecret rc \<noteq> [] \<and> rc_OIDCIssuerURL rc \<noteq> []"

text \<open>url.QueryEscape, and the Encode of the three values of a token request, which sorts by key.\<close>

definition upper_hex :: "nat \<Rightarrow> char" where
  "upper_hex d = (if d < 10 then char_of (48 + d) else char_of (55 + d))"

definition escape_char :: "char \<Rightarrow> string" where
  "escape_char c =
     (let n = of_char c :: nat in
      if 48 \<le> n \<and> n \<le> 57 \<or> 65 \<le> n \<and> n \<le> 90 \<or> 97 \<le> n \<and> n \<le> 122 \<or> c \<in> {CHR ''-'', CHR ''_'', CHR ''.'', CHR ''~''} then [c]
      else if c = CHR '' '' then ''+'' else [CHR ''%'', upper_hex (n div 16), upper_hex (n mod 16)])"

definition QueryEscape :: "string \<Rightarrow> string" where
  "QueryEscape s = concat (map escape_char s)"

definition token_form :: "RHOBSConfig \<Rightarrow> string" where
  "token_form cfg = ''client_id='' @ QueryEscape (rc_OIDCClientID cfg) @ ''&client_secret='' @ QueryEscape (rc_OIDCClientSecret cfg)
     @ ''&grant_type=client_credentials''"

section \<open>The access token\<close>

definition token_delays :: "int list" where
  "token_delays = [5 * second, 10 * second, 20 * second]"

definition decode_token :: "string \<Rightarrow> string option" where
  "decode_token s = Option.bind (struct_members s) (\<lambda>m. string_field m ''access_token'')"

text \<open>
  One round of the loop: \<open>Inl\<close> is what the function returns, \<open>Inr\<close> the error after which it may try again.
\<close>

definition token_attempt :: "'w rhobs_env \<Rightarrow> RHOBSConfig \<Rightarrow> nat \<Rightarrow> 'w \<Rightarrow> ((go_error + string) + go_error) \<times> 'w" where
  "token_attempt env cfg attempt w =
     (case check_request env ''POST'' (rc_OIDCIssuerURL cfg) of
        Some err \<Rightarrow> (Inl (Inl (Errorf ''failed to create token request: %w'' [FErr err])), w)
      | None \<Rightarrow>
          (case http_Do env (10 * second) \<lparr>rq_Method = ''POST'', rq_URL = rc_OIDCIssuerURL cfg,
              rq_Headers = [(''Content-Type'', ''application/x-www-form-urlencoded'')], rq_Body = token_form cfg\<rparr> w of
             (Inl err, w1) \<Rightarrow> (Inr (Errorf ''failed to get access token (attempt %d): %w'' [FInt (int (attempt + 1)), FErr err]), w1)
           | (Inr resp, w1) \<Rightarrow>
               if 500 \<le> hr_StatusCode resp
               then (Inr (Errorf ''OIDC token endpoint returned status %d (attempt %d): %s''
                       [FInt (hr_StatusCode resp), FInt (int (attempt + 1)), FStr (hr_Body resp)]), w1)
               else if hr_StatusCode resp \<noteq> 200
               then (Inl (Inl (Errorf ''OIDC token endpoint returned status %d: %s'' [FInt (hr_StatusCode resp), FStr (hr_Body resp)])), w1)
               else (case decode_token (hr_Body resp) of
                   None \<Rightarrow> (Inl (Inl (Errorf ''failed to decode token response: %w'' [FErr (decode_error env (hr_Body resp))])), w1)
                 | Some token \<Rightarrow> (Inl (Inr token), w1))))"

text \<open>The loop, with the delays that are left; when there is none, the last error is reported.\<close>

fun token_loop :: "'w rhobs_env \<Rightarrow> RHOBSConfig \<Rightarrow> nat \<Rightarrow> int list \<Rightarrow> 'w \<Rightarrow> (go_error + string) \<times> 'w" where
  "token_loop env cfg attempt delays w =
     (case token_attempt env cfg attempt w of
        (Inl r, w1) \<Rightarrow> (r, w1)
      | (Inr lastErr, w1) \<Rightarrow>
          (case delays of
             [] \<Rightarrow> (Inl (Errorf ''failed to get OIDC access token after %d attempts: %w'' [FInt (int (length token_delays + 1)), FErr lastErr]), w1)
           | d # ds \<Rightarrow> token_loop env cfg (attempt + 1) ds (Sleep env d w1)))"

declare token_loop.simps [simp del]

definition getOIDCAccessToken :: "'w rhobs_env \<Rightarrow> RHOBSConfig \<Rightarrow> 'w \<Rightarrow> (go_error + string) \<times> 'w" where
  "getOIDCAccessToken env cfg w = token_loop env cfg 0 token_delays w"

section \<open>Probes\<close>

text \<open>A map field: an object adds its members to those of an earlier one, null drops them.\<close>

definition map_field :: "json_object \<Rightarrow> string \<Rightarrow> json_object option" where
  "map_field m name =
     (let ms = map snd (filter (\<lambda>kv. equal_fold (fst kv) name) m) in
      if list_all (\<lambda>v. v = JNull \<or> as_obj v \<noteq> None) ms \<and> list_all numbers_ok ms
      then Some (concat (map (the \<circ> as_obj) (takeWhile (\<lambda>v. v \<noteq> JNull) ms))) else None)"

definition decode_probe :: "json \<Rightarrow> RHOBSProbe option" where
  "decode_probe j =
     (case j of
        JNull \<Rightarrow> Some \<lparr>probe_ID = [], probe_StaticURL = [], probe_Labels = [], probe_Status = []\<rparr>
      | JObj m \<Rightarrow> do {
          i \<leftarrow> string_field m ''id''; u \<leftarrow> string_field m ''static_url''; l \<leftarrow> map_field m ''labels''; s \<leftarrow> string_field m ''status'';
          Some \<lparr>probe_ID = i, probe_StaticURL = u, probe_Labels = l, probe_Status = s\<rparr> }
      | _ \<Rightarrow> None)"

definition decode_probe_list :: "json list \<Rightarrow> RHOBSProbe list option" where
  "decode_probe_list js = (if list_all (\<lambda>j. decode_probe j \<noteq> None) js then Some (map (the \<circ> decode_probe) js) else None)"

definition decode_probes :: "string \<Rightarrow> RHOBSProbe list option" where
  "decode_probes s =
     (case parse_json s of Some (JArr js) \<Rightarrow> decode_probe_list js | Some JNull \<Rightarrow> Some [] | _ \<Rightarrow> None)"

definition decode_wrapped_probes :: "string \<Rightarrow> RHOBSProbe list option" where
  "decode_wrapped_probes s = do { m \<leftarrow> struct_members s; js \<leftarrow> slice_field m ''probes''; decode_probe_list js }"

definition bearer_request :: "string \<Rightarrow> (string \<times> string) list \<Rightarrow> http_request" where
  "bearer_request url headers = \<lparr>rq_Method = ''GET'', rq_URL = url, rq_Headers = headers, rq_Body = []\<rparr>"

definition probes_url :: "RHOBSConfig \<Rightarrow> string \<Rightarrow> string" where
  "probes_url cfg labelSelector =
     rc_ProbeAPIURL cfg @ (if labelSelector \<noteq> [] then ''?label_selector='' @ QueryEscape labelSelector else [])"

definition queryRHOBSProbes :: "'w rhobs_env \<Rightarrow> RHOBSConfig \<Rightarrow> string \<Rightarrow> 'w \<Rightarrow> (go_error + RHOBSProbe list) \<times> 'w" where
  "queryRHOBSProbes env cfg labelSelector w =
     (case getOIDCAccessToken env cfg w of
        (Inl err, w1) \<Rightarrow> (Inl (Errorf ''failed to get OIDC access token: %w'' [FErr err]), w1)
      | (Inr accessToken, w1) \<Rightarrow>
          (let reqURL = probes_url cfg labelSelector in
           case check_request env ''GET'' reqURL of
             Some err \<Rightarrow> (Inl (Errorf ''failed to create request: %w'' [FErr err]), w1)
           | None \<Rightarrow> (case http_Do env (10 * second) (bearer_request reqURL [(''Authorization'', ''Bearer '' @ accessToken)]) w1 of
                 (Inl err, w2) \<Rightarrow> (Inl (Errorf ''failed to query RHOBS API: %w'' [FErr err]), w2)
               | (Inr resp, w2) \<Rightarrow>
                   if hr_StatusCode resp \<noteq> 200
                   then (Inl (Errorf ''RHOBS API returned status %d: %s'' [FInt (hr_StatusCode resp), FStr (hr_Body resp)]), w2)
                   else (case hr_ReadError resp of
                       Some err \<Rightarrow> (Inl (Errorf ''failed to read response body: %w'' [FErr err]), w2)
                     | None \<Rightarrow> (case decode_probes (hr_Body resp) of
                           Some probes \<Rightarrow> (Inr probes, w2)
                         | None \<Rightarrow> (case decode_wrapped_probes (hr_Body resp) of
                               Some probes \<Rightarrow> (Inr probes, w2)
                             | None \<Rightarrow> (Inl (Errorf ''failed to decode RHOBS API response: %w'' [FErr (decode_error env (hr_Body resp))]), w2)))))))"

definition label_value :: "'w rhobs_env \<Rightarrow> json_object \<Rightarrow> string \<Rightarrow> string" where
  "label_value env m k = (case map_of m k of None \<Rightarrow> ''<nil>'' | Some v \<Rightarrow> show_value env v)"

definition VerifyRHOBSProbeExists :: "'w rhobs_env \<Rightarrow> string \<Rightarrow> bool \<Rightarrow> RHOBSConfig \<Rightarrow> 'w \<Rightarrow> go_error option \<times> 'w" where
  "VerifyRHOBSProbeExists env clusterID expectedPrivate cfg w =
     (case queryRHOBSProbes env cfg (fmt_Sprintf ''cluster-id=%s'' [FStr clusterID]) w of
        (Inl err, w1) \<Rightarrow> (Some (Errorf ''querying RHOBS API for cluster %s: %w'' [FStr clusterID, FErr err]), w1)
      | (Inr probes, w1) \<Rightarrow>
          if probes = [] then (Some (Errorf ''no probe found for cluster %s'' [FStr clusterID]), w1)
          else if 1 < length probes
          then (Some (Errorf ''expected 1 probe for cluster %s, found %d'' [FStr clusterID, FInt (int (length probes))]), w1)
          else (let labels = probe_Labels (hd probes) in
            if field_as as_str labels ''cluster-id'' \<noteq> Some clusterID
            then (Some (Errorf ''probe has incorrect cluster-id label: got %v, want %s''
                    [FOpaque (label_value env labels ''cluster-id''), FStr clusterID]), w1)
            else (case field_as as_str labels ''private'' of
                None \<Rightarrow> (Some (Errorf ''probe missing private label'' []), w1)
              | Some privateLabel \<Rightarrow>
                  (let expectedPrivateStr = (if expectedPrivate then ''true'' else ''false'') in
                   if privateLabel \<noteq> expectedPrivateStr
                   then (Some (Errorf ''probe has incorrect private label: got %s, want %s'' [FStr privateLabel, FStr expectedPrivateStr]), w1)
                   else (None, w1)))))"

fun check_labels :: "json_object \<Rightarrow> (string \<times> string) list \<Rightarrow> go_error option" where
  "check_labels labels [] = None"
| "check_labels labels ((key, expectedValue) # rest) =
     (case field_as as_str labels key of
        None \<Rightarrow> Some (Errorf ''probe missing label %s'' [FStr key])
      | Some actualValue \<Rightarrow>
          if actualValue \<noteq> expectedValue
          then Some (Errorf ''probe label %s: got %s, want %s'' [FStr key, FStr actualValue, FStr expectedValue])
          else check_labels labels rest)"

definition VerifyProbeLabels ::
  "'w rhobs_env \<Rightarrow> (nat \<Rightarrow> (string \<times> string) list \<Rightarrow> (string \<times> string) list) \<Rightarrow> string \<Rightarrow> (string \<times> string) list \<Rightarrow> RHOBSConfig
   \<Rightarrow> 'w \<Rightarrow> go_error option \<times> 'w" where
  "VerifyProbeLabels env shuffle clusterID expectedLabels cfg w =
     (case queryRHOBSProbes env cfg (fmt_Sprintf ''cluster-id=%s'' [FStr clusterID]) w of
        (Inl err, w1) \<Rightarrow> (Some (Errorf ''querying RHOBS API: %w'' [FErr err]), w1)
      | (Inr probes, w1) \<Rightarrow>
          if probes = [] then (Some (Errorf ''no probe found for cluster %s'' [FStr clusterID]), w1)
          else (check_labels (probe_Labels (hd probes)) (shuffle 0 expectedLabels), w1))"

section \<open>Metrics\<close>

text \<open>A Decoder reads the first value of the body only; what follows it is not looked at.\<close>

definition decode_result :: "string \<Rightarrow> json_object option" where
  "decode_result s =
     (case parse_value (2 * length s + 1) 0 s of
        Some (JObj m, r) \<Rightarrow> if numbers_ok (JObj m) then Some m else None
      | Some (JNull, r) \<Rightarrow> Some []
      | _ \<Rightarrow> None)"

definition metrics_url :: "RHOBSConfig \<Rightarrow> string \<Rightarrow> string" where
  "metrics_url cfg query = rc_MetricsAPIURL cfg @ ''/api/v1/query?query='' @ QueryEscape query"

definition metrics_headers :: "'w rhobs_env \<Rightarrow> RHOBSConfig \<Rightarrow> 'w \<Rightarrow> (go_error + (string \<times> string) list) \<times> 'w" where
  "metrics_headers env cfg w =
     (if rc_OIDCClientID cfg \<noteq> [] \<and> rc_OIDCClientSecret cfg \<noteq> [] then
        (case getOIDCAccessToken env cfg w of
           (Inl err, w1) \<Rightarrow> (Inl (Errorf ''failed to get OIDC access token: %w'' [FErr err]), w1)
         | (Inr accessToken, w1) \<Rightarrow> (Inr [(''Authorization'', ''Bearer '' @ accessToken)], w1))
      else (Inr [], w))"

definition queryRHOBSMetrics :: "'w rhobs_env \<Rightarrow> RHOBSConfig \<Rightarrow> string \<Rightarrow> 'w \<Rightarrow> (go_error + json_object) \<times> 'w" where
  "queryRHOBSMetrics env cfg query w =
     (let reqURL = metrics_url cfg query in
      case check_request env ''GET'' reqURL of
        Some err \<Rightarrow> (Inl (Errorf ''failed to create request: %w'' [FErr err]), w)
      | None \<Rightarrow> (case metrics_headers env cfg w of
            (Inl err, w1) \<Rightarrow> (Inl err, w1)
          | (Inr headers, w1) \<Rightarrow> (case http_Do env (30 * second) (bearer_request reqURL headers) w1 of
                (Inl err, w2) \<Rightarrow> (Inl (Errorf ''failed to query RHOBS metrics API: %w'' [FErr err]), w2)
              | (Inr resp, w2) \<Rightarrow>
                  if hr_StatusCode resp \<noteq> 200
                  then (Inl (Errorf ''RHOBS metrics API returned status %d: %s'' [FInt (hr_StatusCode resp), FStr (hr_Body resp)]), w2)
                  else (case decode_result (hr_Body resp) of
                      None \<Rightarrow> (Inl (Errorf ''failed to decode metrics response: %w'' [FErr (decode_error env (hr_Body resp))]), w2)
                    | Some m \<Rightarrow> (Inr m, w2)))))"

section \<open>Reading results\<close>

definition extractScalarValue :: "'w rhobs_env \<Rightarrow> (string \<Rightarrow> go_error) \<Rightarrow> json_object \<Rightarrow> go_error + f64" where
  "extractScalarValue env scan_error m =
     (case field_as as_obj m ''data'' of
        None \<Rightarrow> Inl (Errorf ''no data in response'' [])
      | Some data \<Rightarrow> (case field_as as_arr data ''result'' of
            Some (first # _) \<Rightarrow> (case as_obj first of
                None \<Rightarrow> Inl (Errorf ''unexpected result format'' [])
              | Some entry \<Rightarrow> (case field_as as_arr entry ''value'' of
                    Some (_ # v # _) \<Rightarrow> (case as_str v of
                        None \<Rightarrow> Inl (Errorf ''value is not a string: %v'' [FOpaque (show_value env v)])
                      | Some strVal \<Rightarrow> (case scan_float strVal of
                            None \<Rightarrow> Inl (Errorf ''failed to parse value %q: %w'' [FStr strVal, FErr (scan_error strVal)])
                          | Some f \<Rightarrow> Inr f))
                  | _ \<Rightarrow> Inl (Errorf ''no value in result'' [])))
          | _ \<Rightarrow> Inl (Errorf ''empty result set'' [])))"

definition vector_entry :: "string \<Rightarrow> json \<Rightarrow> (string \<times> f64) option" where
  "vector_entry labelKey item = do {
     entry \<leftarrow> as_obj item;
     metric \<leftarrow> field_as as_obj entry ''metric'';
     vals \<leftarrow> field_as as_arr entry ''value'';
     (case vals of
        _ # v # _ \<Rightarrow> map_option (\<lambda>f. (str_or_empty metric labelKey, f)) (scan_float (case as_str v of None \<Rightarrow> [] | Some s \<Rightarrow> s))
      | _ \<Rightarrow> None) }"

text \<open>The values by label: a label that occurs again keeps its last value.\<close>

fun vector_values :: "string \<Rightarrow> json list \<Rightarrow> (string \<times> f64) list \<Rightarrow> (string \<times> f64) list" where
  "vector_values labelKey [] vals = vals"
| "vector_values labelKey (item # items) vals =
     vector_values labelKey items
       (case vector_entry labelKey item of None \<Rightarrow> vals | Some (l, f) \<Rightarrow> (l, f) # filter (\<lambda>kv. fst kv \<noteq> l) vals)"

definition extractVectorValues :: "json_object \<Rightarrow> string \<Rightarrow> go_error + (string \<times> f64) list" where
  "extractVectorValues m labelKey =
     (case field_as as_obj m ''data'' of
        None \<Rightarrow> Inl (Errorf ''no data in response'' [])
      | Some data \<Rightarrow> (case field_as as_arr data ''result'' of
            None \<Rightarrow> Inl (Errorf ''no result array in response'' [])
          | Some items \<Rightarrow> Inr (vector_values labelKey items [])))"

section \<open>Cardinality\<close>

record CardinalityResult =
  cr_MetricName :: string
  cr_Current :: f64
  cr_Baseline :: f64
  cr_DeltaPct :: f64
  cr_Threshold :: f64
  cr_Passed :: bool

definition delta_pct :: "f64 \<Rightarrow> f64 \<Rightarrow> f64" where
  "delta_pct current baseline =
     (if baseline > 0 then (current - baseline) / baseline * Fin 100 else 0)"

definition delta_result :: "string \<Rightarrow> f64 \<Rightarrow> f64 \<Rightarrow> f64 \<Rightarrow> CardinalityResult" where
  "delta_result name current baseline maxDeltaPct =
     \<lparr>cr_MetricName = name, cr_Current = current, cr_Baseline = baseline, cr_DeltaPct = delta_pct current baseline,
      cr_Threshold = maxDeltaPct, cr_Passed = (delta_pct current baseline \<le> maxDeltaPct)\<rparr>"

definition series_result :: "f64 \<Rightarrow> string \<times> f64 \<Rightarrow> CardinalityResult" where
  "series_result maxSeriesPerMetric nc =
     \<lparr>cr_MetricName = fst nc, cr_Current = snd nc, cr_Baseline = 0, cr_DeltaPct = 0,
      cr_Threshold = maxSeriesPerMetric, cr_Passed = (snd nc \<le> maxSeriesPerMetric)\<rparr>"

text \<open>Two queries and the two values they yield; \<open>what\<close> is how the messages call them.\<close>

definition query_pair ::
  "'w rhobs_env \<Rightarrow> (string \<Rightarrow> go_error) \<Rightarrow> RHOBSConfig \<Rightarrow> string \<Rightarrow> string \<Rightarrow> string \<Rightarrow> 'w \<Rightarrow> (go_error + f64 \<times> f64) \<times> 'w" where
  "query_pair env scan_error cfg what currentQuery baselineQuery w =
     (case queryRHOBSMetrics env cfg currentQuery w of
        (Inl err, w1) \<Rightarrow> (Inl (Errorf (''querying current '' @ what @ '': %w'') [FErr err]), w1)
      | (Inr currentResult, w1) \<Rightarrow> (case queryRHOBSMetrics env cfg baselineQuery w1 of
            (Inl err, w2) \<Rightarrow> (Inl (Errorf (''querying baseline '' @ what @ '': %w'') [FErr err]), w2)
          | (Inr baselineResult, w2) \<Rightarrow> (case extractScalarValue env scan_error currentResult of
                Inl err \<Rightarrow> (Inl (Errorf (''extracting current '' @ what @ '': %w'') [FErr err]), w2)
              | Inr current \<Rightarrow> (case extractScalarValue env scan_error baselineResult of
                    Inl err \<Rightarrow> (Inl (Errorf (''extracting baseline '' @ what @ '': %w'') [FErr err]), w2)
                  | Inr baseline \<Rightarrow> (Inr (current, baseline), w2)))))"

definition dq :: string where "dq = [CHR 0x22]"

definition head_series_query :: "string \<Rightarrow> string" where
  "head_series_query offset = ''sum(prometheus_tsdb_head_series{container='' @ dq @ ''prometheus'' @ dq @ ''}'' @ offset @ '')''"

definition remote_write_query :: "string \<Rightarrow> string" where
  "remote_write_query offset = ''sum(rate(prometheus_remote_storage_samples_total[5m]'' @ offset @ ''))''"

definition VerifyCardinalityThreshold ::
  "'w rhobs_env \<Rightarrow> (string \<Rightarrow> go_error) \<Rightarrow> (nat \<Rightarrow> (string \<times> f64) list \<Rightarrow> (string \<times> f64) list) \<Rightarrow> RHOBSConfig \<Rightarrow> f64 \<Rightarrow> f64 \<Rightarrow> 'w
   \<Rightarrow> (go_error + CardinalityResult list) \<times> 'w" where
  "VerifyCardinalityThreshold env scan_error shuffle cfg maxDeltaPct maxSeriesPerMetric w =
     (case query_pair env scan_error cfg ''TSDB head series'' (head_series_query []) (head_series_query '' offset 2h'') w of
        (Inl err, w1) \<Rightarrow> (Inl err, w1)
      | (Inr (current, baseline), w1) \<Rightarrow>
          (case query_pair env scan_error cfg ''remote-write rate'' (remote_write_query []) (remote_write_query '' offset 2h'') w1 of
             (Inl err, w2) \<Rightarrow> (Inl err, w2)
           | (Inr (currentRW, baselineRW), w2) \<Rightarrow>
               (case queryRHOBSMetrics env cfg (''topk(10, count by (__name__) ({source='' @ dq @ ''MC'' @ dq @ ''}))'') w2 of
                  (Inl err, w3) \<Rightarrow> (Inl (Errorf ''querying per-metric cardinality: %w'' [FErr err]), w3)
                | (Inr perMetricResult, w3) \<Rightarrow> (case extractVectorValues perMetricResult ''__name__'' of
                      Inl err \<Rightarrow> (Inl (Errorf ''extracting per-metric cardinality: %w'' [FErr err]), w3)
                    | Inr perMetric \<Rightarrow>
                        (Inr (delta_result ''prometheus_tsdb_head_series'' current baseline maxDeltaPct
                            # delta_result ''prometheus_remote_storage_samples_total (rate)'' currentRW baselineRW maxDeltaPct
                            # map (series_result maxSeriesPerMetric) (shuffle 0 perMetric)), w3)))))"

section \<open>Probe metrics and recording rules\<close>

definition metric_query :: "string \<Rightarrow> string \<Rightarrow> string" where
  "metric_query metric clusterID = fmt_Sprintf (metric @ ''{_id='' @ dq @ ''%s'' @ dq @ ''}'') [FStr clusterID]"

definition succeeded :: "json_object \<Rightarrow> bool" where
  "succeeded m \<longleftrightarrow> field_as as_str m ''status'' = Some ''success''"

definition has_results :: "json_object \<Rightarrow> bool" where
  "has_results data = (case field_as as_arr data ''result'' of None \<Rightarrow> False | Some rs \<Rightarrow> rs \<noteq> [])"

definition VerifyProbeSuccessMetrics :: "'w rhobs_env \<Rightarrow> string \<Rightarrow> RHOBSConfig \<Rightarrow> 'w \<Rightarrow> go_error option \<times> 'w" where
  "VerifyProbeSuccessMetrics env clusterID cfg w =
     (case queryRHOBSMetrics env cfg (metric_query ''probe_success'' clusterID) w of
        (Inl err, w1) \<Rightarrow> (Some (Errorf ''querying probe_success metrics: %w'' [FErr err]), w1)
      | (Inr m, w1) \<Rightarrow>
          if \<not> succeeded m then (Some (Errorf ''metrics query failed: %v'' [FOpaque (show_value env (JObj m))]), w1)
          else (case field_as as_obj m ''data'' of
              None \<Rightarrow> (Some (Errorf ''no data in metrics response'' []), w1)
            | Some data \<Rightarrow>
                if \<not> has_results data
                then (Some (Errorf ''no probe_success metrics found for cluster %s'' [FStr clusterID]), w1)
                else (None, w1)))"

definition probeSuccessDataExists :: "'w rhobs_env \<Rightarrow> string \<Rightarrow> RHOBSConfig \<Rightarrow> 'w \<Rightarrow> (bool \<times> go_error option) \<times> 'w" where
  "probeSuccessDataExists env clusterID cfg w =
     (case queryRHOBSMetrics env cfg (metric_query ''probe_success'' clusterID) w of
        (Inl err, w1) \<Rightarrow> ((False, Some (Errorf ''querying probe_success metrics: %w'' [FErr err])), w1)
      | (Inr m, w1) \<Rightarrow>
          if \<not> succeeded m
          then ((False, Some (Errorf ''probe_success query returned non-success status: %v'' [FOpaque (label_value env m ''status'')])), w1)
          else (case field_as as_obj m ''data'' of
              None \<Rightarrow> ((False, None), w1)
            | Some data \<Rightarrow> ((has_results data, None), w1)))"

definition em_dash :: string where "em_dash = [CHR 0xE2, CHR 0x80, CHR 0x94]"

text \<open>The check of one recording rule; \<open>missing\<close> says that the probe data could be looked up and is not there.\<close>

definition check_rule :: "'w rhobs_env \<Rightarrow> string \<Rightarrow> RHOBSConfig \<Rightarrow> bool \<Rightarrow> string \<Rightarrow> 'w \<Rightarrow> go_error option \<times> 'w" where
  "check_rule env clusterID cfg missing rule w =
     (case queryRHOBSMetrics env cfg (metric_query rule clusterID) w of
        (Inl err, w1) \<Rightarrow> (Some (Errorf (''querying '' @ rule @ '': %w'') [FErr err]), w1)
      | (Inr m, w1) \<Rightarrow>
          if \<not> succeeded m then (Some (Errorf (rule @ '' query failed: %v'') [FOpaque (show_value env (JObj m))]), w1)
          else (case field_as as_obj m ''data'' of
              None \<Rightarrow> (Some (Errorf (''no data in '' @ rule @ '' response'') []), w1)
            | Some data \<Rightarrow>
                if \<not> has_results data then
                  (if missing
                   then (Some (Errorf (''probe_success metrics not yet available for cluster %s '' @ em_dash @ '' recording rule '' @ rule
                           @ '' cannot evaluate without underlying probe data'') [FStr clusterID]), w1)
                   else (Some (Errorf (rule @ '' recording rule not evaluating for cluster %s'') [FStr clusterID]), w1))
                else (None, w1)))"

definition VerifyRecordingRules :: "'w rhobs_env \<Rightarrow> string \<Rightarrow> RHOBSConfig \<Rightarrow> 'w \<Rightarrow> go_error option \<times> 'w" where
  "VerifyRecordingRules env clusterID cfg w =
     (case probeSuccessDataExists env clusterID cfg w of
        ((hasProbeData, probeErr), w1) \<Rightarrow>
          (let missing = (probeErr = None \<and> \<not> hasProbeData) in
           case check_rule env clusterID cfg missing ''sre:hcp:probe_active'' w1 of
             (Some e, w2) \<Rightarrow> (Some e, w2)
           | (None, w2) \<Rightarrow> check_rule env clusterID cfg missing ''sre:hcp:blackbox_probe_active'' w2))"

section \<open>The retries of the token request\<close>

text \<open>
  What the loop is meant to do, without the loop: the attempts are numbered, the delay of the table passes between two of
  them, and the first attempt whose failure is not transient decides.
\<close>

primrec token_world :: "'w rhobs_env \<Rightarrow> RHOBSConfig \<Rightarrow> 'w \<Rightarrow> nat \<Rightarrow> 'w" where
  "token_world env cfg w 0 = w"
| "token_world env cfg w (Suc n) = Sleep env (token_delays ! n) (snd (token_attempt env cfg n (token_world env cfg w n)))"

definition token_request :: "RHOBSConfig \<Rightarrow> http_request" where
  "token_request cfg = \<lparr>rq_Method = ''POST'', rq_URL = rc_OIDCIssuerURL cfg,
     rq_Headers = [(''Content-Type'', ''application/x-www-form-urlencoded'')], rq_Body = token_form cfg\<rparr>"

definition transient_failure :: "'w rhobs_env \<Rightarrow> RHOBSConfig \<Rightarrow> 'w \<Rightarrow> bool" where
  "transient_failure env cfg w =
     (check_request env ''POST'' (rc_OIDCIssuerURL cfg) = None \<and>
      (case fst (http_Do env (10 * second) (token_request cfg) w) of Inl _ \<Rightarrow> True | Inr resp \<Rightarrow> 500 \<le> hr_StatusCode resp))"

lemma token_attempt_transient:
  "transient_failure env cfg w \<longleftrightarrow> (\<exists>e w1. token_attempt env cfg n w = (Inr e, w1))"
  by (auto simp: transient_failure_def token_attempt_def token_request_def split: sum.splits prod.splits option.splits)

lemma token_attempt_final:
  "\<not> transient_failure env cfg w \<longleftrightarrow> (\<exists>r w1. token_attempt env cfg n w = (Inl r, w1))"
  by (auto simp: transient_failure_def token_attempt_def token_request_def split: sum.splits prod.splits option.splits)

lemma token_loop_transient:
  "transient_failure env cfg w \<Longrightarrow>
   token_loop env cfg n (d # ds) w = token_loop env cfg (n + 1) ds (Sleep env d (snd (token_attempt env cfg n w)))"
  by (subst token_loop.simps) (auto simp: token_attempt_transient [of _ _ _ n])

lemma token_loop_exhausted:
  "transient_failure env cfg w \<Longrightarrow>
   token_loop env cfg n [] w = (Inl (Errorf ''failed to get OIDC access token after %d attempts: %w''
     [FInt 4, FErr (projr (fst (token_attempt env cfg n w)))]), snd (token_attempt env cfg n w))"
  by (subst token_loop.simps) (auto simp: token_attempt_transient [of _ _ _ n] token_delays_def)

lemma token_loop_final:
  "\<not> transient_failure env cfg w \<Longrightarrow>
   token_loop env cfg n ds w = (projl (fst (token_attempt env cfg n w)), snd (token_attempt env cfg n w))"
  by (subst token_loop.simps) (auto simp: token_attempt_final [of _ _ _ n])

lemma token_world_sleeps:
  "token_world env cfg w (Suc 0) = Sleep env (5 * second) (snd (token_attempt env cfg 0 w))"
  "token_world env cfg w 2 = Sleep env (10 * second) (snd (token_attempt env cfg 1 (token_world env cfg w 1)))"
  "token_world env cfg w 3 = Sleep env (20 * second) (snd (token_attempt env cfg 2 (token_world env cfg w 2)))"
  by (simp_all add: token_delays_def eval_nat_numeral)

text \<open>
  C18. getOIDCAccessToken agrees with the reference: it makes at most four token requests, waiting 5, 10 and 20 seconds
  between them; the first of them that does not fail transiently (a transport error, or a status of 500 and above) decides,
  with its token or its error; when all four fail transiently the error of the fourth is reported. The first request is sent
  at once.
\<close>

theorem token_retry_reference:
  "getOIDCAccessToken env cfg w =
     (case find (\<lambda>n. \<not> transient_failure env cfg (token_world env cfg w n)) [0..<4] of
        Some n \<Rightarrow> (let (r, w1) = token_attempt env cfg n (token_world env cfg w n) in (projl r, w1))
      | None \<Rightarrow>
          (let (r, w1) = token_attempt env cfg 3 (token_world env cfg w 3) in
           (Inl (Errorf ''failed to get OIDC access token after %d attempts: %w'' [FInt 4, FErr (projr r)]), w1)))
   \<and> map (token_world env cfg w) [0..<4] =
       [w, Sleep env (5 * second) (snd (token_attempt env cfg 0 w)),
        Sleep env (10 * second) (snd (token_attempt env cfg 1 (token_world env cfg w 1))),
        Sleep env (20 * second) (snd (token_attempt env cfg 2 (token_world env cfg w 2)))]"
proof
  let ?T = "\<lambda>n. transient_failure env cfg (token_world env cfg w n)"
  have l: "getOIDCAccessToken env cfg w = token_loop env cfg 0 [5 * second, 10 * second, 20 * second] w"
    by (simp add: getOIDCAccessToken_def token_delays_def)
  have u: "[0..<4] = [0, 1, 2, 3 :: nat]" by (simp add: upt_rec)
  show "getOIDCAccessToken env cfg w =
     (case find (\<lambda>n. \<not> ?T n) [0..<4] of
        Some n \<Rightarrow> (let (r, w1) = token_attempt env cfg n (token_world env cfg w n) in (projl r, w1))
      | None \<Rightarrow>
          (let (r, w1) = token_attempt env cfg 3 (token_world env cfg w 3) in
           (Inl (Errorf ''failed to get OIDC access token after %d attempts: %w'' [FInt 4, FErr (projr r)]), w1)))"
  proof (cases "?T 0")
    case t0: True
    then have a: "getOIDCAccessToken env cfg w = token_loop env cfg 1 [10 * second, 20 * second] (token_world env cfg w 1)"
      by (simp add: l token_loop_transient token_delays_def)
    show ?thesis
    proof (cases "?T 1")
      case t1: True
      then have b: "getOIDCAccessToken env cfg w = token_loop env cfg 2 [20 * second] (token_world env cfg w 2)"
        by (simp add: a token_loop_transient token_delays_def numeral_2_eq_2)
      show ?thesis
      proof (cases "?T 2")
        case t2: True
        then have c: "getOIDCAccessToken env cfg w = token_loop env cfg 3 [] (token_world env cfg w 3)"
          by (simp add: b token_loop_transient token_delays_def numeral_2_eq_2 numeral_3_eq_3)
        show ?thesis using t0 t1 t2 by (cases "?T 3") (simp_all add: c u token_loop_exhausted token_loop_final split_def Let_def)
      qed (use t0 t1 in \<open>simp add: b u token_loop_final split_def Let_def\<close>)
    qed (use t0 in \<open>simp add: a u token_loop_final split_def Let_def\<close>)
  qed (simp add: l u token_loop_final split_def Let_def)
  show "map (token_world env cfg w) [0..<4] =
       [w, Sleep env (5 * second) (snd (token_attempt env cfg 0 w)),
        Sleep env (10 * second) (snd (token_attempt env cfg 1 (token_world env cfg w 1))),
        Sleep env (20 * second) (snd (token_attempt env cfg 2 (token_world env cfg w 2)))]"
    unfolding u by (simp add: token_world_sleeps del: token_world.simps(2))
qed

section \<open>Query escaping\<close>

text \<open>How a server reads the value of a query parameter: \<open>+\<close> is a space, \<open>%XY\<close> the byte with that code.\<close>

definition hex_value :: "char \<Rightarrow> nat option" where
  "hex_value c =
     (let n = of_char c :: nat in
      if 48 \<le> n \<and> n \<le> 57 then Some (n - 48) else if 65 \<le> n \<and> n \<le> 70 then Some (n - 55)
      else if 97 \<le> n \<and> n \<le> 102 then Some (n - 87) else None)"

fun query_unescape :: "string \<Rightarrow> string option" where
  "query_unescape [] = Some []"
| "query_unescape (c # s) =
     (if c = CHR ''%'' then
        (case s of
           x # y # r \<Rightarrow> (case (hex_value x, hex_value y) of
               (Some a, Some b) \<Rightarrow> map_option ((#) (char_of (16 * a + b))) (query_unescape r)
             | _ \<Rightarrow> None)
         | _ \<Rightarrow> None)
      else map_option ((#) (if c = CHR ''+'' then CHR '' '' else c)) (query_unescape s))"

text \<open>The characters that end the value of a query parameter.\<close>

definition query_safe :: "char \<Rightarrow> bool" where
  "query_safe c \<longleftrightarrow> c \<notin> {CHR ''&'', CHR ''='', CHR '';'', CHR ''#'', CHR ''?'', CHR '' '', CHR 0x0A}"

lemma hex_value_upper_hex: "d < 16 \<Longrightarrow> hex_value (upper_hex d) = Some d"
  by (auto simp: hex_value_def upper_hex_def)

lemma upper_hex_safe: "d < 16 \<Longrightarrow> query_safe (upper_hex d)"
proof -
  have "list_all (\<lambda>d. query_safe (upper_hex d)) [0..<16]" by code_simp
  then show "d < 16 \<Longrightarrow> query_safe (upper_hex d)" by (auto simp: list_all_iff)
qed

lemma escape_char_cases:
  "escape_char c = [c] \<and> c \<noteq> CHR ''%'' \<and> c \<noteq> CHR ''+'' \<and> query_safe c \<or> escape_char c = ''+'' \<and> c = CHR '' ''
   \<or> escape_char c = [CHR ''%'', upper_hex (of_char c div 16), upper_hex (of_char c mod 16)]"
  by (auto simp: escape_char_def Let_def query_safe_def)

lemma escape_char_safe: "list_all query_safe (escape_char c)"
proof -
  have "(of_char c :: nat) div 16 < 16" by (simp add: less_mult_imp_div_less)
  then show ?thesis
    using escape_char_cases [of c] by (auto simp: upper_hex_safe) (simp_all add: query_safe_def)
qed

lemma unescape_escape_char: "query_unescape (escape_char c @ s) = map_option ((#) c) (query_unescape s)"
proof -
  have "(of_char c :: nat) div 16 < 16" by (simp add: less_mult_imp_div_less)
  then show ?thesis
    using escape_char_cases [of c] by (auto simp: hex_value_upper_hex mult.commute)
qed

lemma unescape_QueryEscape: "query_unescape (QueryEscape s) = Some s"
  by (induction s) (simp_all add: QueryEscape_def unescape_escape_char)

text \<open>
  C38. The URL of a metrics query and that of a probe lookup carry one query parameter, from whose value the server reads back
  exactly the PromQL query and the label selector, whatever characters they hold; no character of the value ends it early.
\<close>

theorem query_urls_roundtrip:
  "(\<exists>v. metrics_url cfg query = rc_MetricsAPIURL cfg @ ''/api/v1/query?query='' @ v
        \<and> query_unescape v = Some query \<and> list_all query_safe v)
   \<and> (\<exists>v. probes_url cfg (''cluster-id='' @ clusterID) = rc_ProbeAPIURL cfg @ ''?label_selector='' @ v
        \<and> query_unescape v = Some (''cluster-id='' @ clusterID) \<and> list_all query_safe v)"
proof -
  have "list_all query_safe (QueryEscape s)" for s
    using escape_char_safe by (induction s) (simp_all add: QueryEscape_def)
  then show ?thesis using unescape_QueryEscape by (auto simp: metrics_url_def probes_url_def)
qed

section \<open>What the checks establish\<close>

definition probes_of_body :: "string \<Rightarrow> RHOBSProbe list option" where
  "probes_of_body body = (case decode_probes body of Some ps \<Rightarrow> Some ps | None \<Rightarrow> decode_wrapped_probes body)"

lemma queryRHOBSProbes_Inr:
  "fst (queryRHOBSProbes env cfg sel w) = Inr ps \<longleftrightarrow>
   (\<exists>token w1 resp w2. getOIDCAccessToken env cfg w = (Inr token, w1) \<and> check_request env ''GET'' (probes_url cfg sel) = None
      \<and> http_Do env (10 * second) (bearer_request (probes_url cfg sel) [(''Authorization'', ''Bearer '' @ token)]) w1 = (Inr resp, w2)
      \<and> hr_StatusCode resp = 200 \<and> hr_ReadError resp = None \<and> probes_of_body (hr_Body resp) = Some ps)"
  by (auto simp: queryRHOBSProbes_def probes_of_body_def Let_def split: sum.splits prod.splits option.splits)

lemma probe_verdict:
  "fst (VerifyRHOBSProbeExists env clusterID expectedPrivate cfg w) = None \<longleftrightarrow>
   (\<exists>p. fst (queryRHOBSProbes env cfg (fmt_Sprintf ''cluster-id=%s'' [FStr clusterID]) w) = Inr [p]
      \<and> field_as as_str (probe_Labels p) ''cluster-id'' = Some clusterID
      \<and> field_as as_str (probe_Labels p) ''private'' = Some (if expectedPrivate then ''true'' else ''false''))"
proof -
  obtain q w1 where q: "queryRHOBSProbes env cfg (fmt_Sprintf ''cluster-id=%s'' [FStr clusterID]) w = (q, w1)" by (metis surj_pair)
  have one: "ps \<noteq> [] \<Longrightarrow> \<not> 1 < length ps \<Longrightarrow> \<exists>p. ps = [p]" for ps :: "RHOBSProbe list"
    by (cases ps; cases "tl ps") auto
  show ?thesis
  proof (cases q)
    case (Inr ps)
    consider "ps = []" | p where "ps = [p]" | "1 < length ps" "ps \<noteq> []" using one [of ps] by blast
    then show ?thesis
      by cases (auto simp: VerifyRHOBSProbeExists_def q Inr Let_def split: option.splits if_splits)
  qed (simp add: VerifyRHOBSProbeExists_def q)
qed

text \<open>
  VerifyRHOBSProbeExists returns nil exactly when a token was obtained, the API answered the lookup of
  \<open>cluster-id=<id>\<close> with status 200 and a list of exactly one probe (plain or wrapped), and the labels of that probe are
  strings: the cluster's id under \<open>cluster-id\<close>, and under \<open>private\<close> the expected flag.
\<close>

theorem rhobs_probe_verdict:
  "fst (VerifyRHOBSProbeExists env clusterID expectedPrivate cfg w) = None \<longleftrightarrow>
   (\<exists>token w1 resp w2 p. let url = probes_url cfg (''cluster-id='' @ clusterID) in
        getOIDCAccessToken env cfg w = (Inr token, w1) \<and> check_request env ''GET'' url = None
      \<and> http_Do env (10 * second) (bearer_request url [(''Authorization'', ''Bearer '' @ token)]) w1 = (Inr resp, w2)
      \<and> hr_StatusCode resp = 200 \<and> hr_ReadError resp = None \<and> probes_of_body (hr_Body resp) = Some [p]
      \<and> field_as as_str (probe_Labels p) ''cluster-id'' = Some clusterID
      \<and> field_as as_str (probe_Labels p) ''private'' = Some (if expectedPrivate then ''true'' else ''false''))"
proof -
  have "fmt_Sprintf ''cluster-id=%s'' [FStr clusterID] = ''cluster-id='' @ clusterID" by (simp add: fmt_Sprintf_def)
  then show ?thesis unfolding probe_verdict queryRHOBSProbes_Inr Let_def by auto
qed

text \<open>A recording rule is evaluating when its query succeeds with at least one result.\<close>

definition rule_evaluates :: "'w rhobs_env \<Rightarrow> RHOBSConfig \<Rightarrow> string \<Rightarrow> string \<Rightarrow> 'w \<Rightarrow> bool" where
  "rule_evaluates env cfg clusterID rule w =
     (case fst (queryRHOBSMetrics env cfg (rule @ ''{_id='' @ dq @ clusterID @ dq @ ''}'') w) of
        Inl _ \<Rightarrow> False
      | Inr m \<Rightarrow> succeeded m \<and> (case field_as as_obj m ''data'' of None \<Rightarrow> False | Some data \<Rightarrow> has_results data))"

lemma metric_queries:
  "metric_query ''sre:hcp:probe_active'' clusterID = ''sre:hcp:probe_active{_id='' @ dq @ clusterID @ dq @ ''}''"
  "metric_query ''sre:hcp:blackbox_probe_active'' clusterID = ''sre:hcp:blackbox_probe_active{_id='' @ dq @ clusterID @ dq @ ''}''"
  by (simp_all add: metric_query_def fmt_Sprintf_def dq_def)

lemma check_rule_None:
  assumes "metric_query rule clusterID = rule @ ''{_id='' @ dq @ clusterID @ dq @ ''}''"
  shows "fst (check_rule env clusterID cfg missing rule w) = None \<longleftrightarrow> rule_evaluates env cfg clusterID rule w"
  using assms by (auto simp: check_rule_def rule_evaluates_def split: sum.splits prod.splits option.splits)

lemma check_rule_world: "snd (check_rule env clusterID cfg missing rule w) = snd (queryRHOBSMetrics env cfg (metric_query rule clusterID) w)"
  by (auto simp: check_rule_def Let_def split: sum.splits prod.splits option.splits)

text \<open>
  VerifyRecordingRules returns nil exactly when the queries of both rules, one after the other, succeed with at least one
  result. The lookup of the underlying probe data, which comes first, has no influence on the verdict, also when it fails.
\<close>

theorem recording_rules_verdict:
  "fst (VerifyRecordingRules env clusterID cfg w) = None \<longleftrightarrow>
   (let w1 = snd (probeSuccessDataExists env clusterID cfg w);
        w2 = snd (queryRHOBSMetrics env cfg (''sre:hcp:probe_active{_id='' @ dq @ clusterID @ dq @ ''}'') w1) in
    rule_evaluates env cfg clusterID ''sre:hcp:probe_active'' w1
    \<and> rule_evaluates env cfg clusterID ''sre:hcp:blackbox_probe_active'' w2)"
proof -
  obtain b e w1 where p: "probeSuccessDataExists env clusterID cfg w = ((b, e), w1)" by (metis surj_pair)
  obtain r w2 where c: "check_rule env clusterID cfg (e = None \<and> \<not> b) ''sre:hcp:probe_active'' w1 = (r, w2)" by (metis surj_pair)
  have "r = None \<longleftrightarrow> rule_evaluates env cfg clusterID ''sre:hcp:probe_active'' w1"
    using check_rule_None [of "''sre:hcp:probe_active''" clusterID env cfg "e = None \<and> \<not> b" w1] by (simp add: c metric_queries)
  moreover have "w2 = snd (queryRHOBSMetrics env cfg (''sre:hcp:probe_active{_id='' @ dq @ clusterID @ dq @ ''}'') w1)"
    using check_rule_world [of env clusterID cfg "e = None \<and> \<not> b" "''sre:hcp:probe_active''" w1] by (simp add: c metric_queries)
  ultimately show ?thesis
    using check_rule_None [of "''sre:hcp:blackbox_probe_active''" clusterID env cfg "e = None \<and> \<not> b" w2]
    by (cases r) (simp_all add: VerifyRecordingRules_def p c Let_def metric_queries)
qed

section \<open>Cardinality verdicts\<close>

lemma vector_values_distinct: "distinct (map fst vals) \<Longrightarrow> distinct (map fst (vector_values l items vals))"
proof (induction items arbitrary: vals)
  case (Cons item items)
  have "distinct (map fst ((a, b) # filter (\<lambda>kv. fst kv \<noteq> a) vals))" for a b
    using Cons.prems by (auto simp: distinct_map_filter)
  then show ?case using Cons by (simp split: option.splits prod.splits del: distinct.simps list.map)
qed simp

lemma delta_pct_no_growth:
  assumes "x \<le> y" and "0 \<le> t"
  shows "delta_pct (Fin x) (Fin y) \<le> Fin t"
proof (cases "0 < y")
  case True
  consider "f_sub (Fin x) (Fin y) = NInf" | z where "z \<le> 0" "f_sub (Fin x) (Fin y) = Fin z"
    using round64_nonpos [of "x - y"] assms(1) by auto
  then show ?thesis
  proof cases
    case 1
    then show ?thesis using True by (simp add: delta_pct_def f64_ops f_gt_def signed_inf_def del: f_sub.simps)
  next
    case (2 z)
    consider "f_div (Fin z) (Fin y) = NInf" | u where "u \<le> 0" "f_div (Fin z) (Fin y) = Fin u"
      using f_div_nonpos [OF True 2(1)] by blast
    then show ?thesis
    proof cases
      case 1
      then show ?thesis using True 2 by (simp add: delta_pct_def f64_ops f_gt_def signed_inf_def del: f_sub.simps f_div.simps)
    next
      case (2 u)
      then show ?thesis
        using f_mul_nonpos [of 100 u] True assms(2) \<open>f_sub (Fin x) (Fin y) = Fin z\<close>
        by (auto simp: delta_pct_def f64_ops f_gt_def simp del: f_sub.simps f_div.simps f_mul.simps)
    qed
  qed
qed (use assms(2) in \<open>simp add: delta_pct_def f64_ops f_gt_def\<close>)

lemma extractVectorValues_distinct: "extractVectorValues m l = Inr vals \<Longrightarrow> distinct (map fst vals)"
  using vector_values_distinct [of "[]"] by (auto simp: extractVectorValues_def split: option.splits)

text \<open>The last readable entry of a vector for each label.\<close>

definition last_entry :: "string \<Rightarrow> json list \<Rightarrow> string \<Rightarrow> f64 option" where
  "last_entry label items = map_of (rev (List.map_filter (vector_entry label) items))"

lemma map_of_filter_key: "map_of (filter (\<lambda>kv. fst kv \<noteq> l) vals) k = (if k = l then None else map_of vals k)"
  by (induction vals) auto

lemma vector_values_last:
  "map_of (vector_values l items vals) k = (case last_entry l items k of None \<Rightarrow> map_of vals k | Some v \<Rightarrow> Some v)"
  unfolding last_entry_def
  by (induction l items vals rule: vector_values.induct)
     (auto simp: List.map_filter_simps map_add_def map_of_filter_key split: option.splits)

lemma extractVectorValues_last:
  assumes "extractVectorValues m l = Inr vals"
  shows "\<exists>data items. field_as as_obj m ''data'' = Some data \<and> field_as as_arr data ''result'' = Some items
    \<and> map_of vals = last_entry l items"
proof -
  have "map_of (vector_values l items []) = last_entry l items" for items
    by (rule ext) (simp add: vector_values_last split: option.split)
  then show ?thesis using assms by (auto simp: extractVectorValues_def split: option.splits)
qed

lemma query_pair_Inr:
  assumes "query_pair env scan_error cfg what q1 q2 w = (Inr (c, b), w')"
  shows "\<exists>m1 w1 m2. queryRHOBSMetrics env cfg q1 w = (Inr m1, w1) \<and> extractScalarValue env scan_error m1 = Inr c
    \<and> queryRHOBSMetrics env cfg q2 w1 = (Inr m2, w') \<and> extractScalarValue env scan_error m2 = Inr b"
  using assms by (auto simp: query_pair_def split: sum.splits prod.splits)

lemma map_of_shuffled:
  assumes "map_range_ok shuffle" and "distinct (map fst vals)"
  shows "map_of (shuffle k vals) = map_of vals" and "distinct (map fst (shuffle k vals))"
proof -
  have m: "mset (shuffle k vals) = mset vals" using assms(1) by (simp add: map_range_ok_def)
  then have "mset (map fst (shuffle k vals)) = mset (map fst vals)" by simp
  then show d: "distinct (map fst (shuffle k vals))" using assms(2) mset_eq_imp_distinct_iff by blast
  show "map_of (shuffle k vals) = map_of vals"
    using map_of_eqI d assms(2) m by (metis map_of_eq_Some_iff map_of_inject_set mset_eq_setD)
qed

lemma cardinality_results:
  assumes "VerifyCardinalityThreshold env scan_error shuffle cfg maxDelta maxSeries w = (Inr results, w')"
  obtains c b crw brw vals w1 w2 m where
    "query_pair env scan_error cfg ''TSDB head series'' (head_series_query []) (head_series_query '' offset 2h'') w = (Inr (c, b), w1)"
    "query_pair env scan_error cfg ''remote-write rate'' (remote_write_query []) (remote_write_query '' offset 2h'') w1 = (Inr (crw, brw), w2)"
    "queryRHOBSMetrics env cfg (''topk(10, count by (__name__) ({source='' @ dq @ ''MC'' @ dq @ ''}))'') w2 = (Inr m, w')"
    "extractVectorValues m ''__name__'' = Inr vals"
    "results = delta_result ''prometheus_tsdb_head_series'' c b maxDelta
       # delta_result ''prometheus_remote_storage_samples_total (rate)'' crw brw maxDelta
       # map (series_result maxSeries) (shuffle 0 vals)"
  using assms unfolding VerifyCardinalityThreshold_def by (fastforce split: sum.splits prod.splits)

text \<open>
  C31. The report of VerifyCardinalityThreshold, when there is one, comes from five queries made one after the other: the
  head series now and two hours ago, the remote-write rate now and two hours ago, and the series of each metric. The first
  two entries are the head series and the remote-write rate with the values of those queries; they pass
  exactly when the growth is at most the limit. The entries after them are exactly the metrics of the last answer, each
  once, with the value of its last readable entry; they pass exactly when that value is at most the other limit. With a
  growth limit that is not negative, a finite value that did not grow passes in spite of rounding; and so does every value
  whose baseline is zero, negative or not a number.
\<close>

theorem cardinality_report:
  assumes "map_range_ok shuffle" and "VerifyCardinalityThreshold env scan_error shuffle cfg maxDelta maxSeries w = (Inr results, w')"
  shows "\<exists>m1 m2 m3 m4 m5 w1 w2 w3 w4 c b crw brw data items.
     queryRHOBSMetrics env cfg (head_series_query []) w = (Inr m1, w1)
   \<and> queryRHOBSMetrics env cfg (head_series_query '' offset 2h'') w1 = (Inr m2, w2)
   \<and> queryRHOBSMetrics env cfg (remote_write_query []) w2 = (Inr m3, w3)
   \<and> queryRHOBSMetrics env cfg (remote_write_query '' offset 2h'') w3 = (Inr m4, w4)
   \<and> queryRHOBSMetrics env cfg (''topk(10, count by (__name__) ({source='' @ dq @ ''MC'' @ dq @ ''}))'') w4 = (Inr m5, w')
   \<and> map (extractScalarValue env scan_error) [m1, m2, m3, m4] = map Inr [c, b, crw, brw]
   \<and> field_as as_obj m5 ''data'' = Some data \<and> field_as as_arr data ''result'' = Some items
   \<and> map (\<lambda>r. (cr_MetricName r, cr_Current r, cr_Baseline r)) (take 2 results) =
       [(''prometheus_tsdb_head_series'', c, b), (''prometheus_remote_storage_samples_total (rate)'', crw, brw)]
   \<and> list_all (\<lambda>r. cr_DeltaPct r = delta_pct (cr_Current r) (cr_Baseline r) \<and> cr_Passed r = (cr_DeltaPct r \<le> maxDelta)) (take 2 results)
   \<and> distinct (map cr_MetricName (drop 2 results))
   \<and> map_of (map (\<lambda>r. (cr_MetricName r, cr_Current r)) (drop 2 results)) = last_entry ''__name__'' items
   \<and> list_all (\<lambda>r. cr_Passed r = (cr_Current r \<le> maxSeries)) (drop 2 results)
   \<and> (\<forall>t r. maxDelta = Fin t \<longrightarrow> 0 \<le> t \<longrightarrow> r \<in> set (take 2 results) \<longrightarrow>
        \<not> cr_Baseline r > 0 \<or> (\<exists>x y. cr_Current r = Fin x \<and> cr_Baseline r = Fin y \<and> x \<le> y) \<longrightarrow> cr_Passed r)"
proof (rule cardinality_results [OF assms(2)])
  fix c b crw brw vals w2 w4 m5
  assume q: "query_pair env scan_error cfg ''TSDB head series'' (head_series_query []) (head_series_query '' offset 2h'') w = (Inr (c, b), w2)"
      "query_pair env scan_error cfg ''remote-write rate'' (remote_write_query []) (remote_write_query '' offset 2h'') w2 = (Inr (crw, brw), w4)"
      "queryRHOBSMetrics env cfg (''topk(10, count by (__name__) ({source='' @ dq @ ''MC'' @ dq @ ''}))'') w4 = (Inr m5, w')"
    and v: "extractVectorValues m5 ''__name__'' = Inr vals"
    and r: "results = delta_result ''prometheus_tsdb_head_series'' c b maxDelta
       # delta_result ''prometheus_remote_storage_samples_total (rate)'' crw brw maxDelta
       # map (series_result maxSeries) (shuffle 0 vals)"
  obtain m1 w1 m2 where 1: "queryRHOBSMetrics env cfg (head_series_query []) w = (Inr m1, w1)"
      "extractScalarValue env scan_error m1 = Inr c"
      "queryRHOBSMetrics env cfg (head_series_query '' offset 2h'') w1 = (Inr m2, w2)" "extractScalarValue env scan_error m2 = Inr b"
    using query_pair_Inr [OF q(1)] by blast
  obtain m3 w3 m4 where 2: "queryRHOBSMetrics env cfg (remote_write_query []) w2 = (Inr m3, w3)"
      "extractScalarValue env scan_error m3 = Inr crw"
      "queryRHOBSMetrics env cfg (remote_write_query '' offset 2h'') w3 = (Inr m4, w4)" "extractScalarValue env scan_error m4 = Inr brw"
    using query_pair_Inr [OF q(2)] by blast
  obtain data items where 3: "field_as as_obj m5 ''data'' = Some data" "field_as as_arr data ''result'' = Some items"
      "map_of vals = last_entry ''__name__'' items"
    using extractVectorValues_last [OF v] by blast
  note s = map_of_shuffled [OF assms(1) extractVectorValues_distinct [OF v], of 0]
  have f: "cr_MetricName \<circ> series_result maxSeries = fst"
    "(\<lambda>r. (cr_MetricName r, cr_Current r)) \<circ> series_result maxSeries = (\<lambda>kv. kv)"
    by (auto simp: series_result_def)
  have passes: "\<lbrakk>maxDelta = Fin t; 0 \<le> t;
      \<not> base > 0 \<or> (\<exists>x y. cur = Fin x \<and> base = Fin y \<and> x \<le> y)\<rbrakk> \<Longrightarrow> delta_pct cur base \<le> maxDelta" for t cur base
    by (cases "base > 0") (use delta_pct_no_growth in blast, simp add: delta_pct_def f64_ops)
  have shape: "take 2 results = [delta_result ''prometheus_tsdb_head_series'' c b maxDelta,
       delta_result ''prometheus_remote_storage_samples_total (rate)'' crw brw maxDelta]"
      "drop 2 results = map (series_result maxSeries) (shuffle 0 vals)"
    unfolding r by (simp_all add: eval_nat_numeral)
  have tail: "distinct (map cr_MetricName (drop 2 results))"
      "map_of (map (\<lambda>r. (cr_MetricName r, cr_Current r)) (drop 2 results)) = last_entry ''__name__'' items"
      "list_all (\<lambda>r. cr_Passed r = (cr_Current r \<le> maxSeries)) (drop 2 results)"
    unfolding shape using s 3(3) by (simp_all add: f list_all_iff series_result_def)
  have no_growth: "\<forall>t r. maxDelta = Fin t \<longrightarrow> 0 \<le> t \<longrightarrow> r \<in> set (take 2 results) \<longrightarrow>
        \<not> cr_Baseline r > 0 \<or> (\<exists>x y. cr_Current r = Fin x \<and> cr_Baseline r = Fin y \<and> x \<le> y) \<longrightarrow> cr_Passed r"
    unfolding shape using passes by (auto simp: delta_result_def)
  have heads: "map (\<lambda>r. (cr_MetricName r, cr_Current r, cr_Baseline r)) (take 2 results) =
       [(''prometheus_tsdb_head_series'', c, b), (''prometheus_remote_storage_samples_total (rate)'', crw, brw)]"
      "list_all (\<lambda>r. cr_DeltaPct r = delta_pct (cr_Current r) (cr_Baseline r) \<and> cr_Passed r = (cr_DeltaPct r \<le> maxDelta)) (take 2 results)"
    unfolding shape by (simp_all add: delta_result_def)
  have scalars: "map (extractScalarValue env scan_error) [m1, m2, m3, m4] = map Inr [c, b, crw, brw]" using 1 2 by simp
  show ?thesis
    by (intro exI conjI) (rule 1 2 3 q(3) scalars heads tail no_growth)+
qed

section \<open>The error of the reported growth\<close>

text \<open>
  The growth of a count in percent, without rounding; a metric that counts series is an integer, and counts of less than
  \<open>2 ^ 53\<close> are exact in a float64.
\<close>

definition growth :: "int \<Rightarrow> int \<Rightarrow> rat" where
  "growth c b = 100 * of_int (c - b) / of_int b"

lemma rat_abs_of_int_le: "\<bar>i\<bar> \<le> j \<Longrightarrow> \<bar>of_int i :: rat\<bar> \<le> of_int j"
  by linarith

lemma growth_ratio:
  assumes "0 \<le> c" "c < 2 ^ 53" "0 < b" "b < 2 ^ 53"
  defines "x \<equiv> of_int (c - b) / of_int b :: rat"
  shows "x = 0 \<or> 1 / 2 ^ 53 \<le> \<bar>x\<bar>" and "\<bar>x\<bar> \<le> 2 ^ 53"
proof -
  have b: "1 \<le> (of_int b :: rat)" "(of_int b :: rat) \<le> 2 ^ 53"
    using assms(3,4) of_int_le_iff [of b "2 ^ 53", where ?'a = rat] by simp_all
  have a: "\<bar>x\<bar> = \<bar>of_int (c - b)\<bar> / of_int b" using b(1) by (simp add: x_def abs_divide)
  have "\<bar>c - b\<bar> \<le> 2 ^ 53" using assms(1-4) by linarith
  then have "\<bar>of_int (c - b) :: rat\<bar> \<le> of_int (2 ^ 53)" by (rule rat_abs_of_int_le)
  then have "\<bar>of_int (c - b) :: rat\<bar> \<le> 2 ^ 53 * of_int b" using b(1) mult_left_mono [OF b(1), of "2 ^ 53"] by simp
  then show "\<bar>x\<bar> \<le> 2 ^ 53" unfolding a using b(1) by (simp add: divide_le_eq)
  show "x = 0 \<or> 1 / 2 ^ 53 \<le> \<bar>x\<bar>"
  proof (cases "c = b")
    case False
    then have "1 \<le> \<bar>of_int (c - b) :: rat\<bar>" by linarith
    then have "of_int b \<le> 2 ^ 53 * \<bar>of_int (c - b) :: rat\<bar>"
      using b(2) mult_left_mono [of 1 "\<bar>of_int (c - b) :: rat\<bar>" "2 ^ 53"] by simp
    then show ?thesis unfolding a using b(1) by (simp add: le_divide_eq)
  qed (simp add: x_def)
qed

lemma delta_pct_close:
  assumes "0 \<le> c" "c < 2 ^ 53" "0 < b" "b < 2 ^ 53"
  shows "\<exists>d. delta_pct (Fin (of_int c)) (Fin (of_int b)) = Fin d \<and> \<bar>d - growth c b\<bar> \<le> \<bar>growth c b\<bar> / 2 ^ 51"
proof -
  define x where "x = (of_int (c - b) / of_int b :: rat)"
  have g: "growth c b = x * 100" by (simp add: growth_def x_def)
  note x = growth_ratio [OF assms, folded x_def]
  have sub: "round64 (of_int c - of_int b) = Fin (of_int (c - b))" using round64_int [of "c - b"] assms by simp
  have "x = 0 \<or> 1 / 2 ^ 100 \<le> \<bar>x\<bar>" "\<bar>x\<bar> \<le> 2 ^ 100" using x by auto
  then obtain y where y: "round64 x = Fin y" "\<bar>y - x\<bar> \<le> \<bar>x\<bar> / 2 ^ 53" "\<bar>x\<bar> / 2 \<le> \<bar>y\<bar>" "\<bar>y\<bar> \<le> 2 * \<bar>x\<bar>"
    by (rule round64_normal)
  have "y * 100 = 0 \<or> 1 / 2 ^ 100 \<le> \<bar>y * 100\<bar>" "\<bar>y * 100\<bar> \<le> 2 ^ 100" using x y(3,4) by (auto simp: abs_mult)
  then obtain d where d: "round64 (y * 100) = Fin d" "\<bar>d - y * 100\<bar> \<le> \<bar>y * 100\<bar> / 2 ^ 53" by (rule round64_normal)
  have "delta_pct (Fin (of_int c)) (Fin (of_int b)) = Fin d"
    using assms(3) sub y(1) d(1) by (simp add: delta_pct_def f64_ops f_gt_def x_def)
  moreover have "\<bar>d - x * 100\<bar> \<le> \<bar>x * 100\<bar> / 2 ^ 51"
  proof -
    have "\<bar>d - x * 100\<bar> \<le> \<bar>d - y * 100\<bar> + 100 * \<bar>y - x\<bar>" by (simp add: abs_if)
    also have "\<dots> \<le> 300 * \<bar>x\<bar> / 2 ^ 53" using d(2) y(2,4) by (simp add: abs_mult)
    also have "\<dots> \<le> \<bar>x * 100\<bar> / 2 ^ 51" by (simp add: abs_mult)
    finally show ?thesis .
  qed
  ultimately show ?thesis by (auto simp: g)
qed

lemma delta_result_verdict:
  fixes t :: rat and name :: string
  assumes "0 \<le> c" "c < 2 ^ 53" "0 < b" "b < 2 ^ 53"
  defines "g \<equiv> growth c b" and "r \<equiv> delta_result name (Fin (of_int c)) (Fin (of_int b)) (Fin t)"
  shows "(\<exists>d. cr_DeltaPct r = Fin d \<and> \<bar>d - g\<bar> \<le> \<bar>g\<bar> / 2 ^ 51)
    \<and> (g + \<bar>g\<bar> / 2 ^ 51 \<le> t \<longrightarrow> cr_Passed r) \<and> (t < g - \<bar>g\<bar> / 2 ^ 51 \<longrightarrow> \<not> cr_Passed r)"
proof -
  obtain d where d: "delta_pct (Fin (of_int c)) (Fin (of_int b)) = Fin d" "\<bar>d - g\<bar> \<le> \<bar>g\<bar> / 2 ^ 51"
    using delta_pct_close [OF assms(1-4)] unfolding g_def by blast
  have "d \<le> g + \<bar>g\<bar> / 2 ^ 51" "g - \<bar>g\<bar> / 2 ^ 51 \<le> d" using d(2) by linarith+
  then show ?thesis using d by (auto simp: r_def delta_result_def f64_ops)
qed

text \<open>
  C32. The growth that VerifyCardinalityThreshold reports for a count is right to within one part in \<open>2 ^ 51\<close> of the true
  percentage, although it subtracts, divides and multiplies in float64, and so is its verdict: a growth below the limit by
  more than that passes and one above it by more than that fails. The counts of the two moments are the integers that the
  report carries, of less than \<open>2 ^ 53\<close>, the second above zero.
\<close>

theorem cardinality_growth_accurate:
  assumes "VerifyCardinalityThreshold env scan_error shuffle cfg (Fin t) maxSeries w = (Inr results, w')"
    and "r \<in> set (take 2 results)" and "cr_Current r = Fin (of_int c)" and "cr_Baseline r = Fin (of_int b)"
    and "0 \<le> c" and "c < 2 ^ 53" and "0 < b" and "b < 2 ^ 53"
  shows "(\<exists>d. cr_DeltaPct r = Fin d \<and> \<bar>d - growth c b\<bar> \<le> \<bar>growth c b\<bar> / 2 ^ 51)
    \<and> (growth c b + \<bar>growth c b\<bar> / 2 ^ 51 \<le> t \<longrightarrow> cr_Passed r)
    \<and> (t < growth c b - \<bar>growth c b\<bar> / 2 ^ 51 \<longrightarrow> \<not> cr_Passed r)"
proof -
  obtain cur base crw brw per where "results = delta_result ''prometheus_tsdb_head_series'' cur base (Fin t)
       # delta_result ''prometheus_remote_storage_samples_total (rate)'' crw brw (Fin t)
       # map (series_result maxSeries) (shuffle 0 per)"
    using cardinality_results [OF assms(1)] by metis
  then obtain name x y where "r = delta_result name x y (Fin t)" using assms(2) by (auto simp: eval_nat_numeral)
  then have "r = delta_result name (Fin (of_int c)) (Fin (of_int b)) (Fin t)" using assms(3,4) by (auto simp: delta_result_def)
  then show ?thesis using delta_result_verdict [OF assms(5-8)] by blast
qed

text \<open>The concrete run: every query is answered by one vector, whose value is 5, or 4 when it asks for the baseline.\<close>

definition sample_vector :: "string \<Rightarrow> string" where
  "sample_vector v = ''{'' @ quote ''status'' @ '':'' @ quote ''success'' @ '','' @ quote ''data'' @ '':{'' @ quote ''result'' @ '':[{''
     @ quote ''metric'' @ '':{'' @ quote ''__name__'' @ '':'' @ quote ''up'' @ ''},''
     @ quote ''value'' @ '':[1,'' @ quote v @ '']}]}}''"

definition sample_rhobs :: "nat rhobs_env" where
  "sample_rhobs = \<lparr>check_request = (\<lambda>m u. None),
     http_Do = (\<lambda>t rq w. (Inr \<lparr>hr_StatusCode = 200, hr_Status = ''200 OK'',
        hr_Body = sample_vector (if odd w then ''4'' else ''5''), hr_ReadError = None\<rparr>, Suc w)),
     decode_error = (\<lambda>s. Errorf s []), Sleep = (\<lambda>d w. w), show_value = (\<lambda>v. [])\<rparr>"

definition sample_metrics :: RHOBSConfig where
  "sample_metrics = \<lparr>rc_ProbeAPIURL = [], rc_MetricsAPIURL = ''http://m'', rc_OIDCClientID = [], rc_OIDCClientSecret = [],
     rc_OIDCIssuerURL = []\<rparr>"

definition sample_object :: "string \<Rightarrow> json_object" where
  "sample_object v =
     [(''data'', JObj [(''result'', JArr [JObj [(''value'', JArr [JFloat ''1'', JStr v]), (''metric'', JObj [(''__name__'', JStr ''up'')])]])]),
      (''status'', JStr ''success'')]"

lemma sample_vector_decoded:
  "decode_result (sample_vector ''5'') = Some (sample_object ''5'')" "decode_result (sample_vector ''4'') = Some (sample_object ''4'')"
  by code_simp+

lemma scan_five: "scan_float ''5'' = Some (Fin 5)"
  by code_simp

lemma scan_four: "scan_float ''4'' = Some (Fin 4)"
  by code_simp

definition sample_report :: "CardinalityResult list" where
  "sample_report = [delta_result ''prometheus_tsdb_head_series'' (Fin 5) (Fin 4) (Fin 10),
     delta_result ''prometheus_remote_storage_samples_total (rate)'' (Fin 5) (Fin 4) (Fin 10), series_result (Fin 4) (''up'', Fin 5)]"

lemma sample_report_run:
  "VerifyCardinalityThreshold sample_rhobs (\<lambda>s. Errorf s []) (\<lambda>k xs. xs) sample_metrics (Fin 10) (Fin 4) 0 = (Inr sample_report, 5)"
proof -
  have v: "extractScalarValue sample_rhobs (\<lambda>s. Errorf s []) (sample_object ''5'') = Inr (Fin 5)"
    "extractScalarValue sample_rhobs (\<lambda>s. Errorf s []) (sample_object ''4'') = Inr (Fin 4)"
    "extractVectorValues (sample_object ''5'') ''__name__'' = Inr [(''up'', Fin 5)]"
    by (auto simp: sample_object_def extractScalarValue_def extractVectorValues_def field_as_def scan_five scan_four vector_entry_def
        str_or_empty_def)
  have q: "queryRHOBSMetrics sample_rhobs sample_metrics query w = (Inr (sample_object (if odd w then ''4'' else ''5'')), Suc w)" for query w
    by (simp add: queryRHOBSMetrics_def metrics_headers_def sample_metrics_def sample_rhobs_def sample_vector_decoded)
  show ?thesis by (simp add: VerifyCardinalityThreshold_def query_pair_def q v sample_report_def)
qed

lemmas sample_report_simps = sample_report_def delta_result_def series_result_def eval_nat_numeral

theorem cardinality_report_witness:
  "\<exists>r1 r2 r3. VerifyCardinalityThreshold sample_rhobs (\<lambda>s. Errorf s []) (\<lambda>k xs. xs) sample_metrics (Fin 10) (Fin 4) 0 = (Inr [r1, r2, r3], 5)
   \<and> cr_Passed r1 = (cr_DeltaPct r1 \<le> Fin 10) \<and> cr_MetricName r3 = ''up'' \<and> \<not> cr_Passed r3"
  using cardinality_report [OF _ sample_report_run] sample_report_run
  by (simp add: map_range_ok_def sample_report_simps f64_ops)

text \<open>Grown by a quarter, with a limit of ten percent.\<close>

theorem cardinality_growth_accurate_witness:
  "\<exists>r \<in> set sample_report. cr_Current r = Fin 5 \<and> cr_Baseline r = Fin 4 \<and> growth 5 4 = 25 \<and> \<not> cr_Passed r"
  using cardinality_growth_accurate [OF sample_report_run, of "hd sample_report" 5 4]
  by (simp add: sample_report_simps growth_def)

end
