(* ===== verification/Lifecycle.thy ===== *)
theory Lifecycle
  imports Ocm_Lifecycle Node_Verifiers Test_Context
begin

text \<open>
  test/e2e/cluster\_lifecycle\_test.go, the specs that create, verify and delete a cluster: \<open>ROSA HCP Cluster Lifecycle: Full\<close>
  and \<open>ROSA Classic Cluster Lifecycle: Full\<close>. They are the protocol that composes OCM, the clients, RunVerifiers and
  the verifiers. A spec is a step relation with one phase for each call that may fail; in the phase of RunVerifiers the
  steps are those of \<open>Verifier_Runner\<close>. A failed expectation ends the spec in Ginkgo, after the cleanup that was
  deferred; the outcome names the By text of the expectation. What differs between the two specs is a \<open>flavour\<close>.
  \<open>ls_events\<close> records the creations and deletions; no step reads it.
\<close>

section \<open>The specs\<close>

record 'w flavour =
  fl_create :: "Config \<Rightarrow> 'w run \<Rightarrow> (go_error + string) \<times> Config \<times> 'w run"
  fl_timeout :: int
  fl_creating :: string
  fl_waiting :: string
  fl_announce :: string

definition hcp_flavour :: "'w ocm_runtime \<Rightarrow> 'w ocm_connection \<Rightarrow> 'w flavour" where
  "hcp_flavour rt conn = \<lparr>fl_create = CreateRosaHCPCluster rt conn, fl_timeout = 45 * minute,
     fl_creating = ''Creating a ROSA HCP cluster'', fl_waiting = ''Waiting for cluster to be ready (up to 45 minutes)'',
     fl_announce = ''Created cluster: %s'' @ nl\<rparr>"

definition classic_flavour :: "'w ocm_runtime \<Rightarrow> 'w ocm_connection \<Rightarrow> 'w flavour" where
  "classic_flavour rt conn = \<lparr>fl_create = (\<lambda>cfg s. case CreateRosaClassicCluster rt conn cfg s of (r, s') \<Rightarrow> (r, cfg, s')),
     fl_timeout = 60 * minute,
     fl_creating = ''Creating a ROSA Classic STS cluster'', fl_waiting = ''Waiting for cluster to be ready (up to 60 minutes)'',
     fl_announce = ''Created Classic cluster: %s'' @ nl\<rparr>"

datatype spec_outcome = Skipped string | Passed | Failed string go_error

datatype 'w phase =
    AtStart
  | AtWaitReady string
  | AtReady string
  | AtConnect string
  | AtVerify string "'w kube_client" "('w kube_client, 'w) runner_state"
  | AtDelete string
  | AtGone string
  | AtCleanup string spec_outcome
  | Ended spec_outcome

datatype cluster_event = Created string | DeletionAsked string bool \<comment> \<open>accepted?\<close>

record 'w lifecycle =
  ls_phase :: "'w phase"
  ls_cfg :: Config
  ls_run :: "'w run"
  ls_events :: "cluster_event list"

definition lifecycle_start :: "Config \<Rightarrow> 'w run \<Rightarrow> 'w lifecycle" where
  "lifecycle_start cfg r = \<lparr>ls_phase = AtStart, ls_cfg = cfg, ls_run = r, ls_events = []\<rparr>"

text \<open>The client of the new cluster: its credentials and a clientset.\<close>

definition connect_client ::
  "('r, 'w kube_client, 'a, 'w) context_env \<Rightarrow> string \<Rightarrow> 'w \<Rightarrow> (go_error + 'w kube_client) \<times> 'w" where
  "connect_client env clusterID w =
     (case GetClusterCredentials (RESTConfigFromKubeConfig env) (ocm env) clusterID w of
        (Inl err, w') \<Rightarrow> (Inl err, w')
      | (Inr kubeConfig, w') \<Rightarrow> (NewKubeClient env kubeConfig, w'))"

definition lifecycle_verifiers :: "Config \<Rightarrow> ('w kube_client, 'w) cluster_verifier list" where
  "lifecycle_verifiers cfg = [VerifyAllNodesReady, VerifyNodeCount (ComputeNodes cfg)]"

text \<open>What an expectation leads to: the next phase, or the cleanup and a failed spec.\<close>

definition expect :: "string \<Rightarrow> string \<Rightarrow> go_error option \<Rightarrow> 'w phase \<Rightarrow> 'w phase" where
  "expect clusterID step e next = (case e of None \<Rightarrow> next | Some err \<Rightarrow> AtCleanup clusterID (Failed step err))"

definition clean_up :: "'w ocm_connection \<Rightarrow> string \<Rightarrow> 'w run \<Rightarrow> bool \<times> 'w run" where
  "clean_up conn clusterID s =
     (case DeleteCluster conn clusterID s of
        (Some err, s') \<Rightarrow> (False, Printf (''Warning: failed to delete cluster %s during cleanup: %v'' @ nl) [FStr clusterID, FErr err] s')
      | (None, s') \<Rightarrow> (True, s'))"

inductive spec_step ::
  "('r, 'w kube_client, 'a, 'w) context_env \<Rightarrow> 'w ocm_runtime \<Rightarrow> 'w flavour \<Rightarrow> 'w lifecycle \<Rightarrow> 'w lifecycle \<Rightarrow> bool"
  for env rt fl where
  skip: "ls_phase s = AtStart \<Longrightarrow> ClusterID (ls_cfg s) \<noteq> [] \<Longrightarrow>
    spec_step env rt fl s
      (s\<lparr>ls_phase := Ended (Skipped ''CLUSTER_ID is set, skipping full lifecycle test (use existing cluster tests instead)'')\<rparr>)"
| create_fails: "ls_phase s = AtStart \<Longrightarrow> ClusterID (ls_cfg s) = [] \<Longrightarrow>
    fl_create fl (ls_cfg s) (ls_run s) = (Inl err, cfg', r') \<Longrightarrow>
    spec_step env rt fl s (s\<lparr>ls_phase := Ended (Failed (fl_creating fl) err), ls_cfg := cfg', ls_run := r'\<rparr>)"
| create: "ls_phase s = AtStart \<Longrightarrow> ClusterID (ls_cfg s) = [] \<Longrightarrow>
    fl_create fl (ls_cfg s) (ls_run s) = (Inr clusterID, cfg', r') \<Longrightarrow>
    spec_step env rt fl s (s\<lparr>ls_phase := AtWaitReady clusterID, ls_cfg := cfg',
      ls_run := Printf (fl_announce fl) [FStr clusterID] r', ls_events := ls_events s @ [Created clusterID]\<rparr>)"
| wait: "ls_phase s = AtWaitReady clusterID \<Longrightarrow>
    WaitForClusterReady rt (ocm env) clusterID (fl_timeout fl) (ls_run s) = Some (e, r') \<Longrightarrow>
    spec_step env rt fl s (s\<lparr>ls_phase := expect clusterID (fl_waiting fl) e (AtReady clusterID), ls_run := r'\<rparr>)"
| ready: "ls_phase s = AtReady clusterID \<Longrightarrow>
    on_world (VerifyClusterReady (ocm env) clusterID) (ls_run s) = (e, r') \<Longrightarrow>
    spec_step env rt fl s
      (s\<lparr>ls_phase := expect clusterID ''Verifying cluster is ready in OCM'' e (AtConnect clusterID), ls_run := r'\<rparr>)"
| connect_fails: "ls_phase s = AtConnect clusterID \<Longrightarrow>
    on_world (connect_client env clusterID) (ls_run s) = (Inl err, r') \<Longrightarrow>
    spec_step env rt fl s
      (s\<lparr>ls_phase := AtCleanup clusterID (Failed ''Verifying cluster health via Kubernetes API'' err), ls_run := r'\<rparr>)"
| connect: "ls_phase s = AtConnect clusterID \<Longrightarrow>
    on_world (connect_client env clusterID) (ls_run s) = (Inr client, r') \<Longrightarrow>
    spec_step env rt fl s (s\<lparr>ls_phase := AtVerify clusterID client (runner_init (lifecycle_verifiers (ls_cfg s)) (run_world r')),
      ls_run := r'\<rparr>)"
| verify: "ls_phase s = AtVerify clusterID client rs \<Longrightarrow> runner_step client rs rs' \<Longrightarrow>
    spec_step env rt fl s (s\<lparr>ls_phase := AtVerify clusterID client rs'\<rparr>)"
| world_moves: "ls_phase s = AtVerify clusterID client rs \<Longrightarrow> env_step rs rs' \<Longrightarrow>
    spec_step env rt fl s (s\<lparr>ls_phase := AtVerify clusterID client rs'\<rparr>)"
| verified: "ls_phase s = AtVerify clusterID client rs \<Longrightarrow> rs_pc rs = Returned e \<Longrightarrow>
    spec_step env rt fl s (s\<lparr>ls_phase := expect clusterID ''Verifying cluster health via Kubernetes API'' e (AtDelete clusterID),
      ls_run := (ls_run s)\<lparr>run_world := rs_world rs\<rparr>\<rparr>)"
| delete: "ls_phase s = AtDelete clusterID \<Longrightarrow> DeleteCluster (ocm env) clusterID (ls_run s) = (e, r') \<Longrightarrow>
    spec_step env rt fl s (s\<lparr>ls_phase := expect clusterID ''Deleting the cluster'' e (AtGone clusterID), ls_run := r',
      ls_events := ls_events s @ [DeletionAsked clusterID (e = None)]\<rparr>)"
| gone: "ls_phase s = AtGone clusterID \<Longrightarrow>
    on_world (VerifyClusterDeleting (ocm env) clusterID) (ls_run s) = (e, r') \<Longrightarrow>
    spec_step env rt fl s
      (s\<lparr>ls_phase := expect clusterID ''Verifying cluster is uninstalling'' e (AtCleanup clusterID Passed), ls_run := r'\<rparr>)"
| cleanup: "ls_phase s = AtCleanup clusterID outcome \<Longrightarrow> clean_up (ocm env) clusterID (ls_run s) = (ok, r') \<Longrightarrow>
    spec_step env rt fl s (s\<lparr>ls_phase := Ended outcome, ls_run := r',
      ls_events := ls_events s @ [DeletionAsked clusterID ok]\<rparr>)"

section \<open>Visiting states in order\<close>

text \<open>A run that passes states with the given properties, in this order.\<close>

fun visits :: "('s \<Rightarrow> 's \<Rightarrow> bool) \<Rightarrow> ('s \<Rightarrow> bool) list \<Rightarrow> 's \<Rightarrow> 's \<Rightarrow> bool" where
  "visits step [] s t \<longleftrightarrow> step\<^sup>*\<^sup>* s t"
| "visits step (P # Ps) s t \<longleftrightarrow> (\<exists>a. step\<^sup>*\<^sup>* s a \<and> P a \<and> visits step Ps a t)"

lemma visits_then: "visits step Ps s t \<Longrightarrow> step t u \<Longrightarrow> visits step Ps s u"
  by (induction Ps arbitrary: s) (auto intro: rtranclp.rtrancl_into_rtrancl)

lemma visits_here: "visits step Ps s t \<Longrightarrow> P t \<Longrightarrow> visits step (Ps @ [P]) s t"
  by (induction Ps arbitrary: s) auto

lemma visits_more: "visits step Ps s t \<Longrightarrow> P t \<Longrightarrow> step t u \<Longrightarrow> visits step (Ps @ [P]) s u"
  by (rule visits_then [OF visits_here])

section \<open>The invariant\<close>

text \<open>
  The five moments of a spec: OCM reports the cluster ready, a client is built from its credentials, the verifiers have
  passed with that client, the deletion is accepted, and OCM reports the cluster uninstalling. Each is a property of a state of the
  run, in the world of that state.
\<close>

definition reports_state :: "'w ocm_connection \<Rightarrow> string \<Rightarrow> string \<Rightarrow> 'w \<Rightarrow> bool" where
  "reports_state conn clusterID st w \<longleftrightarrow> (\<exists>c w'. cluster_Get conn clusterID w = (Inr c, w') \<and> oc_State c = st)"

definition ready_at :: "'w ocm_connection \<Rightarrow> string \<Rightarrow> 'w lifecycle \<Rightarrow> bool" where
  "ready_at conn i s \<longleftrightarrow> ls_phase s = AtReady i \<and> reports_state conn i ''ready'' (run_world (ls_run s))"

definition connected_at :: "('r, 'w kube_client, 'a, 'w) context_env \<Rightarrow> string \<Rightarrow> 'w kube_client \<Rightarrow> 'w lifecycle \<Rightarrow> bool" where
  "connected_at env i client s \<longleftrightarrow> ls_phase s = AtConnect i \<and> (\<exists>w'. connect_client env i (run_world (ls_run s)) = (Inr client, w'))"

definition healthy_at :: "string \<Rightarrow> 'w kube_client \<Rightarrow> int \<Rightarrow> 'w lifecycle \<Rightarrow> bool" where
  "healthy_at i client workers s \<longleftrightarrow> (\<exists>rs. ls_phase s = AtVerify i client rs \<and> rs_pc rs = Returned None
     \<and> (\<exists>u. (VerifyAllNodesReady, u, None) \<in> set (rs_calls rs) \<and> nodes_all_ready client u)
     \<and> (\<exists>u. (VerifyNodeCount workers, u, None) \<in> set (rs_calls rs) \<and> worker_count_is workers client u))"

definition deletion_at :: "'w ocm_connection \<Rightarrow> string \<Rightarrow> 'w lifecycle \<Rightarrow> bool" where
  "deletion_at conn i s \<longleftrightarrow> ls_phase s = AtDelete i \<and> (\<exists>w'. cluster_Delete conn i (run_world (ls_run s)) = (None, w'))"

definition uninstalling_at :: "'w ocm_connection \<Rightarrow> string \<Rightarrow> 'w lifecycle \<Rightarrow> bool" where
  "uninstalling_at conn i s \<longleftrightarrow> ls_phase s = AtGone i \<and> reports_state conn i ''uninstalling'' (run_world (ls_run s))"

definition milestones ::
  "('r, 'w kube_client, 'a, 'w) context_env \<Rightarrow> string \<Rightarrow> 'w kube_client \<Rightarrow> int \<Rightarrow> ('w lifecycle \<Rightarrow> bool) list" where
  "milestones env i client workers =
     [ready_at (ocm env) i, connected_at env i client, healthy_at i client workers, deletion_at (ocm env) i, uninstalling_at (ocm env) i]"

text \<open>
  What a spec that began in \<open>s0\<close> has established in each phase: how the cluster came about, the events, and the first
  \<open>n\<close> milestones.
\<close>

definition created_by :: "'w flavour \<Rightarrow> 'w lifecycle \<Rightarrow> string \<Rightarrow> Config \<Rightarrow> bool" where
  "created_by fl s0 i cfg' \<longleftrightarrow> (\<exists>r'. fl_create fl (ls_cfg s0) (ls_run s0) = (Inr i, cfg', r'))"

definition nothing_created :: "'w flavour \<Rightarrow> 'w lifecycle \<Rightarrow> spec_outcome \<Rightarrow> bool" where
  "nothing_created fl s0 out \<longleftrightarrow> ClusterID (ls_cfg s0) \<noteq> [] \<and> (\<exists>t. out = Skipped t)
     \<or> ClusterID (ls_cfg s0) = [] \<and> (\<exists>err cfg' r'. fl_create fl (ls_cfg s0) (ls_run s0) = (Inl err, cfg', r') \<and> out = Failed (fl_creating fl) err)"

definition past_milestones ::
  "('r, 'w kube_client, 'a, 'w) context_env \<Rightarrow> 'w ocm_runtime \<Rightarrow> 'w flavour \<Rightarrow> 'w lifecycle \<Rightarrow> nat \<Rightarrow> string \<Rightarrow> 'w kube_client \<Rightarrow> 'w lifecycle \<Rightarrow> bool" where
  "past_milestones env rt fl s0 n i client s \<longleftrightarrow>
     created_by fl s0 i (ls_cfg s)
     \<and> visits (spec_step env rt fl) (take n (milestones env i client (ComputeNodes (ls_cfg s)))) s0 s"

fun phase_ok ::
  "('r, 'w kube_client, 'a, 'w) context_env \<Rightarrow> 'w ocm_runtime \<Rightarrow> 'w flavour \<Rightarrow> 'w lifecycle \<Rightarrow> 'w lifecycle \<Rightarrow> 'w phase \<Rightarrow> bool" where
  "phase_ok env rt fl s0 s AtStart \<longleftrightarrow> s = s0"
| "phase_ok env rt fl s0 s (AtWaitReady i) \<longleftrightarrow> ls_events s = [Created i] \<and> (\<forall>k. past_milestones env rt fl s0 0 i k s)"
| "phase_ok env rt fl s0 s (AtReady i) \<longleftrightarrow> ls_events s = [Created i] \<and> (\<forall>k. past_milestones env rt fl s0 0 i k s)"
| "phase_ok env rt fl s0 s (AtConnect i) \<longleftrightarrow> ls_events s = [Created i] \<and> (\<forall>k. past_milestones env rt fl s0 1 i k s)"
| "phase_ok env rt fl s0 s (AtVerify i k rs) \<longleftrightarrow> ls_events s = [Created i] \<and> past_milestones env rt fl s0 2 i k s
     \<and> (\<exists>w. runs k (lifecycle_verifiers (ls_cfg s)) w rs)"
| "phase_ok env rt fl s0 s (AtDelete i) \<longleftrightarrow> ls_events s = [Created i] \<and> (\<exists>k. past_milestones env rt fl s0 3 i k s)"
| "phase_ok env rt fl s0 s (AtGone i) \<longleftrightarrow> ls_events s = [Created i, DeletionAsked i True] \<and> (\<exists>k. past_milestones env rt fl s0 4 i k s)"
| "phase_ok env rt fl s0 s (AtCleanup i out) \<longleftrightarrow> created_by fl s0 i (ls_cfg s) \<and> (\<exists>ds. ls_events s = Created i # ds \<and> set ds \<subseteq> range (DeletionAsked i))
     \<and> (out = Passed \<longrightarrow> ls_events s = [Created i, DeletionAsked i True] \<and> (\<exists>k. past_milestones env rt fl s0 5 i k s))
     \<and> (\<forall>t. out \<noteq> Skipped t)"
| "phase_ok env rt fl s0 s (Ended out) \<longleftrightarrow>
     (ls_events s = [] \<and> nothing_created fl s0 out \<or>
      (\<exists>i ds b. created_by fl s0 i (ls_cfg s) \<and> ls_events s = Created i # ds @ [DeletionAsked i b] \<and> set ds \<subseteq> range (DeletionAsked i) \<and> (\<forall>t. out \<noteq> Skipped t)
         \<and> (out = Passed \<longrightarrow> ds = [DeletionAsked i True] \<and> (\<exists>k. past_milestones env rt fl s0 5 i k s))))"

definition lifecycle_inv ::
  "('r, 'w kube_client, 'a, 'w) context_env \<Rightarrow> 'w ocm_runtime \<Rightarrow> 'w flavour \<Rightarrow> 'w lifecycle \<Rightarrow> 'w lifecycle \<Rightarrow> bool" where
  "lifecycle_inv env rt fl s0 s \<longleftrightarrow> phase_ok env rt fl s0 s (ls_phase s)"

inductive_cases spec_stepE: "spec_step env rt fl s s'"

lemmas spec_step_cases = spec_stepE [consumes 1, case_names skip create_fails create wait ready connect_fails connect
  verify world_moves verified delete gone cleanup]

lemma verify_state_seen:
  "on_world (verify_cluster_state st conn clusterID) r = (None, r') \<Longrightarrow> reports_state conn clusterID st (run_world r)"
  by (auto simp: verify_cluster_state_def on_world_pair reports_state_def split: sum.splits prod.splits if_splits)

lemma runner_certifies:
  assumes "runs client (lifecycle_verifiers cfg) w rs" and "rs_pc rs = Returned None" and "ls_phase s = AtVerify i client rs"
  shows "healthy_at i client (ComputeNodes cfg) s"
  using all_ready.nil_certifies [OF assms(1,2)] node_count.nil_certifies [OF assms(1,2), of "ComputeNodes cfg"] assms(2,3)
  by (auto simp: lifecycle_verifiers_def healthy_at_def)

text \<open>A step keeps the milestones, and passes the next one when the state it leaves has it.\<close>

lemma milestone_created: "past_milestones env rt fl s0 n i k s \<Longrightarrow> created_by fl s0 i (ls_cfg s)"
  by (simp add: past_milestones_def)

lemma milestones_kept:
  "past_milestones env rt fl s0 n i k s \<Longrightarrow> spec_step env rt fl s s' \<Longrightarrow> ls_cfg s' = ls_cfg s \<Longrightarrow> past_milestones env rt fl s0 n i k s'"
  by (auto simp: past_milestones_def intro: visits_then)

lemma milestone_passed:
  assumes "past_milestones env rt fl s0 n i k s" and "n < 5" and "(milestones env i k (ComputeNodes (ls_cfg s)) ! n) s"
    and "spec_step env rt fl s s'" and "ls_cfg s' = ls_cfg s"
  shows "past_milestones env rt fl s0 (Suc n) i k s'"
proof -
  have "length (milestones env i k (ComputeNodes (ls_cfg s))) = 5" by (simp add: milestones_def)
  with assms visits_more [of "spec_step env rt fl" _ s0 s "milestones env i k (ComputeNodes (ls_cfg s)) ! n" s'] show ?thesis
    by (simp add: past_milestones_def take_Suc_conv_app_nth)
qed

lemmas milestone_steps = milestone_passed [where n = 0] milestone_passed [where n = 1] milestone_passed [where n = 2]
  milestone_passed [where n = 3] milestone_passed [where n = 4]

lemma lifecycle_inv_start: "lifecycle_inv env rt fl (lifecycle_start cfg r) (lifecycle_start cfg r)"
  by (simp add: lifecycle_inv_def lifecycle_start_def)

lemma lifecycle_inv_step:
  assumes step: "spec_step env rt fl s s'" and inv: "lifecycle_inv env rt fl s0 s" and s0: "ls_events s0 = []"
  shows "lifecycle_inv env rt fl s0 s'"
  using step
proof (cases rule: spec_step_cases)
  case (create clusterID cfg' r')
  then show ?thesis using inv step s0 by (auto simp: lifecycle_inv_def past_milestones_def created_by_def)
next
  case (wait clusterID e r')
  then show ?thesis using inv milestones_kept [OF _ step] by (auto dest: milestone_created simp: lifecycle_inv_def expect_def split: option.splits)
next
  case (ready clusterID e r')
  have "ready_at (ocm env) clusterID s" if "e = None"
    using verify_state_seen [of "''ready''" "ocm env" clusterID "ls_run s" r'] ready that by (simp add: ready_at_def VerifyClusterReady_def)
  then show ?thesis using ready inv milestone_steps(1) [OF _ _ _ step]
    by (cases e) (auto dest: milestone_created simp: lifecycle_inv_def expect_def milestones_def)
next
  case (connect clusterID client r')
  have "connected_at env clusterID client s" using connect by (auto simp: connected_at_def on_world_pair)
  then show ?thesis using connect inv milestone_steps(2) [OF _ _ _ step, of s0 clusterID client]
    by (auto simp: lifecycle_inv_def milestones_def numeral_2_eq_2 intro: runs.start)
next
  case (verify clusterID client rs rs')
  then show ?thesis using inv milestones_kept [OF _ step] by (auto simp: lifecycle_inv_def intro: runs.program)
next
  case (world_moves clusterID client rs rs')
  then show ?thesis using inv milestones_kept [OF _ step] by (auto simp: lifecycle_inv_def intro: runs.environment)
next
  case (verified clusterID client rs e)
  then obtain w where "runs client (lifecycle_verifiers (ls_cfg s)) w rs" using inv by (auto simp: lifecycle_inv_def)
  then have "healthy_at clusterID client (ComputeNodes (ls_cfg s)) s" if "e = None"
    using runner_certifies [of client "ls_cfg s" w rs s clusterID] verified that by simp
  then show ?thesis using verified inv milestone_steps(3) [OF _ _ _ step, of s0 clusterID client]
    by (cases e) (auto dest: milestone_created simp: lifecycle_inv_def expect_def milestones_def eval_nat_numeral)
next
  case (delete clusterID e r')
  have "deletion_at (ocm env) clusterID s" if "e = None"
    using delete that by (auto simp: deletion_at_def DeleteCluster_def on_world_pair split: option.splits prod.splits)
  then show ?thesis using delete inv milestone_steps(4) [OF _ _ _ step, of s0 clusterID]
    by (cases e) (auto dest: milestone_created simp: lifecycle_inv_def expect_def milestones_def eval_nat_numeral)
next
  case (gone clusterID e r')
  have "uninstalling_at (ocm env) clusterID s" if "e = None"
    using verify_state_seen [of "''uninstalling''" "ocm env" clusterID "ls_run s" r'] gone that
    by (simp add: uninstalling_at_def VerifyClusterDeleting_def)
  then show ?thesis using gone inv milestone_steps(5) [OF _ _ _ step, of s0 clusterID]
    by (cases e) (auto dest: milestone_created simp: lifecycle_inv_def expect_def milestones_def eval_nat_numeral)
next
  case (cleanup clusterID outcome ok r')
  have "past_milestones env rt fl s0 5 clusterID k s \<Longrightarrow> past_milestones env rt fl s0 5 clusterID k s'" for k
    using milestones_kept [OF _ step] cleanup by simp
  then show ?thesis using inv cleanup by (cases outcome) (auto simp: lifecycle_inv_def)
qed (use inv s0 in \<open>auto dest: milestone_created simp: lifecycle_inv_def nothing_created_def\<close>)

lemma lifecycle_reachable:
  "(spec_step env rt fl)\<^sup>*\<^sup>* (lifecycle_start cfg r) s \<Longrightarrow> lifecycle_inv env rt fl (lifecycle_start cfg r) s"
proof (induction rule: rtranclp_induct)
  case base
  show ?case by (rule lifecycle_inv_start)
next
  case (step s s')
  show ?case by (rule lifecycle_inv_step [OF step(2,3)]) (simp add: lifecycle_start_def)
qed

text \<open>A spec is only ever held up by a wait that does not end.\<close>

lemma lifecycle_progress:
  assumes "lifecycle_inv env rt fl s0 s"
  shows "(\<exists>out. ls_phase s = Ended out) \<or> (\<exists>s'. spec_step env rt fl s s')
    \<or> (\<exists>i. ls_phase s = AtWaitReady i \<and> WaitForClusterReady rt (ocm env) i (fl_timeout fl) (ls_run s) = None)"
proof (cases "ls_phase s")
  case AtStart
  obtain q cfg' r' where "fl_create fl (ls_cfg s) (ls_run s) = (q, cfg', r')" by (metis prod_cases3)
  then show ?thesis using spec_step.skip [OF AtStart, of env rt fl] spec_step.create [OF AtStart, of fl _ cfg' r' env rt]
      spec_step.create_fails [OF AtStart, of fl _ cfg' r' env rt]
    by (cases "ClusterID (ls_cfg s) = []"; cases q) auto
next
  case (AtWaitReady i)
  then show ?thesis using spec_step.wait [of s i rt env fl]
    by (cases "WaitForClusterReady rt (ocm env) i (fl_timeout fl) (ls_run s)") auto
next
  case (AtReady i)
  then show ?thesis using spec_step.ready [of s i env] by (metis surj_pair)
next
  case (AtConnect i)
  obtain q r' where "on_world (connect_client env i) (ls_run s) = (q, r')" by (metis surj_pair)
  then show ?thesis using AtConnect spec_step.connect [of s i env] spec_step.connect_fails [of s i env] by (cases q) blast+
next
  case (AtVerify i client rs)
  then obtain w where "runs client (lifecycle_verifiers (ls_cfg s)) w rs" using assms by (auto simp: lifecycle_inv_def)
  from runner_progress [OF runs_inv [OF this], of client] show ?thesis
    using AtVerify spec_step.verify [of s i client rs] spec_step.verified [of s i client rs] by blast
next
  case (AtDelete i)
  then show ?thesis using spec_step.delete [of s i env] by (metis surj_pair)
next
  case (AtGone i)
  then show ?thesis using spec_step.gone [of s i env] by (metis surj_pair)
next
  case (AtCleanup i out)
  then show ?thesis using spec_step.cleanup [of s i out env] by (metis surj_pair)
qed blast

text \<open>
  C7. A lifecycle spec leaves no cluster behind without asking for its deletion. When it has ended, whatever failed on the
  way and in whatever order the verifiers ran, then either a cluster was configured and it was skipped, or the creation failed
  and that is its outcome, and it deleted nothing; or it created one cluster, was not skipped, asked only for
  deletions of that cluster, and did so last.
\<close>

theorem lifecycle_cleans_up:
  assumes "(spec_step env rt fl)\<^sup>*\<^sup>* (lifecycle_start cfg r) s" and "ls_phase s = Ended out"
  shows "if ls_events s = []
    then ClusterID cfg \<noteq> [] \<and> (\<exists>t. out = Skipped t)
       \<or> ClusterID cfg = [] \<and> (\<exists>err cfg' r'. fl_create fl cfg r = (Inl err, cfg', r') \<and> out = Failed (fl_creating fl) err)
    else \<exists>i ds b r'. fl_create fl cfg r = (Inr i, ls_cfg s, r') \<and> (\<forall>t. out \<noteq> Skipped t)
       \<and> ls_events s = Created i # ds @ [DeletionAsked i b] \<and> set ds \<subseteq> range (DeletionAsked i)"
  using lifecycle_reachable [OF assms(1)] assms(2)
  by (auto simp: lifecycle_inv_def nothing_created_def created_by_def lifecycle_start_def)

text \<open>
  C8. When a lifecycle spec passes, then a cluster was created from the configuration and is the only one the spec touched,
  and the run passed these moments in this order: OCM reported the cluster ready; a client was built from its
  credentials; RunVerifiers had returned nil, the listing of all nodes with that client having shown each of them
  ready and the listing of workers as many as the configuration asks for; the deletion was accepted; and OCM
  reported the cluster uninstalling.
\<close>

theorem lifecycle_passed:
  assumes "(spec_step env rt fl)\<^sup>*\<^sup>* (lifecycle_start cfg r) s" and "ls_phase s = Ended Passed"
  shows "\<exists>i b client r'. fl_create fl cfg r = (Inr i, ls_cfg s, r')
    \<and> ls_events s = [Created i, DeletionAsked i True, DeletionAsked i b]
    \<and> visits (spec_step env rt fl)
        [ready_at (ocm env) i, connected_at env i client, healthy_at i client (ComputeNodes (ls_cfg s)),
         deletion_at (ocm env) i, uninstalling_at (ocm env) i] (lifecycle_start cfg r) s"
proof -
  obtain i b where e: "ls_events s = [Created i, DeletionAsked i True, DeletionAsked i b]"
    and "\<exists>client. past_milestones env rt fl (lifecycle_start cfg r) 5 i client s"
    using lifecycle_reachable [OF assms(1)] assms(2) by (auto simp: lifecycle_inv_def nothing_created_def)
  then obtain client where m: "past_milestones env rt fl (lifecycle_start cfg r) 5 i client s" by blast
  show ?thesis
    by (intro exI [of _ i] exI [of _ b] exI [of _ client])
      (use m e in \<open>simp add: past_milestones_def created_by_def milestones_def lifecycle_start_def\<close>)
qed

section \<open>Termination\<close>

text \<open>
  A bound on the steps that a spec itself still makes: one per phase, and those of RunVerifiers with two verifiers, which
  are at most 16.
\<close>

fun phase_left :: "'w phase \<Rightarrow> nat" where
  "phase_left AtStart = 24"
| "phase_left (AtWaitReady i) = 23"
| "phase_left (AtReady i) = 22"
| "phase_left (AtConnect i) = 21"
| "phase_left (AtVerify i client rs) = 4 + steps_left rs"
| "phase_left (AtDelete i) = 3"
| "phase_left (AtGone i) = 2"
| "phase_left (AtCleanup i out) = 1"
| "phase_left (Ended out) = 0"

lemma phase_left_expect: "phase_left (expect i t e next) \<le> max 1 (phase_left next)"
  by (simp add: expect_def split: option.splits)

text \<open>The one step that is not the spec's own: something else changes the world while the verifiers run.\<close>

definition world_step :: "'w lifecycle \<Rightarrow> 'w lifecycle \<Rightarrow> bool" where
  "world_step s s' \<longleftrightarrow> (\<exists>i client rs u. ls_phase s = AtVerify i client rs \<and> s' = s\<lparr>ls_phase := AtVerify i client (rs\<lparr>rs_world := u\<rparr>)\<rparr>)"

lemma steps_left_init: "steps_left (runner_init (lifecycle_verifiers cfg) w) = 16"
  by (simp add: steps_left_def runner_init_def lifecycle_verifiers_def)

lemma phase_left_step:
  assumes "spec_step env rt fl s s'"
  shows "phase_left (ls_phase s') < phase_left (ls_phase s) \<or> world_step s s' \<and> phase_left (ls_phase s') = phase_left (ls_phase s)"
  using assms
proof (cases rule: spec_step_cases)
  case (verify clusterID client rs rs')
  then show ?thesis using steps_left_decreases [of client rs rs'] by simp
next
  case (world_moves clusterID client rs rs')
  from world_moves(3) show ?thesis
    by (cases rule: env_step.cases) (use world_moves in \<open>auto simp: world_step_def steps_left_def\<close>)
qed (simp_all add: steps_left_init le_less_trans [OF phase_left_expect])

lemma phase_left_reachable:
  "(spec_step env rt fl)\<^sup>*\<^sup>* (lifecycle_start cfg r) s \<Longrightarrow> phase_left (ls_phase s) \<le> 24"
proof (induction rule: rtranclp_induct)
  case base
  show ?case by (simp add: lifecycle_start_def)
next
  case (step s s')
  then show ?case using phase_left_step [OF step(2)] by linarith
qed

text \<open>
  C9. A lifecycle spec ends: it makes at most 24 steps of its own, each of which brings it nearer to its end, changes
  of the world while the verifiers run do not take it back, and as long as it has not ended it has a next step, unless
  WaitForClusterReady does not return.
\<close>

theorem lifecycle_terminates:
  assumes "(spec_step env rt fl)\<^sup>*\<^sup>* (lifecycle_start cfg r) s"
  shows "phase_left (ls_phase s) \<le> 24
    \<and> (\<forall>s'. spec_step env rt fl s s' \<longrightarrow>
         phase_left (ls_phase s') < phase_left (ls_phase s) \<or> world_step s s' \<and> phase_left (ls_phase s') = phase_left (ls_phase s))
    \<and> ((\<exists>out. ls_phase s = Ended out) \<or> (\<exists>s'. spec_step env rt fl s s')
       \<or> (\<exists>i. ls_phase s = AtWaitReady i \<and> WaitForClusterReady rt (ocm env) i (fl_timeout fl) (ls_run s) = None))"
  using phase_left_reachable [OF assms] phase_left_step lifecycle_progress [OF lifecycle_reachable [OF assms]] by blast

section \<open>A concrete run\<close>

text \<open>A world that is the state of one cluster: creating it makes it ready, deleting it puts it into uninstalling.\<close>

definition demo_conn :: "string ocm_connection" where
  "demo_conn = \<lparr>
     cluster_Get = (\<lambda>i w. (Inr \<lparr>oc_ID = i, oc_Name = [], oc_State = w, oc_InfraID = [], oc_CloudProviderID = [],
        oc_HypershiftEnabled = True, oc_VersionRawID = [], oc_OperatorRolePrefix = []\<rparr>, w)),
     hypershift_ManagementCluster = (\<lambda>i w. (Inr [], w)), clusters_Search = (\<lambda>q n w. (Inr (0, []), w)),
     cluster_Build = (\<lambda>spec. None), cluster_Add = (\<lambda>spec w. (Inr ''new'', ''ready'')),
     cluster_Delete = (\<lambda>i w. (None, ''uninstalling'')), credentials_Kubeconfig = (\<lambda>i w. (Inr ''kubeconfig'', w)),
     versions_Search = (\<lambda>q r n w. (Inr [], w)), raw_Get = (\<lambda>p kq w. (Inr [], w)), shard_Topology = (\<lambda>i w. (Inr [], w)),
     policy_Build = (\<lambda>p. None), policy_Add = (\<lambda>i t p w. (None, w)), unmarshal_error = (\<lambda>s. ErrorsNew ''json'')\<rparr>"

definition demo_client :: "string kube_client" where
  "demo_client = \<lparr>nodes_List = (\<lambda>sel w. (Inr [sample_node ''True''], w)), deployments_List = (\<lambda>n w. (Inr [], w)),
     deployments_Get = (\<lambda>n m w. (Inl (ErrorsNew ''not found''), w)), pvc_GetPhase = (\<lambda>n m w. (Inl (ErrorsNew ''not found''), w)),
     IsNotFound = (\<lambda>e. True), conditions_text = (\<lambda>cs. [])\<rparr>"

definition demo_env :: "(unit, string kube_client, unit, string) context_env" where
  "demo_env = \<lparr>getenv = (\<lambda>v. []), ocm = demo_conn, BuildConfigFromFlags = (\<lambda>p w. (Inr (), w)),
     RESTConfigFromKubeConfig = (\<lambda>k. Inr ()), kubernetes_NewForConfig = (\<lambda>r. Inr demo_client),
     dynamic_NewForConfig = (\<lambda>r. Inl (ErrorsNew ''unused'')), configmap_Data = (\<lambda>k ns n w. (Inl (ErrorsNew ''unused''), w)),
     LoadDefaultConfig = (\<lambda>r w. (Inr (), w)), Credentials_Retrieve = (\<lambda>a w. ((True, None), w))\<rparr>"

definition demo_rt :: "string ocm_runtime" where
  "demo_rt = \<lparr>rand_IntN = (\<lambda>n w. (n - 1, w)),
     local_now = (\<lambda>w. \<lparr>t_year = 2025, t_month = 3, t_day = 14, t_hour = 0, t_min = 0, t_sec = 0, t_nsec = 0\<rparr>),
     unix_now = (\<lambda>w. 0), select_tick = (\<lambda>d p w. (False, w))\<rparr>"

definition demo_cfg :: Config where
  "demo_cfg = default_config\<lparr>OpenShiftVersion := ''4.20.1'', ComputeNodes := 1, ClusterID := []\<rparr>"

abbreviation demo_step :: "string lifecycle \<Rightarrow> string lifecycle \<Rightarrow> bool" where
  "demo_step \<equiv> spec_step demo_env demo_rt (classic_flavour demo_rt demo_conn)"

lemma demo_first: "demo_step s s' \<Longrightarrow> demo_step\<^sup>*\<^sup>* s s'"
  by (rule r_into_rtranclp)

lemma demo_then: "demo_step\<^sup>*\<^sup>* s s' \<Longrightarrow> demo_step s' s'' \<Longrightarrow> demo_step\<^sup>*\<^sup>* s s''"
  by (rule rtranclp.rtrancl_into_rtrancl)

lemma demo_created:
  "\<exists>r'. fl_create (classic_flavour demo_rt demo_conn) demo_cfg r = (Inr ''new'', demo_cfg, r') \<and> run_world r' = ''ready''"
proof -
  obtain name s1 where n: "on_world (generateClusterName demo_rt (ClusterNamePrefix demo_cfg) ''classic'') r = (name, s1)"
    by (metis surj_pair)
  have v: "OpenShiftVersion demo_cfg = ''4.20.1''" by (simp add: demo_cfg_def)
  have "add_cluster demo_conn f spec s = (Inr ''new'', Printf (f @ nl) [FStr (cs_Name spec), FStr ''new''] (s\<lparr>run_world := ''ready''\<rparr>))" for f spec s
    by (simp add: add_cluster_def on_world_def demo_conn_def)
  then show ?thesis by (simp add: classic_flavour_def CreateRosaClassicCluster_def n resolveVersionForTopology_def v Let_def)
qed

lemma same_world: "run_world r = w \<Longrightarrow> r\<lparr>run_world := w\<rparr> = r"
  by (cases r) simp

lemma demo_waited:
  assumes "run_world r = ''ready''"
  shows "\<exists>r'. WaitForClusterReady demo_rt (ocm demo_env) ''new'' t r = Some (None, r') \<and> run_world r' = ''ready''"
proof -
  have "wait_ready_body demo_rt (ocm demo_env) ''new'' t' d r =
      (Some None, Printf (''Cluster %s state: %s'' @ nl) [FStr ''new'', FStr ''ready''] r)" for t' d
    using assms by (simp add: wait_ready_body_def on_world_def same_world demo_rt_def demo_env_def demo_conn_def Let_def)
  then have "poll_loop (wait_ready_body demo_rt (ocm demo_env) ''new'' t' d) r =
      Some (None, Printf (''Cluster %s state: %s'' @ nl) [FStr ''new'', FStr ''ready''] r)" for t' d
    by (intro poll_loop_returns)
  then show ?thesis using assms by (simp add: WaitForClusterReady_def Let_def)
qed

lemma demo_state: "on_world (verify_cluster_state st (ocm demo_env) i) r = (None, r)" if "run_world r = st"
  using that by (simp add: verify_cluster_state_def on_world_def demo_env_def demo_conn_def)

lemma demo_connected: "connect_client demo_env i w = (Inr demo_client, w)"
  by (simp add: connect_client_def GetClusterCredentials_def NewKubeClient_def demo_env_def demo_conn_def)

lemma demo_deleted:
  "\<exists>r'. DeleteCluster (ocm demo_env) i r = (None, r') \<and> run_world r' = ''uninstalling''"
  by (simp add: DeleteCluster_def on_world_def demo_env_def demo_conn_def)

lemma verify_lift:
  assumes "(runner_step client)\<^sup>*\<^sup>* rs rs'" and "ls_phase s = AtVerify i client rs"
  shows "(spec_step env rt fl)\<^sup>*\<^sup>* s (s\<lparr>ls_phase := AtVerify i client rs'\<rparr>)"
  using assms
proof (induction rule: rtranclp_induct)
  case base
  then have "s\<lparr>ls_phase := AtVerify i client rs\<rparr> = s" by simp
  then show ?case by simp
next
  case (step rs1 rs2)
  have "spec_step env rt fl (s\<lparr>ls_phase := AtVerify i client rs1\<rparr>) (s\<lparr>ls_phase := AtVerify i client rs1\<rparr>\<lparr>ls_phase := AtVerify i client rs2\<rparr>)"
    by (rule spec_step.verify [where client = client]) (use step(2) in simp_all)
  then show ?case using step by (auto intro: rtranclp.rtrancl_into_rtrancl)
qed

lemma demo_verified:
  "\<exists>rs. (runner_step demo_client)\<^sup>*\<^sup>* (runner_init (lifecycle_verifiers demo_cfg) w) rs \<and> rs_pc rs = Returned None \<and> rs_world rs = w"
  by (rule quiet_pass)
     (auto simp: lifecycle_verifiers_def demo_cfg_def VerifyAllNodesReady_def verifyAllNodesReady_Verify_def
       VerifyNodeCount_def verifyNodeCount_Verify_def demo_client_def sample_node_def Let_def)

definition demo_run :: "string run" where
  "demo_run = \<lparr>run_world = [], run_log = []\<rparr>"

text \<open>The run up to the moment when RunVerifiers is called, and from its return.\<close>

lemma demo_reaches_verify:
  "\<exists>s. demo_step\<^sup>*\<^sup>* (lifecycle_start demo_cfg demo_run) s \<and> ls_phase s = AtVerify ''new'' demo_client (runner_init (lifecycle_verifiers demo_cfg) ''ready'')"
proof -
  let ?fl = "classic_flavour demo_rt demo_conn"
  obtain r1 where c: "fl_create ?fl demo_cfg demo_run = (Inr ''new'', demo_cfg, r1)" "run_world r1 = ''ready''" using demo_created by blast
  define s1 where "s1 = \<lparr>ls_phase = AtWaitReady ''new'', ls_cfg = demo_cfg, ls_run = Printf (fl_announce ?fl) [FStr ''new''] r1,
    ls_events = [Created ''new'']\<rparr>"
  have "demo_step (lifecycle_start demo_cfg demo_run) s1"
    using spec_step.create [of "lifecycle_start demo_cfg demo_run" ?fl "''new''" demo_cfg r1 demo_env demo_rt] c
    by (simp add: lifecycle_start_def s1_def demo_cfg_def)
  note steps = demo_first [OF this]
  obtain r2 where w: "WaitForClusterReady demo_rt (ocm demo_env) ''new'' (fl_timeout ?fl) (ls_run s1) = Some (None, r2)" "run_world r2 = ''ready''"
    using demo_waited [of "ls_run s1"] c(2) by (auto simp: s1_def)
  define s2 where "s2 = \<lparr>ls_phase = AtReady ''new'', ls_cfg = demo_cfg, ls_run = r2, ls_events = [Created ''new'']\<rparr>"
  have "demo_step s1 s2"
    using spec_step.wait [of s1 "''new''" demo_rt demo_env ?fl, OF _ w(1)] by (simp add: s1_def s2_def expect_def)
  note steps = demo_then [OF steps this]
  have "demo_step s2 (s2\<lparr>ls_phase := AtConnect ''new''\<rparr>)"
    using spec_step.ready [of s2 "''new''" demo_env None r2 demo_rt ?fl] demo_state [of r2 "''ready''"] w(2)
    by (simp add: s2_def expect_def VerifyClusterReady_def)
  note steps = demo_then [OF steps this]
  have "demo_step (s2\<lparr>ls_phase := AtConnect ''new''\<rparr>)
      (s2\<lparr>ls_phase := AtVerify ''new'' demo_client (runner_init (lifecycle_verifiers demo_cfg) ''ready'')\<rparr>)"
    using spec_step.connect [of "s2\<lparr>ls_phase := AtConnect ''new''\<rparr>" "''new''" demo_env demo_client r2 demo_rt ?fl] w(2)
    by (simp add: s2_def on_world_def demo_connected same_world)
  note steps = demo_then [OF steps this]
  show ?thesis by (rule exI, rule conjI, rule steps) simp
qed

lemma demo_finishes:
  assumes "ls_phase s = AtVerify ''new'' demo_client rs" and "rs_pc rs = Returned None"
  shows "\<exists>s'. demo_step\<^sup>*\<^sup>* s s' \<and> ls_phase s' = Ended Passed"
proof -
  let ?fl = "classic_flavour demo_rt demo_conn"
  define s1 where "s1 = s\<lparr>ls_phase := AtDelete ''new'', ls_run := (ls_run s)\<lparr>run_world := rs_world rs\<rparr>\<rparr>"
  have "demo_step s s1"
    using spec_step.verified [of s "''new''" demo_client rs None demo_env demo_rt ?fl] assms by (simp add: s1_def expect_def)
  note steps = demo_first [OF this]
  obtain r2 where d: "DeleteCluster (ocm demo_env) ''new'' (ls_run s1) = (None, r2)" "run_world r2 = ''uninstalling''" using demo_deleted by blast
  define s2 where "s2 = s1\<lparr>ls_phase := AtGone ''new'', ls_run := r2, ls_events := ls_events s1 @ [DeletionAsked ''new'' True]\<rparr>"
  have "demo_step s1 s2"
    using spec_step.delete [of s1 "''new''" demo_env None r2 demo_rt ?fl] d by (simp add: s1_def s2_def expect_def)
  note steps = demo_then [OF steps this]
  define s3 where "s3 = s2\<lparr>ls_phase := AtCleanup ''new'' Passed, ls_run := r2\<rparr>"
  have "demo_step s2 s3"
    using spec_step.gone [of s2 "''new''" demo_env None r2 demo_rt ?fl] demo_state [of r2 "''uninstalling''"] d(2)
    by (simp add: s2_def s3_def expect_def VerifyClusterDeleting_def)
  note steps = demo_then [OF steps this]
  obtain ok r4 where "clean_up (ocm demo_env) ''new'' (ls_run s3) = (ok, r4)" by (metis surj_pair)
  then have "demo_step s3 (s3\<lparr>ls_phase := Ended Passed, ls_run := r4, ls_events := ls_events s3 @ [DeletionAsked ''new'' ok]\<rparr>)"
    by (intro spec_step.cleanup) (simp_all add: s3_def)
  note steps = demo_then [OF steps this]
  show ?thesis by (rule exI, rule conjI, rule steps) simp
qed

lemma demo_passes: "\<exists>s. demo_step\<^sup>*\<^sup>* (lifecycle_start demo_cfg demo_run) s \<and> ls_phase s = Ended Passed"
proof -
  obtain s where s: "demo_step\<^sup>*\<^sup>* (lifecycle_start demo_cfg demo_run) s"
    "ls_phase s = AtVerify ''new'' demo_client (runner_init (lifecycle_verifiers demo_cfg) ''ready'')"
    using demo_reaches_verify by blast
  obtain rs where rs: "(runner_step demo_client)\<^sup>*\<^sup>* (runner_init (lifecycle_verifiers demo_cfg) ''ready'') rs" "rs_pc rs = Returned None"
    using demo_verified by blast
  let ?s = "s\<lparr>ls_phase := AtVerify ''new'' demo_client rs\<rparr>"
  have "demo_step\<^sup>*\<^sup>* s ?s" by (rule verify_lift [OF rs(1) s(2)])
  moreover obtain s' where "demo_step\<^sup>*\<^sup>* ?s s'" "ls_phase s' = Ended Passed" using demo_finishes [of ?s rs] rs(2) by auto
  ultimately show ?thesis using s(1) by (blast intro: rtranclp_trans)
qed

theorem lifecycle_cleans_up_witness:
  "\<exists>s i ds b. demo_step\<^sup>*\<^sup>* (lifecycle_start demo_cfg demo_run) s \<and> ls_phase s = Ended Passed
     \<and> ls_events s = Created i # ds @ [DeletionAsked i b]"
proof -
  obtain s where s: "demo_step\<^sup>*\<^sup>* (lifecycle_start demo_cfg demo_run) s" "ls_phase s = Ended Passed" using demo_passes by blast
  show ?thesis using lifecycle_cleans_up [OF s] s by (auto split: if_splits)
qed

theorem lifecycle_terminates_witness:
  "phase_left (ls_phase (lifecycle_start demo_cfg demo_run)) \<le> 24 \<and> (\<exists>s'. demo_step (lifecycle_start demo_cfg demo_run) s')"
proof -
  have p: "ls_phase (lifecycle_start demo_cfg demo_run) = AtStart" by (simp add: lifecycle_start_def)
  from lifecycle_terminates [where env = demo_env and rt = demo_rt and fl = "classic_flavour demo_rt demo_conn", OF rtranclp.rtrancl_refl, of demo_cfg demo_run]
  show ?thesis unfolding p by blast
qed

theorem lifecycle_passed_witness:
  "\<exists>s i client. demo_step\<^sup>*\<^sup>* (lifecycle_start demo_cfg demo_run) s
     \<and> visits demo_step
        [ready_at demo_conn i, connected_at demo_env i client, healthy_at i client (ComputeNodes (ls_cfg s)),
         deletion_at demo_conn i, uninstalling_at demo_conn i] (lifecycle_start demo_cfg demo_run) s"
proof -
  obtain s where s: "demo_step\<^sup>*\<^sup>* (lifecycle_start demo_cfg demo_run) s" "ls_phase s = Ended Passed" using demo_passes by blast
  have conn: "ocm demo_env = demo_conn" by (simp add: demo_env_def)
  show ?thesis using lifecycle_passed [OF s] s(1) unfolding conn by blast
qed

end
