(* ===== verification/Upgrade_Specs.thy ===== *)
theory Upgrade_Specs
  imports Lifecycle
begin

text \<open>
  test/e2e/upgrade\_test.go, the specs that upgrade a whole cluster: \<open>Upgrade: Control Plane\<close>, \<open>Upgrade: Classic Cluster\<close> and
  \<open>Upgrade: OSD GCP Cluster\<close>. Each schedules the upgrade, waits for the version and asks whether the cluster is ready. A spec
  that never returns from its wait has the value \<open>None\<close>.
\<close>

section \<open>The specs\<close>

text \<open>The part that the three share, from the initiation on.\<close>

definition upgrade_steps ::
  "'w ocm_runtime \<Rightarrow> 'w ocm_connection \<Rightarrow> string \<Rightarrow> ('w run \<Rightarrow> go_error option \<times> 'w run) \<Rightarrow> string \<Rightarrow> int \<Rightarrow> Config \<Rightarrow> 'w run
   \<Rightarrow> (spec_outcome \<times> 'w run) option" where
  "upgrade_steps rt conn initiating initiate waiting timeout cfg s =
     (case initiate s of
        (Some err, s1) \<Rightarrow> Some (Failed (initiating @ UpgradeTargetVersion cfg) err, s1)
      | (None, s1) \<Rightarrow> (case WaitForUpgradeComplete rt conn (ClusterID cfg) (UpgradeTargetVersion cfg) timeout s1 of
            None \<Rightarrow> None
          | Some (Some err, s2) \<Rightarrow> Some (Failed waiting err, s2)
          | Some (None, s2) \<Rightarrow> (case on_world (VerifyClusterReady conn (ClusterID cfg)) s2 of
                (Some err, s3) \<Rightarrow> Some (Failed ''Verifying cluster is ready after upgrade'' err, s3)
              | (None, s3) \<Rightarrow> Some (Passed, s3))))"

definition upgrade_skip :: "Config \<Rightarrow> string option" where
  "upgrade_skip cfg =
     (if ClusterID cfg = [] then Some ''CLUSTER_ID not set''
      else if UpgradeTargetVersion cfg = [] then Some ''UPGRADE_TARGET_VERSION not set, skipping upgrade test'' else None)"

definition control_plane_upgrade_spec ::
  "'w ocm_runtime \<Rightarrow> ('r, 'k, 'a, 'w) context_env \<Rightarrow> Config \<Rightarrow> 'w run \<Rightarrow> (spec_outcome \<times> 'w run) option" where
  "control_plane_upgrade_spec rt env cfg s =
     (case upgrade_skip cfg of
        Some why \<Rightarrow> Some (Skipped why, s)
      | None \<Rightarrow> upgrade_steps rt (ocm env) ''Initiating control plane upgrade to ''
          (InitiateControlPlaneUpgrade rt (ocm env) (ClusterID cfg) (UpgradeTargetVersion cfg))
          ''Waiting for upgrade to complete (up to 60 minutes)'' (60 * minute) cfg s)"

text \<open>The two specs for the other kinds of clusters first ask for the topology of the cluster.\<close>

definition cluster_upgrade_spec ::
  "string \<Rightarrow> (('r, 'k, 'a, 'w) test_context \<Rightarrow> 'w \<Rightarrow> bool \<times> ('r, 'k, 'a, 'w) test_context \<times> 'w)
   \<Rightarrow> 'w ocm_runtime \<Rightarrow> ('r, 'k, 'a, 'w) context_env \<Rightarrow> Config \<Rightarrow> 'w run \<Rightarrow> (spec_outcome \<times> 'w run) option" where
  "cluster_upgrade_spec other is_kind rt env cfg s =
     (case upgrade_skip cfg of
        Some why \<Rightarrow> Some (Skipped why, s)
      | None \<Rightarrow> (case is_kind (NewTestContext cfg) (run_world s) of
            (yes, tc, w1) \<Rightarrow>
              if \<not> yes then Some (Skipped other, s\<lparr>run_world := w1\<rparr>)
              else upgrade_steps rt (ocm env) ''Initiating cluster upgrade to ''
                (InitiateClusterUpgrade rt (ocm env) (ClusterID cfg) (UpgradeTargetVersion cfg))
                ''Waiting for upgrade to complete (up to 90 minutes)'' (90 * minute) cfg (s\<lparr>run_world := w1\<rparr>)))"

definition classic_upgrade_spec ::
  "'w ocm_runtime \<Rightarrow> ('r, 'k, 'a, 'w) context_env \<Rightarrow> Config \<Rightarrow> 'w run \<Rightarrow> (spec_outcome \<times> 'w run) option" where
  "classic_upgrade_spec rt env = cluster_upgrade_spec ''Not a Classic cluster, skipping Classic upgrade test'' (IsClassic env) rt env"

definition osd_gcp_upgrade_spec ::
  "'w ocm_runtime \<Rightarrow> ('r, 'k, 'a, 'w) context_env \<Rightarrow> Config \<Rightarrow> 'w run \<Rightarrow> (spec_outcome \<times> 'w run) option" where
  "osd_gcp_upgrade_spec rt env = cluster_upgrade_spec ''Not an OSD GCP cluster, skipping OSD GCP upgrade test'' (IsOSDGCP env) rt env"

section \<open>What a passed upgrade establishes\<close>

text \<open>In the world \<open>w\<close> OCM accepts a policy for the target version that runs five minutes later.\<close>

definition schedules_upgrade :: "'w ocm_runtime \<Rightarrow> 'w ocm_connection \<Rightarrow> string \<Rightarrow> policy_target \<Rightarrow> string \<Rightarrow> 'w \<Rightarrow> bool" where
  "schedules_upgrade rt conn clusterID where_to target w \<longleftrightarrow>
     (\<exists>kind w'. policy_Add conn clusterID where_to
        \<lparr>up_Version = target, up_ScheduleType = ''manual'', up_UpgradeType = kind, up_NextRun = unix_now rt w + 5 * minute\<rparr> w = (None, w'))"

text \<open>
  The upgrade of the configured cluster from \<open>s\<close> on: the policy is accepted there, a round of the wait that follows sees the target
  version, and where the wait ends OCM reports the cluster ready.
\<close>

definition upgraded ::
  "'w ocm_runtime \<Rightarrow> 'w ocm_connection \<Rightarrow> Config \<Rightarrow> policy_target \<Rightarrow> ('w run \<Rightarrow> go_error option \<times> 'w run) \<Rightarrow> int \<Rightarrow> 'w run \<Rightarrow> bool" where
  "upgraded rt conn cfg where_to initiate timeout s \<longleftrightarrow>
     schedules_upgrade rt conn (ClusterID cfg) where_to (UpgradeTargetVersion cfg) (run_world s)
     \<and> (\<exists>s1 s2 n c. initiate s = (None, s1)
          \<and> WaitForUpgradeComplete rt conn (ClusterID cfg) (UpgradeTargetVersion cfg) timeout s1 = Some (None, s2)
          \<and> upgrade_sight rt conn (ClusterID cfg) (UpgradeTargetVersion cfg) timeout s1 n = Saw c
          \<and> oc_VersionRawID c = UpgradeTargetVersion cfg
          \<and> reports_state conn (ClusterID cfg) ''ready'' (run_world s2))"

lemma control_plane_scheduled:
  "InitiateControlPlaneUpgrade rt conn i target s = (None, s') \<Longrightarrow> schedules_upgrade rt conn i ControlPlanePolicies target (run_world s)"
  by (auto simp: InitiateControlPlaneUpgrade_def schedules_upgrade_def upgrade_policy_for_def Let_def on_world_pair
      split: option.splits prod.splits)

lemma cluster_scheduled:
  "InitiateClusterUpgrade rt conn i target s = (None, s') \<Longrightarrow> schedules_upgrade rt conn i ClusterPolicies target (run_world s)"
  by (auto simp: InitiateClusterUpgrade_def schedules_upgrade_def upgrade_policy_for_def Let_def on_world_pair
      split: option.splits prod.splits)

lemma upgrade_wait_sees:
  assumes "WaitForUpgradeComplete rt conn i target timeout s = Some (None, s')"
  shows "\<exists>n c. upgrade_sight rt conn i target timeout s n = Saw c \<and> oc_VersionRawID c = target"
proof -
  obtain n where "upgrade_verdict i target (upgrade_sight rt conn i target timeout s n) = Some None"
    using assms upgrade_wait_verdict [of rt conn i target timeout s None] by blast
  then show ?thesis by (cases "upgrade_sight rt conn i target timeout s n") (auto split: if_splits)
qed

lemma upgrade_steps_passed:
  assumes "upgrade_steps rt conn initiating initiate waiting timeout cfg s = Some (Passed, s')"
    and scheduled: "\<And>s s1. initiate s = (None, s1) \<Longrightarrow> schedules_upgrade rt conn (ClusterID cfg) where_to (UpgradeTargetVersion cfg) (run_world s)"
  shows "upgraded rt conn cfg where_to initiate timeout s"
proof -
  obtain s1 s2 s3 where s1: "initiate s = (None, s1)"
    and s2: "WaitForUpgradeComplete rt conn (ClusterID cfg) (UpgradeTargetVersion cfg) timeout s1 = Some (None, s2)"
    and s3: "on_world (VerifyClusterReady conn (ClusterID cfg)) s2 = (None, s3)"
    using assms(1) by (auto simp: upgrade_steps_def split: prod.splits option.splits)
  then show ?thesis
    using scheduled [OF s1] upgrade_wait_sees [OF s2] verify_state_seen [of "''ready''" conn "ClusterID cfg" s2 s3]
    unfolding upgraded_def VerifyClusterReady_def by blast
qed

lemma kind_confirmed:
  assumes "is_topology t env (NewTestContext cfg) w = (True, tc, w')" and "t \<noteq> []"
  shows "known_topology cfg t"
  using assms Topology_cases(2,4) [of env "NewTestContext cfg" w t tc w']
  by (auto simp: is_topology_def NewTestContext_def split: prod.splits)

lemma cluster_upgrade_passed:
  assumes "cluster_upgrade_spec other (is_topology t env) rt env cfg s = Some (Passed, s')" and "t \<noteq> []"
  shows "upgrade_skip cfg = None \<and> known_topology cfg t
    \<and> (\<exists>tc w. is_topology t env (NewTestContext cfg) (run_world s) = (True, tc, w)
        \<and> upgraded rt (ocm env) cfg ClusterPolicies (InitiateClusterUpgrade rt (ocm env) (ClusterID cfg) (UpgradeTargetVersion cfg))
            (90 * minute) (s\<lparr>run_world := w\<rparr>))"
proof -
  obtain tc w where k: "upgrade_skip cfg = None" "is_topology t env (NewTestContext cfg) (run_world s) = (True, tc, w)"
    and u: "upgrade_steps rt (ocm env) ''Initiating cluster upgrade to ''
       (InitiateClusterUpgrade rt (ocm env) (ClusterID cfg) (UpgradeTargetVersion cfg))
       ''Waiting for upgrade to complete (up to 90 minutes)'' (90 * minute) cfg (s\<lparr>run_world := w\<rparr>) = Some (Passed, s')"
    using assms(1) by (auto simp: cluster_upgrade_spec_def split: option.splits prod.splits if_splits)
  show ?thesis using k kind_confirmed [OF k(2) assms(2)] upgrade_steps_passed [OF u] cluster_scheduled by blast
qed

text \<open>
  C27. An upgrade spec passes only on a cluster and a target version that are configured, and only when, in this order, OCM
  accepted an upgrade policy for that version on the endpoint for the kind of cluster (control plane, or cluster for Classic
  and OSD GCP, whose topology was confirmed first), a round of the wait of at most 60 or 90 minutes saw the cluster at the
  target version, and OCM reported the cluster ready in the world where that wait ended.
\<close>

theorem upgrade_spec_passed:
  "(case control_plane_upgrade_spec rt env cfg s of
      Some (Passed, s') \<Rightarrow> upgrade_skip cfg = None
        \<and> upgraded rt (ocm env) cfg ControlPlanePolicies
            (InitiateControlPlaneUpgrade rt (ocm env) (ClusterID cfg) (UpgradeTargetVersion cfg)) (60 * minute) s
    | _ \<Rightarrow> True)
   \<and> (case classic_upgrade_spec rt env cfg s of
      Some (Passed, s') \<Rightarrow> upgrade_skip cfg = None \<and> known_topology cfg ''classic''
        \<and> (\<exists>tc w. IsClassic env (NewTestContext cfg) (run_world s) = (True, tc, w)
             \<and> upgraded rt (ocm env) cfg ClusterPolicies
                 (InitiateClusterUpgrade rt (ocm env) (ClusterID cfg) (UpgradeTargetVersion cfg)) (90 * minute) (s\<lparr>run_world := w\<rparr>))
    | _ \<Rightarrow> True)
   \<and> (case osd_gcp_upgrade_spec rt env cfg s of
      Some (Passed, s') \<Rightarrow> upgrade_skip cfg = None \<and> known_topology cfg ''osd-gcp''
        \<and> (\<exists>tc w. IsOSDGCP env (NewTestContext cfg) (run_world s) = (True, tc, w)
             \<and> upgraded rt (ocm env) cfg ClusterPolicies
                 (InitiateClusterUpgrade rt (ocm env) (ClusterID cfg) (UpgradeTargetVersion cfg)) (90 * minute) (s\<lparr>run_world := w\<rparr>))
    | _ \<Rightarrow> True)"
proof -
  have 1: "upgrade_skip cfg = None
      \<and> upgraded rt (ocm env) cfg ControlPlanePolicies
          (InitiateControlPlaneUpgrade rt (ocm env) (ClusterID cfg) (UpgradeTargetVersion cfg)) (60 * minute) s"
    if "control_plane_upgrade_spec rt env cfg s = Some (Passed, s')" for s'
    using that by (auto simp: control_plane_upgrade_spec_def split: option.splits intro: upgrade_steps_passed control_plane_scheduled)
  show ?thesis
    using 1 cluster_upgrade_passed [of _ "''classic''" env rt cfg s] cluster_upgrade_passed [of _ "''osd-gcp''" env rt cfg s]
    by (auto simp: classic_upgrade_spec_def osd_gcp_upgrade_spec_def IsClassic_def IsOSDGCP_def split: option.splits spec_outcome.splits)
qed

end
