(* ===== verification/Labels.thy ===== *)
theory Labels
  imports Go_Prelude
begin

text \<open>
  pkg/labels/labels.go: the labels of the specs, each the text that the variable passes to ginkgo.Label. Runs are selected by filters over these texts (LABEL\_FILTER), in which a filter
  \<open>Key:Value\<close> names one label: this needs texts that differ and that hold no operator of the filter language.
\<close>

section \<open>The labels\<close>

text \<open>Importance of test cases.\<close>

definition Label_Low :: string where "Label_Low = ''Importance:Low''"
definition Label_Medium :: string where "Label_Medium = ''Importance:Medium''"
definition Label_High :: string where "Label_High = ''Importance:High''"
definition Label_Critical :: string where "Label_Critical = ''Importance:Critical''"

text \<open>Positivity of test cases.\<close>

definition Label_Positive :: string where "Label_Positive = ''Positivity:Positive''"
definition Label_Negative :: string where "Label_Negative = ''Positivity:Negative''"

text \<open>Speed of test cases.\<close>

definition Label_Slow :: string where "Label_Slow = ''Speed:Slow''"

text \<open>Platform labels (filter by product).\<close>

definition Label_HCP :: string where "Label_HCP = ''Platform:HCP''"
definition Label_Classic :: string where "Label_Classic = ''Platform:Classic''"
definition Label_OSDAWS :: string where "Label_OSDAWS = ''Platform:OSD-AWS''"
definition Label_OSDGCP :: string where "Label_OSDGCP = ''Platform:OSD-GCP''"

text \<open>Infrastructure access labels.\<close>

definition Label_MCAccess :: string where "Label_MCAccess = ''Access:MC''"
definition Label_PublicAPIAccess :: string where "Label_PublicAPIAccess = ''Access:PublicAPI''"
definition Label_BackplaneAccess :: string where "Label_BackplaneAccess = ''Access:BackPlane''"

text \<open>Lifecycle labels.\<close>

definition Label_Informing :: string where "Label_Informing = ''Lifecycle:informing''"

text \<open>Feature labels (cluster-level features; use to include/exclude feature-specific test suites).\<close>

definition Label_FIPS :: string where "Label_FIPS = ''Feature:FIPS''"
definition Label_KMS :: string where "Label_KMS = ''Feature:KMS''"

text \<open>Test area categories.\<close>

definition Label_ClusterLifecycle :: string where "Label_ClusterLifecycle = ''Area:ClusterLifecycle''"
definition Label_DataPlane :: string where "Label_DataPlane = ''Area:DataPlane''"
definition Label_ManagedService :: string where "Label_ManagedService = ''Area:ManagedService''"
definition Label_CustomerFeatures :: string where "Label_CustomerFeatures = ''Area:CustomerFeatures''"
definition Label_Infrastructure :: string where "Label_Infrastructure = ''Area:Infrastructure''"
definition Label_ManagementPlane :: string where "Label_ManagementPlane = ''Area:ManagementPlane''"
definition Label_Upgrade :: string where "Label_Upgrade = ''Area:Upgrade''"

section \<open>What a filter relies on\<close>

definition all_labels :: "string list" where
  "all_labels =
    [Label_Low, Label_Medium, Label_High, Label_Critical, Label_Positive, Label_Negative, Label_Slow, Label_HCP,
     Label_Classic, Label_OSDAWS, Label_OSDGCP, Label_MCAccess, Label_PublicAPIAccess, Label_BackplaneAccess,
     Label_Informing, Label_FIPS, Label_KMS, Label_ClusterLifecycle, Label_DataPlane, Label_ManagedService,
     Label_CustomerFeatures, Label_Infrastructure, Label_ManagementPlane, Label_Upgrade]"

text \<open>A category and a value around one colon, without the characters that the filter language reserves.\<close>

definition label_ok :: "string \<Rightarrow> bool" where
  "label_ok t \<longleftrightarrow> (case dropWhile (\<lambda>x. x \<noteq> CHR '':'') t of
       [] \<Rightarrow> False
     | _ # v \<Rightarrow> takeWhile (\<lambda>x. x \<noteq> CHR '':'') t \<noteq> [] \<and> v \<noteq> [] \<and> CHR '':'' \<notin> set v)
     \<and> list_all (\<lambda>x. x \<notin> {CHR ''&'', CHR ''|'', CHR ''!'', CHR ''('', CHR '')'', CHR '','', CHR ''/'', CHR '' ''}) t"

lemma labels_distinct_ok: "distinct all_labels \<and> list_all label_ok all_labels"
  by code_simp

end
