(* ===== verification/Ci_Status.thy ===== *)
theory Ci_Status
  imports Go_Prelude
begin

text \<open>
  pkg/config/ci_status_jobs.go, the types of the registry of CI jobs, and the checks of ci_status_jobs_test.go that keep the
  registry well-formed. The test that loads the file reads YAML, which is not modelled: a registry is a value of
  \<open>CIStatusConfig\<close>. A check is the list of the texts that it reports with t.Errorf, in order; the test passes when
  the list is empty. A pointer to bool or to a team is an option.
\<close>

section \<open>The registry\<close>

record JiraTeam =
  jt_ID :: string
  jt_Name :: string
  jt_SlackChannel :: string
  jt_SlackAlias :: string

record StatusJob =
  sj_Name :: string
  sj_ProwJob :: string
  sj_Gating :: "bool option"
  sj_Informing :: "bool option"
  sj_Team :: "JiraTeam option"
  sj_Labels :: "string list"

record StatusCategory =
  sc_ID :: string
  sc_Name :: string
  sc_Scope :: string
  sc_Components :: "string list"
  sc_ProwFilter :: string
  sc_Gating :: bool
  sc_Team :: "JiraTeam option"
  sc_Labels :: "string list"
  sc_Jobs :: "StatusJob list"

record CIStatusConfig =
  cs_SippyURL :: string
  cs_ComponentProwFilters :: "string \<rightharpoonup> string"
  cs_Categories :: "StatusCategory list"

section \<open>The checks\<close>

definition job_field_errors :: "string \<Rightarrow> nat \<times> StatusJob \<Rightarrow> string list" where
  "job_field_errors catID = (\<lambda>(j, job).
     (if sj_Name job = [] then [fmt_Sprintf ''category %s job[%d]: missing name'' [FStr catID, FInt (int j)]] else [])
     @ (if sj_ProwJob job = [] then [fmt_Sprintf ''category %s job[%d]: missing prow_job'' [FStr catID, FInt (int j)]] else []))"

definition category_field_errors :: "nat \<times> StatusCategory \<Rightarrow> string list" where
  "category_field_errors = (\<lambda>(i, cat).
     (if sc_ID cat = [] then [fmt_Sprintf ''category[%d]: missing id'' [FInt (int i)]] else [])
     @ (if sc_Name cat = [] then [fmt_Sprintf ''category[%d] (%s): missing name'' [FInt (int i), FStr (sc_ID cat)]] else [])
     @ (if sc_Jobs cat = [] then [fmt_Sprintf ''category %s: no jobs defined'' [FStr (sc_ID cat)]] else [])
     @ concat (map (job_field_errors (sc_ID cat)) (enumerate 0 (sc_Jobs cat))))"

definition TestCIStatusJobsRequiredFields :: "CIStatusConfig \<Rightarrow> string list" where
  "TestCIStatusJobsRequiredFields cfg = concat (map category_field_errors (enumerate 0 (cs_Categories cfg)))"

text \<open>The map from seen names to the category that had them is threaded through the loops, also after a duplicate.\<close>

fun id_duplicates :: "(string \<Rightarrow> bool) \<Rightarrow> StatusCategory list \<Rightarrow> string list" where
  "id_duplicates catIDs [] = []"
| "id_duplicates catIDs (cat # cats) =
     (if catIDs (sc_ID cat) then [fmt_Sprintf ''duplicate category id: %s'' [FStr (sc_ID cat)]] else [])
     @ id_duplicates (catIDs(sc_ID cat := True)) cats"

fun job_duplicates :: "string \<Rightarrow> (string \<rightharpoonup> string) \<Rightarrow> StatusJob list \<Rightarrow> string list \<times> (string \<rightharpoonup> string)" where
  "job_duplicates catID prowJobs [] = ([], prowJobs)"
| "job_duplicates catID prowJobs (job # jobs) =
     (case job_duplicates catID (prowJobs(sj_ProwJob job \<mapsto> catID)) jobs of (errs, prowJobs') \<Rightarrow>
        ((case prowJobs (sj_ProwJob job) of
            None \<Rightarrow> []
          | Some prev \<Rightarrow> [fmt_Sprintf ''duplicate prow_job %s (in %s and %s)'' [FStr (sj_ProwJob job), FStr prev, FStr catID]])
         @ errs, prowJobs'))"

fun prow_duplicates :: "(string \<rightharpoonup> string) \<Rightarrow> StatusCategory list \<Rightarrow> string list" where
  "prow_duplicates prowJobs [] = []"
| "prow_duplicates prowJobs (cat # cats) =
     (case job_duplicates (sc_ID cat) prowJobs (sc_Jobs cat) of (errs, prowJobs') \<Rightarrow> errs @ prow_duplicates prowJobs' cats)"

definition TestCIStatusJobsNoDuplicates :: "CIStatusConfig \<Rightarrow> string list" where
  "TestCIStatusJobsNoDuplicates cfg =
     id_duplicates (\<lambda>x. False) (cs_Categories cfg) @ prow_duplicates (\<lambda>x. None) (cs_Categories cfg)"

definition registry_jobs :: "CIStatusConfig \<Rightarrow> (StatusCategory \<times> StatusJob) list" where
  "registry_jobs cfg = concat (map (\<lambda>cat. map (Pair cat) (sc_Jobs cat)) (cs_Categories cfg))"

definition TestCIStatusJobsNamingConvention :: "CIStatusConfig \<Rightarrow> string list" where
  "TestCIStatusJobsNamingConvention cfg =
     concat (map (\<lambda>(cat, job).
       if has_prefix (sj_ProwJob job) ''periodic-ci-'' then []
       else [fmt_Sprintf ''category %s job %s: prow_job %q does not start with periodic-ci-''
               [FStr (sc_ID cat), FStr (sj_Name job), FStr (sj_ProwJob job)]]) (registry_jobs cfg))"

text \<open>A job that says nothing gates when its category does.\<close>

definition gates :: "StatusCategory \<Rightarrow> StatusJob \<Rightarrow> bool" where
  "gates cat job = (case sj_Gating job of None \<Rightarrow> sc_Gating cat | Some g \<Rightarrow> g)"

definition regional :: "string list" where
  "regional =
     [''periodic-ci-openshift-online-rosa-e2e-main-ocm-fvt-rosa-hcp-integration-ocm-fvt-periodic-cs-rosa-hcp-ad-integration-regional-main'',
      ''periodic-ci-openshift-rosa-master-e2e-rosa-hcp-advanced-regional-f3'']"

definition regional_job_errors :: "StatusCategory \<times> StatusJob \<Rightarrow> string list" where
  "regional_job_errors = (\<lambda>(cat, job).
     (if gates cat job then [fmt_Sprintf ''%s: Seaplane regional job must not gate promotion'' [FStr (sj_ProwJob job)]] else [])
     @ (if sj_Informing job = Some True then []
        else [fmt_Sprintf ''%s: Seaplane regional job must set informing: true to stay out of pass rates'' [FStr (sj_ProwJob job)]]))"

definition TestCIStatusSeaplaneRegionalJobsAreInforming :: "CIStatusConfig \<Rightarrow> string list" where
  "TestCIStatusSeaplaneRegionalJobsAreInforming cfg =
     (let jobs = filter (\<lambda>cj. sj_ProwJob (snd cj) \<in> set regional) (registry_jobs cfg) in
      concat (map regional_job_errors jobs)
      @ (if length jobs = length regional then []
         else [fmt_Sprintf ''expected %d Seaplane regional jobs in the registry, found %d''
                 [FInt (int (length regional)), FInt (int (length jobs))]]))"

section \<open>What the checks accept\<close>

lemma enumerate_list_all: "list_all (\<lambda>(i, x). P x) (enumerate n xs) = list_all P xs"
  by (induction xs arbitrary: n) auto

lemma concat_map_Nil: "concat (map f xs) = [] \<longleftrightarrow> list_all (\<lambda>x. f x = []) xs"
  by (induction xs) auto

definition fields_present :: "StatusCategory \<Rightarrow> bool" where
  "fields_present cat \<longleftrightarrow> sc_ID cat \<noteq> [] \<and> sc_Name cat \<noteq> [] \<and> sc_Jobs cat \<noteq> []
     \<and> list_all (\<lambda>job. sj_Name job \<noteq> [] \<and> sj_ProwJob job \<noteq> []) (sc_Jobs cat)"

lemma job_field_errors_Nil: "job_field_errors c ij = [] \<longleftrightarrow> (case ij of (i, job) \<Rightarrow> sj_Name job \<noteq> [] \<and> sj_ProwJob job \<noteq> [])"
  by (simp add: job_field_errors_def split: prod.splits)

lemma category_field_errors_Nil: "category_field_errors ic = [] \<longleftrightarrow> (case ic of (i, cat) \<Rightarrow> fields_present cat)"
  by (auto simp: category_field_errors_def fields_present_def concat_map_Nil job_field_errors_Nil enumerate_list_all simp del: concat_eq_Nil_conv)

lemma id_duplicates_Nil:
  "id_duplicates seen cats = [] \<longleftrightarrow> distinct (map sc_ID cats) \<and> (\<forall>cat \<in> set cats. \<not> seen (sc_ID cat))"
proof (induction seen cats rule: id_duplicates.induct)
  case (2 seen cat cats)
  have "(\<forall>c \<in> set cats. \<not> (seen(sc_ID cat := True)) (sc_ID c)) \<longleftrightarrow> sc_ID cat \<notin> sc_ID ` set cats \<and> (\<forall>c \<in> set cats. \<not> seen (sc_ID c))"
    by (auto simp: image_iff)
  then show ?case using 2 by (simp del: fun_upd_apply) blast
qed simp

text \<open>The map after a category, and when its loop reports nothing.\<close>

lemma job_duplicates_map:
  "job_duplicates c seen jobs = (errs, seen') \<Longrightarrow> seen' x = (if x \<in> sj_ProwJob ` set jobs then Some c else seen x)"
proof (induction c seen jobs arbitrary: errs rule: job_duplicates.induct)
  case (2 c seen job jobs)
  then obtain e where "job_duplicates c (seen(sj_ProwJob job \<mapsto> c)) jobs = (e, seen')" by (auto split: prod.splits)
  from 2(1) [OF this] show ?case by auto
qed simp

lemma job_duplicates_Nil:
  "fst (job_duplicates c seen jobs) = [] \<longleftrightarrow> distinct (map sj_ProwJob jobs) \<and> (\<forall>job \<in> set jobs. seen (sj_ProwJob job) = None)"
proof (induction c seen jobs rule: job_duplicates.induct)
  case (2 c seen job jobs)
  have "(\<forall>j \<in> set jobs. (seen(sj_ProwJob job \<mapsto> c)) (sj_ProwJob j) = None)
      \<longleftrightarrow> sj_ProwJob job \<notin> sj_ProwJob ` set jobs \<and> (\<forall>j \<in> set jobs. seen (sj_ProwJob j) = None)"
    by (auto simp: image_iff)
  then show ?case using 2 by (auto simp del: fun_upd_apply split: prod.splits option.splits)
qed simp

lemma prow_duplicates_Nil:
  "prow_duplicates seen cats = []
    \<longleftrightarrow> distinct (map sj_ProwJob (concat (map sc_Jobs cats))) \<and> (\<forall>job \<in> set (concat (map sc_Jobs cats)). seen (sj_ProwJob job) = None)"
proof (induction seen cats rule: prow_duplicates.induct)
  case (2 seen cat cats)
  obtain errs seen' where j: "job_duplicates (sc_ID cat) seen (sc_Jobs cat) = (errs, seen')" by fastforce
  note e = job_duplicates_Nil [of "sc_ID cat" seen "sc_Jobs cat", unfolded j fst_conv]
  have "(\<forall>job \<in> set (concat (map sc_Jobs cats)). seen' (sj_ProwJob job) = None)
      \<longleftrightarrow> sj_ProwJob ` set (sc_Jobs cat) \<inter> sj_ProwJob ` set (concat (map sc_Jobs cats)) = {}
        \<and> (\<forall>job \<in> set (concat (map sc_Jobs cats)). seen (sj_ProwJob job) = None)"
    unfolding job_duplicates_map [OF j] by (auto simp: image_iff split: if_splits) metis+
  then show ?case using 2 [OF j [symmetric]] e by (simp add: j del: set_concat) (auto simp del: set_concat)
qed simp

lemma registry_jobs_snd: "map snd (registry_jobs cfg) = concat (map sc_Jobs (cs_Categories cfg))"
  by (simp add: registry_jobs_def map_concat comp_def)

lemma no_duplicates_verdict:
  "TestCIStatusJobsNoDuplicates cfg = []
    \<longleftrightarrow> distinct (map sc_ID (cs_Categories cfg)) \<and> distinct (map (\<lambda>cj. sj_ProwJob (snd cj)) (registry_jobs cfg))"
proof -
  have "map (\<lambda>cj. sj_ProwJob (snd cj)) (registry_jobs cfg) = map sj_ProwJob (concat (map sc_Jobs (cs_Categories cfg)))"
    by (simp flip: registry_jobs_snd)
  then show ?thesis
    by (simp add: TestCIStatusJobsNoDuplicates_def id_duplicates_Nil prow_duplicates_Nil list_all_iff)
qed

lemma naming_verdict:
  "TestCIStatusJobsNamingConvention cfg = [] \<longleftrightarrow> (\<forall>(cat, job) \<in> set (registry_jobs cfg). prefix ''periodic-ci-'' (sj_ProwJob job))"
  by (auto simp: TestCIStatusJobsNamingConvention_def has_prefix_def split: if_splits)

lemma regional_verdict:
  "TestCIStatusSeaplaneRegionalJobsAreInforming cfg = []
    \<longleftrightarrow> (\<forall>(cat, job) \<in> set (registry_jobs cfg). sj_ProwJob job \<in> set regional \<longrightarrow> \<not> gates cat job \<and> sj_Informing job = Some True)
      \<and> length (filter (\<lambda>cj. sj_ProwJob (snd cj) \<in> set regional) (registry_jobs cfg)) = length regional"
  by (auto simp: TestCIStatusSeaplaneRegionalJobsAreInforming_def Let_def regional_job_errors_def split: if_splits)

text \<open>
  Counting decides membership only where nothing is repeated: a list without repetition has as many entries in a set as the
  set has elements exactly when it has them all.
\<close>

lemma distinct_filter_length:
  assumes "distinct xs" and "distinct ys"
  shows "length (filter (\<lambda>x. x \<in> set ys) xs) = length ys \<longleftrightarrow> set ys \<subseteq> set xs"
proof -
  have f: "length (filter (\<lambda>x. x \<in> set ys) xs) = card (set xs \<inter> set ys)"
    using distinct_card [of "filter (\<lambda>x. x \<in> set ys) xs"] assms(1) by (simp add: Int_def)
  show ?thesis
  proof
    assume "length (filter (\<lambda>x. x \<in> set ys) xs) = length ys"
    then have "set xs \<inter> set ys = set ys" using f distinct_card [OF assms(2)] by (intro card_subset_eq) simp_all
    then show "set ys \<subseteq> set xs" by blast
  next
    assume "set ys \<subseteq> set xs"
    then have "set xs \<inter> set ys = set ys" by blast
    then show "length (filter (\<lambda>x. x \<in> set ys) xs) = length ys" using f distinct_card [OF assms(2)] by simp
  qed
qed

definition registered_informing :: "CIStatusConfig \<Rightarrow> string \<Rightarrow> bool" where
  "registered_informing cfg name \<longleftrightarrow>
     list_ex (\<lambda>(cat, job). sj_ProwJob job = name \<and> (sj_Gating job = Some False \<or> sj_Gating job = None \<and> \<not> sc_Gating cat)
       \<and> sj_Informing job = Some True) (registry_jobs cfg)"

lemma gates_iff: "gates cat job \<longleftrightarrow> \<not> (sj_Gating job = Some False \<or> sj_Gating job = None \<and> \<not> sc_Gating cat)"
  by (auto simp: gates_def split: option.splits)

lemma distinct_regional: "distinct regional"
  by code_simp

lemma same_job: "\<lbrakk>distinct (map f xs); x \<in> set xs; y \<in> set xs; f x = f y\<rbrakk> \<Longrightarrow> x = y"
  by (simp add: distinct_map inj_on_def)

lemma regional_registered:
  assumes d: "distinct (map (\<lambda>cj. sj_ProwJob (snd cj)) (registry_jobs cfg))"
  shows "TestCIStatusSeaplaneRegionalJobsAreInforming cfg = [] \<longleftrightarrow> list_all (registered_informing cfg) regional"
proof -
  define names where "names = map (\<lambda>cj. sj_ProwJob (snd cj)) (registry_jobs cfg)"
  have "length (filter (\<lambda>cj. sj_ProwJob (snd cj) \<in> set regional) (registry_jobs cfg)) = length (filter (\<lambda>x. x \<in> set regional) names)"
    by (simp add: names_def filter_map comp_def)
  then have count: "length (filter (\<lambda>cj. sj_ProwJob (snd cj) \<in> set regional) (registry_jobs cfg)) = length regional
      \<longleftrightarrow> set regional \<subseteq> set names"
    using distinct_filter_length [OF d distinct_regional] by (simp add: names_def)
  show ?thesis
  proof
    assume "TestCIStatusSeaplaneRegionalJobsAreInforming cfg = []"
    then have r: "set regional \<subseteq> set names" "\<forall>(cat, job) \<in> set (registry_jobs cfg). sj_ProwJob job \<in> set regional \<longrightarrow> \<not> gates cat job \<and> sj_Informing job = Some True"
      using count by (simp_all add: regional_verdict)
    show "list_all (registered_informing cfg) regional"
      unfolding list_all_iff
    proof
      fix n assume n: "n \<in> set regional"
      then obtain cat job where "(cat, job) \<in> set (registry_jobs cfg)" "sj_ProwJob job = n" using r(1) by (auto simp: names_def)
      then show "registered_informing cfg n" using r(2) n by (auto simp: registered_informing_def list_ex_iff gates_iff)
    qed
  next
    assume l: "list_all (registered_informing cfg) regional"
    then have "set regional \<subseteq> set names" by (force simp: list_all_iff registered_informing_def list_ex_iff names_def)
    moreover have "\<not> gates cat job \<and> sj_Informing job = Some True"
      if j: "(cat, job) \<in> set (registry_jobs cfg)" "sj_ProwJob job \<in> set regional" for cat job
    proof -
      obtain c' j' where "(c', j') \<in> set (registry_jobs cfg)" "sj_ProwJob j' = sj_ProwJob job" "\<not> gates c' j'" "sj_Informing j' = Some True"
        using l j(2) by (auto simp: list_all_iff registered_informing_def list_ex_iff gates_iff)
      then show ?thesis using same_job [OF d, of "(c', j')" "(cat, job)"] j(1) by simp
    qed
    ultimately show "TestCIStatusSeaplaneRegionalJobsAreInforming cfg = []" using count by (auto simp: regional_verdict)
  qed
qed

text \<open>
  The four offline checks of the registry report nothing exactly when every category and job has its required fields,
  no category id and no Prow job occurs twice in the whole registry, every Prow job is a periodic one, and each of the two
  regional jobs is registered, does not gate promotion, its own setting going before that of its category, and is
  informing. The regional check only counts occurrences: that both jobs are there, and not one of them twice, rests
  on the check for duplicates.
\<close>

theorem registry_checks_verdict:
  "TestCIStatusJobsRequiredFields cfg = [] \<and> TestCIStatusJobsNoDuplicates cfg = [] \<and> TestCIStatusJobsNamingConvention cfg = []
     \<and> TestCIStatusSeaplaneRegionalJobsAreInforming cfg = []
   \<longleftrightarrow> list_all fields_present (cs_Categories cfg)
     \<and> distinct (map sc_ID (cs_Categories cfg)) \<and> distinct (map (\<lambda>cj. sj_ProwJob (snd cj)) (registry_jobs cfg))
     \<and> list_all (\<lambda>(cat, job). prefix ''periodic-ci-'' (sj_ProwJob job)) (registry_jobs cfg)
     \<and> list_all (registered_informing cfg) regional"
proof -
  have "TestCIStatusJobsRequiredFields cfg = [] \<longleftrightarrow> list_all fields_present (cs_Categories cfg)"
    by (simp add: TestCIStatusJobsRequiredFields_def concat_map_Nil category_field_errors_Nil enumerate_list_all del: concat_eq_Nil_conv)
  then show ?thesis using no_duplicates_verdict [of cfg] naming_verdict [of cfg] regional_registered [of cfg] by (auto simp: list_all_iff)
qed

text \<open>A registry that passes; its first category gates, and the regional job of it opts out.\<close>

definition sample_registry :: CIStatusConfig where
  "sample_registry =
     (let job = \<lambda>n p g i. \<lparr>sj_Name = n, sj_ProwJob = p, sj_Gating = g, sj_Informing = i, sj_Team = None, sj_Labels = []\<rparr>;
          cat = \<lambda>i g js. \<lparr>sc_ID = i, sc_Name = i, sc_Scope = ''platform'', sc_Components = [], sc_ProwFilter = [], sc_Gating = g,
            sc_Team = None, sc_Labels = [], sc_Jobs = js\<rparr> in
      \<lparr>cs_SippyURL = [], cs_ComponentProwFilters = (\<lambda>x. None), cs_Categories =
        [cat ''stg'' True [job ''HCP'' ''periodic-ci-hcp'' None None, job ''AD'' (regional ! 0) (Some False) (Some True)],
         cat ''osd'' False [job ''Adv'' (regional ! 1) None (Some True)]]\<rparr>)"

lemma sample_registry_passes:
  "TestCIStatusJobsRequiredFields sample_registry = []" "TestCIStatusJobsNoDuplicates sample_registry = []"
  "TestCIStatusJobsNamingConvention sample_registry = []" "TestCIStatusSeaplaneRegionalJobsAreInforming sample_registry = []"
  by code_simp+

end
