(* ===== verification/Ginkgo.thy ===== *)
theory Ginkgo
  imports Test_Context Workloads
begin

text \<open>
  What the specs of test/e2e use of Ginkgo and Gomega. The body of a spec is a list of steps on the state of the spec:
  its test context, the outside world with the text written to GinkgoWriter, the text of the last By, and the
  cleanups that were deferred, the last one first, which is the order in which Ginkgo runs them after the body. A
  step that skips, fails or panics ends the body; \<open>None\<close> means that the body goes on.

  Eventually of Gomega is outside the repository. It is the parameter \<open>eventually\<close> of the specs, and \<open>eventually_ok\<close> states
  what its documentation promises: it makes an attempt again and again until one passes, and when it gives up,
  an attempt had failed. A closure that assigns a captured variable is an attempt that yields the assigned value.
\<close>

section \<open>Steps\<close>

datatype stop =
    Skipping string
  | Failing string "go_error option" \<comment> \<open>the last By; the error, when the expectation was about one\<close>
  | Panicked \<comment> \<open>a method of a nil client was called, or a nil pointer read\<close>

type_synonym 'w cleanup = "bool \<Rightarrow> 'w \<Rightarrow> go_error option \<times> 'w" \<comment> \<open>CurrentSpecReport().Failed() when it runs\<close>

record ('c, 'w) spec_state =
  sp_tc :: 'c
  sp_run :: "'w run"
  sp_step :: string
  sp_cleanups :: "'w cleanup list"

type_synonym ('c, 'w) step = "('c, 'w) spec_state \<Rightarrow> stop option \<times> ('c, 'w) spec_state"

definition spec_start :: "'c \<Rightarrow> 'w run \<Rightarrow> ('c, 'w) spec_state" where
  "spec_start tc r = \<lparr>sp_tc = tc, sp_run = r, sp_step = [], sp_cleanups = []\<rparr>"

abbreviation world_of :: "('c, 'w) spec_state \<Rightarrow> 'w" where
  "world_of s \<equiv> run_world (sp_run s)"

definition in_world :: "'w \<Rightarrow> ('c, 'w) spec_state \<Rightarrow> ('c, 'w) spec_state" where
  "in_world w s = s\<lparr>sp_run := (sp_run s)\<lparr>run_world := w\<rparr>\<rparr>"

fun steps :: "('c, 'w) step list \<Rightarrow> ('c, 'w) step" where
  "steps [] s = (None, s)"
| "steps (m # ms) s = (case m s of (None, s') \<Rightarrow> steps ms s' | (Some e, s') \<Rightarrow> (Some e, s'))"

lemma steps_last [simp]: "steps [m] = m"
  by (rule ext) (simp split: prod.splits option.splits)

definition stop_with :: "stop \<Rightarrow> ('c, 'w) step" where
  "stop_with e s = (Some e, s)"

definition By :: "string \<Rightarrow> ('c, 'w) step" where
  "By t s = (None, s\<lparr>sp_step := t\<rparr>)"

definition Writer_Printf :: "string \<Rightarrow> fmt_arg list \<Rightarrow> ('c, 'w) step" where
  "Writer_Printf f as s = (None, s\<lparr>sp_run := Printf f as (sp_run s)\<rparr>)"

definition DeferCleanup :: "'w cleanup \<Rightarrow> ('c, 'w) step" where
  "DeferCleanup c s = (None, s\<lparr>sp_cleanups := c # sp_cleanups s\<rparr>)"

text \<open>Reading the context; a call on the world; a call that also writes text; a method of the context, which may change it.\<close>

definition with_context :: "('c \<Rightarrow> ('c, 'w) step) \<Rightarrow> ('c, 'w) step" where
  "with_context k s = k (sp_tc s) s"

definition call :: "('w \<Rightarrow> 'x \<times> 'w) \<Rightarrow> ('x \<Rightarrow> ('c, 'w) step) \<Rightarrow> ('c, 'w) step" where
  "call f k s = (case f (world_of s) of (x, w) \<Rightarrow> k x (in_world w s))"

definition call_writing :: "('w run \<Rightarrow> 'x \<times> 'w run) \<Rightarrow> ('x \<Rightarrow> ('c, 'w) step) \<Rightarrow> ('c, 'w) step" where
  "call_writing f k s = (case f (sp_run s) of (x, r) \<Rightarrow> k x (s\<lparr>sp_run := r\<rparr>))"

definition call_context :: "('c \<Rightarrow> 'w \<Rightarrow> 'x \<times> 'c \<times> 'w) \<Rightarrow> ('x \<Rightarrow> ('c, 'w) step) \<Rightarrow> ('c, 'w) step" where
  "call_context f k s = (case f (sp_tc s) (world_of s) of (x, tc, w) \<Rightarrow> k x (in_world w (s\<lparr>sp_tc := tc\<rparr>)))"

text \<open>The expectations: a condition, no error, a value without an error.\<close>

definition skip_if :: "bool \<Rightarrow> string \<Rightarrow> ('c, 'w) step" where
  "skip_if b why s = (if b then Some (Skipping why) else None, s)"

definition expect_that :: "bool \<Rightarrow> ('c, 'w) step" where
  "expect_that b s = (if b then None else Some (Failing (sp_step s) None), s)"

definition no_error :: "go_error option \<Rightarrow> ('c, 'w) step" where
  "no_error e s = (case e of None \<Rightarrow> None | Some err \<Rightarrow> Some (Failing (sp_step s) (Some err)), s)"

definition value_or_fail :: "('x \<Rightarrow> ('c, 'w) step) \<Rightarrow> go_error + 'x \<Rightarrow> ('c, 'w) step" where
  "value_or_fail k q = (case q of Inl err \<Rightarrow> no_error (Some err) | Inr x \<Rightarrow> k x)"

definition expect_nil :: "('w \<Rightarrow> go_error option \<times> 'w) \<Rightarrow> ('c, 'w) step" where
  "expect_nil f = call f no_error"

definition expect_value :: "('w \<Rightarrow> (go_error + 'x) \<times> 'w) \<Rightarrow> ('x \<Rightarrow> ('c, 'w) step) \<Rightarrow> ('c, 'w) step" where
  "expect_value f k = call f (value_or_fail k)"

definition expect_init :: "('c \<Rightarrow> 'w \<Rightarrow> go_error option \<times> 'c \<times> 'w) \<Rightarrow> ('c, 'w) step" where
  "expect_init f = call_context f no_error"

text \<open>A client of the context; calling a method of one that is nil panics.\<close>

definition use_client :: "('c \<Rightarrow> 'k option) \<Rightarrow> ('k \<Rightarrow> ('c, 'w) step) \<Rightarrow> ('c, 'w) step" where
  "use_client sel k s = (case sel (sp_tc s) of None \<Rightarrow> (Some Panicked, s) | Some c \<Rightarrow> k c s)"

section \<open>Eventually\<close>

type_synonym ('x, 'w) attempt = "'w \<Rightarrow> 'x option \<times> 'w" \<comment> \<open>what a passing attempt yields\<close>
type_synonym ('x, 'w) eventually = "int option \<Rightarrow> int option \<Rightarrow> ('x, 'w) attempt \<Rightarrow> ('x, 'w) attempt"
  \<comment> \<open>WithTimeout, WithPolling\<close>

definition attempt_condition :: "('x, 'w) attempt \<Rightarrow> 'w condition_fn" where
  "attempt_condition f w = (case f w of (x, w') \<Rightarrow> ((x \<noteq> None, None), w'))"

definition eventually_ok :: "('w \<Rightarrow> 'w \<Rightarrow> bool) \<Rightarrow> ('x, 'w) eventually \<Rightarrow> bool" where
  "eventually_ok passes ev \<longleftrightarrow> (\<forall>timeout interval f w. \<exists>u. polled passes (attempt_condition f) w u
     \<and> (case ev timeout interval f w of (Some x, w') \<Rightarrow> f u = (Some x, w') | (None, w') \<Rightarrow> fst (f u) = None))"

definition Succeed :: "('w \<Rightarrow> go_error option \<times> 'w) \<Rightarrow> (string, 'w) attempt" where
  "Succeed f w = (case f w of (None, w') \<Rightarrow> (Some [], w') | (Some err, w') \<Rightarrow> (None, w'))"

definition Yields :: "('w \<Rightarrow> (go_error + string) \<times> 'w) \<Rightarrow> (string, 'w) attempt" where
  "Yields f w = (case f w of (Inr x, w') \<Rightarrow> (Some x, w') | (Inl err, w') \<Rightarrow> (None, w'))"

definition expect_eventually :: "('w \<Rightarrow> 'x option \<times> 'w) \<Rightarrow> ('x \<Rightarrow> ('c, 'w) step) \<Rightarrow> ('c, 'w) step" where
  "expect_eventually waiting k = call waiting (\<lambda>r. case r of None \<Rightarrow> expect_that False | Some x \<Rightarrow> k x)"

text \<open>The parts of a state.\<close>

lemma in_world_simps [simp]:
  "world_of (in_world w s) = w" "sp_tc (in_world w s) = sp_tc s" "sp_step (in_world w s) = sp_step s"
  "sp_cleanups (in_world w s) = sp_cleanups s" "in_world w (in_world w' s) = in_world w s"
  by (simp_all add: in_world_def)

section \<open>A body that passes, or panics\<close>

text \<open>
  \<open>passes_to m s s'\<close>: the step goes on, and from \<open>s\<close> it leads to \<open>s'\<close>. The rules take a passed body apart, down
  to the calls that it made; those of \<open>panics\<close> look for a panic the same way.
\<close>

definition passes_to :: "('c, 'w) step \<Rightarrow> ('c, 'w) spec_state \<Rightarrow> ('c, 'w) spec_state \<Rightarrow> bool" where
  "passes_to m s s' \<longleftrightarrow> m s = (None, s')"

definition panics :: "('c, 'w) step \<Rightarrow> ('c, 'w) spec_state \<Rightarrow> bool" where
  "panics m s \<longleftrightarrow> fst (m s) = Some Panicked"

named_theorems passing
named_theorems panicking

lemma passes_to_steps [passing]:
  "passes_to (steps []) s t \<longleftrightarrow> t = s"
  "passes_to (steps (m # ms)) s t \<longleftrightarrow> (\<exists>s'. passes_to m s s' \<and> passes_to (steps ms) s' t)"
  by (auto simp: passes_to_def split: prod.splits option.splits)

lemma passes_to_simple [passing]:
  "passes_to (stop_with p) s t \<longleftrightarrow> False"
  "passes_to (By txt) s t \<longleftrightarrow> t = s\<lparr>sp_step := txt\<rparr>"
  "passes_to (Writer_Printf f as) s t \<longleftrightarrow> t = s\<lparr>sp_run := Printf f as (sp_run s)\<rparr>"
  "passes_to (DeferCleanup c) s t \<longleftrightarrow> t = s\<lparr>sp_cleanups := c # sp_cleanups s\<rparr>"
  "passes_to (skip_if b why) s t \<longleftrightarrow> \<not> b \<and> t = s"
  "passes_to (expect_that b) s t \<longleftrightarrow> b \<and> t = s"
  "passes_to (no_error e) s t \<longleftrightarrow> e = None \<and> t = s"
  by (auto simp: passes_to_def stop_with_def By_def Writer_Printf_def DeferCleanup_def skip_if_def expect_that_def no_error_def
      split: option.splits)

lemma passes_to_calls [passing]:
  "passes_to (with_context k) s t \<longleftrightarrow> passes_to (k (sp_tc s)) s t"
  "passes_to (call f c) s t \<longleftrightarrow> (\<exists>x w. f (world_of s) = (x, w) \<and> passes_to (c x) (in_world w s) t)"
  "passes_to (call_writing h c) s t \<longleftrightarrow> (\<exists>x r. h (sp_run s) = (x, r) \<and> passes_to (c x) (s\<lparr>sp_run := r\<rparr>) t)"
  "passes_to (call_context g c) s t \<longleftrightarrow>
     (\<exists>x tc w. g (sp_tc s) (world_of s) = (x, tc, w) \<and> passes_to (c x) (in_world w (s\<lparr>sp_tc := tc\<rparr>)) t)"
  "passes_to (use_client sel j) s t \<longleftrightarrow> (\<exists>x. sel (sp_tc s) = Some x \<and> passes_to (j x) s t)"
  by (auto simp: passes_to_def with_context_def call_def call_writing_def call_context_def use_client_def split: prod.splits option.splits)

lemma passes_to_value [passing]: "passes_to (value_or_fail k q) s t \<longleftrightarrow> (\<exists>x. q = Inr x \<and> passes_to (k x) s t)"
  by (auto simp: value_or_fail_def passing split: sum.splits)

lemma passes_to_expectations [passing]:
  "passes_to (expect_nil f) s t \<longleftrightarrow> (\<exists>w. f (world_of s) = (None, w) \<and> t = in_world w s)"
  "passes_to (expect_value g k) s t \<longleftrightarrow> (\<exists>x w. g (world_of s) = (Inr x, w) \<and> passes_to (k x) (in_world w s) t)"
  "passes_to (expect_init h) s t \<longleftrightarrow> (\<exists>tc w. h (sp_tc s) (world_of s) = (None, tc, w) \<and> t = in_world w (s\<lparr>sp_tc := tc\<rparr>))"
  "passes_to (expect_eventually ev c) s t \<longleftrightarrow> (\<exists>x w. ev (world_of s) = (Some x, w) \<and> passes_to (c x) (in_world w s) t)"
  by (auto simp: expect_nil_def expect_init_def expect_value_def expect_eventually_def passing split: option.splits)

lemma passes_to_if [passing]:
  "passes_to (if b then m else m') s t \<longleftrightarrow> (if b then passes_to m s t else passes_to m' s t)"
  by simp

lemma panics_steps [panicking]:
  "\<not> panics (steps []) s"
  "panics (steps (m # ms)) s \<longleftrightarrow> panics m s \<or> (\<exists>s'. passes_to m s s' \<and> panics (steps ms) s')"
  by (auto simp: panics_def passes_to_def split: prod.splits option.splits)

lemma panics_simple [panicking]:
  "panics (stop_with p) s \<longleftrightarrow> p = Panicked"
  "\<not> panics (By txt) s" "\<not> panics (Writer_Printf f as) s" "\<not> panics (DeferCleanup c) s" "\<not> panics (skip_if b why) s"
  "\<not> panics (expect_that b) s" "\<not> panics (no_error e) s" "\<not> panics (expect_nil g) s" "\<not> panics (expect_init h) s"
  by (auto simp: panics_def stop_with_def By_def Writer_Printf_def DeferCleanup_def skip_if_def expect_that_def no_error_def
      expect_nil_def expect_init_def call_def call_context_def split: option.splits prod.splits)

lemma panics_calls [panicking]:
  "panics (with_context k) s \<longleftrightarrow> panics (k (sp_tc s)) s"
  "panics (call f c) s \<longleftrightarrow> (\<exists>x w. f (world_of s) = (x, w) \<and> panics (c x) (in_world w s))"
  "panics (call_writing h c) s \<longleftrightarrow> (\<exists>x r. h (sp_run s) = (x, r) \<and> panics (c x) (s\<lparr>sp_run := r\<rparr>))"
  "panics (call_context g c) s \<longleftrightarrow>
     (\<exists>x tc w. g (sp_tc s) (world_of s) = (x, tc, w) \<and> panics (c x) (in_world w (s\<lparr>sp_tc := tc\<rparr>)))"
  "panics (use_client sel j) s \<longleftrightarrow> sel (sp_tc s) = None \<or> (\<exists>x. sel (sp_tc s) = Some x \<and> panics (j x) s)"
  by (auto simp: panics_def with_context_def call_def call_writing_def call_context_def use_client_def split: prod.splits option.splits)

lemma panics_value [panicking]: "panics (value_or_fail k q) s \<longleftrightarrow> (\<exists>x. q = Inr x \<and> panics (k x) s)"
  by (auto simp: value_or_fail_def panicking split: sum.splits)

lemma panics_expectations [panicking]:
  "panics (expect_value g k) s \<longleftrightarrow> (\<exists>x w. g (world_of s) = (Inr x, w) \<and> panics (k x) (in_world w s))"
  "panics (expect_eventually ev c) s \<longleftrightarrow> (\<exists>x w. ev (world_of s) = (Some x, w) \<and> panics (c x) (in_world w s))"
  by (auto simp: expect_value_def expect_eventually_def panicking split: option.splits)

text \<open>\<open>ends m s e t\<close>: the step ends in \<open>t\<close>, and \<open>e\<close> says how.\<close>

definition ends :: "('c, 'w) step \<Rightarrow> ('c, 'w) spec_state \<Rightarrow> stop option \<Rightarrow> ('c, 'w) spec_state \<Rightarrow> bool" where
  "ends m s e t \<longleftrightarrow> m s = (e, t)"

named_theorems ending

lemma ends_steps [ending]:
  "ends (steps []) s e t \<longleftrightarrow> e = None \<and> t = s"
  "ends (steps (m # ms)) s e t \<longleftrightarrow> (\<exists>u. passes_to m s u \<and> ends (steps ms) u e t) \<or> (\<exists>q. e = Some q \<and> ends m s e t)"
  by (auto simp: ends_def passes_to_def split: prod.splits option.splits)

lemma ends_simple [ending]:
  "ends (stop_with p) s e t \<longleftrightarrow> e = Some p \<and> t = s"
  "ends (By txt) s e t \<longleftrightarrow> e = None \<and> t = s\<lparr>sp_step := txt\<rparr>"
  "ends (Writer_Printf f as) s e t \<longleftrightarrow> e = None \<and> t = s\<lparr>sp_run := Printf f as (sp_run s)\<rparr>"
  "ends (DeferCleanup c) s e t \<longleftrightarrow> e = None \<and> t = s\<lparr>sp_cleanups := c # sp_cleanups s\<rparr>"
  "ends (skip_if b why) s e t \<longleftrightarrow> t = s \<and> e = (if b then Some (Skipping why) else None)"
  "ends (expect_that b) s e t \<longleftrightarrow> t = s \<and> e = (if b then None else Some (Failing (sp_step s) None))"
  by (auto simp: ends_def stop_with_def By_def Writer_Printf_def DeferCleanup_def skip_if_def expect_that_def)

lemma ends_no_error [ending]:
  "ends (no_error None) s e t \<longleftrightarrow> e = None \<and> t = s"
  "ends (no_error (Some err)) s e t \<longleftrightarrow> e = Some (Failing (sp_step s) (Some err)) \<and> t = s"
  by (auto simp: ends_def no_error_def)

lemma ends_calls [ending]:
  "ends (with_context k) s e t \<longleftrightarrow> ends (k (sp_tc s)) s e t"
  "ends (call f c) s e t \<longleftrightarrow> (\<exists>x w. f (world_of s) = (x, w) \<and> ends (c x) (in_world w s) e t)"
  "ends (call_writing h c) s e t \<longleftrightarrow> (\<exists>x r. h (sp_run s) = (x, r) \<and> ends (c x) (s\<lparr>sp_run := r\<rparr>) e t)"
  "ends (call_context g c) s e t \<longleftrightarrow>
     (\<exists>x tc w. g (sp_tc s) (world_of s) = (x, tc, w) \<and> ends (c x) (in_world w (s\<lparr>sp_tc := tc\<rparr>)) e t)"
  "ends (use_client sel j) s e t \<longleftrightarrow> sel (sp_tc s) = None \<and> e = Some Panicked \<and> t = s \<or> (\<exists>x. sel (sp_tc s) = Some x \<and> ends (j x) s e t)"
  by (auto simp: ends_def with_context_def call_def call_writing_def call_context_def use_client_def split: prod.splits option.splits)

lemma ends_value [ending]:
  "ends (value_or_fail k (Inl err)) s e t \<longleftrightarrow> e = Some (Failing (sp_step s) (Some err)) \<and> t = s"
  "ends (value_or_fail k (Inr x)) s e t \<longleftrightarrow> ends (k x) s e t"
  by (simp_all add: value_or_fail_def ending)

lemma ends_nil [ending]:
  "ends (expect_nil f) s e t \<longleftrightarrow> (\<exists>w. f (world_of s) = (None, w) \<and> e = None \<and> t = in_world w s)
     \<or> (\<exists>err w. f (world_of s) = (Some err, w) \<and> e = Some (Failing (sp_step s) (Some err)) \<and> t = in_world w s)"
proof -
  obtain q w where "f (world_of s) = (q, w)" by (metis surj_pair)
  then show ?thesis by (cases q) (simp_all add: expect_nil_def ending)
qed

lemma ends_init [ending]:
  "ends (expect_init h) s e t \<longleftrightarrow> (\<exists>tc w. h (sp_tc s) (world_of s) = (None, tc, w) \<and> e = None \<and> t = in_world w (s\<lparr>sp_tc := tc\<rparr>))
     \<or> (\<exists>err tc w. h (sp_tc s) (world_of s) = (Some err, tc, w) \<and> e = Some (Failing (sp_step s) (Some err)) \<and> t = in_world w (s\<lparr>sp_tc := tc\<rparr>))"
proof -
  obtain q tc w where "h (sp_tc s) (world_of s) = (q, tc, w)" by (metis surj_pair)
  then show ?thesis by (cases q) (simp_all add: expect_init_def ending)
qed

lemma ends_expect_value [ending]:
  "ends (expect_value g k) s e t \<longleftrightarrow> (\<exists>x w. g (world_of s) = (Inr x, w) \<and> ends (k x) (in_world w s) e t)
     \<or> (\<exists>err w. g (world_of s) = (Inl err, w) \<and> e = Some (Failing (sp_step s) (Some err)) \<and> t = in_world w s)"
proof -
  obtain q w where "g (world_of s) = (q, w)" by (metis surj_pair)
  then show ?thesis by (cases q) (simp_all add: expect_value_def ending)
qed

lemma ends_eventually [ending]:
  "ends (expect_eventually ev c) s e t \<longleftrightarrow> (\<exists>x w. ev (world_of s) = (Some x, w) \<and> ends (c x) (in_world w s) e t)
     \<or> (\<exists>w. ev (world_of s) = (None, w) \<and> e = Some (Failing (sp_step s) None) \<and> t = in_world w s)"
proof -
  obtain q w where "ev (world_of s) = (q, w)" by (metis surj_pair)
  then show ?thesis by (cases q) (auto simp: expect_eventually_def ending)
qed

lemma spec_start_simps [simp]:
  "sp_tc (spec_start tc r) = tc" "sp_run (spec_start tc r) = r" "sp_cleanups (spec_start tc r) = []"
  by (simp_all add: spec_start_def)

text \<open>What a passed Eventually has seen.\<close>

lemma eventually_Some:
  assumes "eventually_ok passes ev" and "ev t i f w = (Some x, w')"
  obtains u where "polled passes (attempt_condition f) w u" and "f u = (Some x, w')"
proof -
  have "\<exists>u. polled passes (attempt_condition f) w u
      \<and> (case ev t i f w of (Some x, w') \<Rightarrow> f u = (Some x, w') | (None, w') \<Rightarrow> fst (f u) = None)"
    using assms(1) unfolding eventually_ok_def by blast
  then show thesis using assms(2) that by auto
qed

lemma Succeed_Some: "Succeed f u = (Some x, w) \<longleftrightarrow> x = [] \<and> f u = (None, w)"
  by (auto simp: Succeed_def split: prod.splits option.splits)

lemma Yields_Some: "Yields f u = (Some x, w) \<longleftrightarrow> f u = (Inr x, w)"
  by (auto simp: Yields_def split: prod.splits sum.splits)

text \<open>The clients are there after an initialization without error.\<close>

lemma init_plane_clients: "init_plane env n rc pl = (None, pl') \<Longrightarrow> (\<exists>k. pl_Kube pl' = Some k) \<and> (\<exists>d. pl_Dynamic pl' = Some d)"
  by (auto simp: init_plane_def Let_def split: sum.splits)

lemma InitHCClients_clients:
  "InitHCClients env tc w = (None, tc', w') \<Longrightarrow> (\<exists>k. HCKubeClient tc' = Some k) \<and> (\<exists>d. HCDynamicClient tc' = Some d)"
  by (auto simp: InitHCClients_def accessors split: prod.splits sum.splits dest: init_plane_clients)

lemma InitSCClients_clients:
  "InitSCClients env tc w = (None, tc', w') \<Longrightarrow> (\<exists>k. SCKubeClient tc' = Some k) \<and> (\<exists>d. SCDynamicClient tc' = Some d)"
  by (auto simp: InitSCClients_def accessors split: prod.splits sum.splits dest: init_plane_clients)

lemma find_namespaces_mc: "find_namespaces env d tc w = (tc', w') \<Longrightarrow> tc_mc tc' = tc_mc tc"
  using find_namespaces_spec [of env d tc w tc' w'] by auto

lemma InitMCClients_clients:
  "InitMCClients env tc w = (None, tc', w') \<Longrightarrow> (\<exists>k. MCKubeClient tc' = Some k) \<and> (\<exists>d. MCDynamicClient tc' = Some d)"
  by (auto simp: InitMCClients_def accessors split: prod.splits sum.splits option.splits
      dest!: init_plane_clients find_namespaces_mc)

lemma InitAWSClients_clients: "InitAWSClients env tc w = (None, tc', w') \<Longrightarrow> HasAWSAccess tc'"
  by (auto simp: InitAWSClients_def HasAWSAccess_def split: prod.splits sum.splits if_splits)

lemma aws_accessors:
  "HasAWSAccess tc \<longleftrightarrow> (\<exists>a. EC2Client tc = Some a)" "HasAWSAccess tc \<longleftrightarrow> (\<exists>a. KMSClient tc = Some a)"
  "HasAWSAccess tc \<longleftrightarrow> (\<exists>a. CloudTrailClient tc = Some a)"
  by (auto simp: HasAWSAccess_def accessors)

end
