(* ===== verification/Spec_Env.thy ===== *)
theory Spec_Env
  imports Ginkgo Node_Verifiers Operator_Verifiers Aws_Verifiers Stability Rhobs Ocm_Lifecycle
begin

text \<open>
  What the specs of test/e2e take from outside the repository, the record \<open>spec_env\<close>: the clients behind a clientset and an
  AWS configuration, the requests that only specs make, the poller, Eventually of Gomega, the clock, and an outcome of
  RunVerifiers, which \<open>schedules\<close> ties to its interleavings. Then the guards with which the specs begin.
\<close>

section \<open>The environment of a spec\<close>

record node_pool =
  np_ID :: string
  np_InstanceType :: string \<comment> \<open>AWSNodePool().InstanceType(), InstanceType() of a machine pool\<close>

text \<open>The response of a cluster request, as far as specs read it.\<close>

record cluster_details =
  cd_Status :: int \<comment> \<open>the HTTP status\<close>
  cd_State :: string
  cd_Name :: string
  cd_KMSKeyArn :: string
  cd_Region :: string
  cd_PrivateLink :: bool
  cd_HypershiftEnabled :: bool
  cd_ExternalID :: string
  cd_FIPS :: bool
  cd_BaseDomain :: string
  cd_ConsoleURL :: string
  cd_APIURL :: string
  cd_ProvisionShard :: "string option" \<comment> \<open>the id, if the shard is not nil\<close>

text \<open>A pod that a spec creates itself; its security context is restrictedSecurityContext.\<close>

record test_pod =
  tp_Name :: string
  tp_Namespace :: string
  tp_ContainerName :: string
  tp_Image :: string
  tp_Command :: "string list"
  tp_AllowPrivilegeEscalation :: bool
  tp_RunAsNonRoot :: bool
  tp_SeccompProfile :: string
  tp_DropCapabilities :: "string list"
  tp_RestartPolicy :: string

record network_policy =
  npol_Name :: string
  npol_Namespace :: string
  npol_PodSelector :: "(string \<times> string) list"
  npol_PolicyTypes :: "string list"

text \<open>Requests to a Kubernetes cluster that only specs make.\<close>

record 'w guest_api =
  testpod_Create :: "test_pod \<Rightarrow> 'w \<Rightarrow> go_error option \<times> 'w"
  pod_Phase :: "string \<Rightarrow> string \<Rightarrow> 'w \<Rightarrow> (go_error + string) \<times> 'w" \<comment> \<open>namespace, name\<close>
  pod_Logs :: "string \<Rightarrow> string \<Rightarrow> 'w \<Rightarrow> (go_error + string) \<times> 'w"
  networkpolicy_Create :: "network_policy \<Rightarrow> 'w \<Rightarrow> go_error option \<times> 'w"
  clusterrolebindings_List :: "'w \<Rightarrow> (go_error + string list) \<times> 'w" \<comment> \<open>the RoleRef.Name of each\<close>
  namespaces_List :: "'w \<Rightarrow> (go_error + string list) \<times> 'w" \<comment> \<open>the names\<close>
  deployment_rows :: "string \<Rightarrow> 'w \<Rightarrow> (go_error + deployment_row list) \<times> 'w"

text \<open>Requests to OCM and to the web that only specs make. The numbers are the status and the total of the response.\<close>

record 'w fleet_api =
  clusters_List :: "int \<Rightarrow> 'w \<Rightarrow> (go_error + int \<times> int) \<times> 'w" \<comment> \<open>size\<close>
  credentials_Get :: "string \<Rightarrow> 'w \<Rightarrow> (go_error + int \<times> string) \<times> 'w" \<comment> \<open>the kubeconfig\<close>
  versions_List :: "string \<Rightarrow> int \<Rightarrow> 'w \<Rightarrow> (go_error + int \<times> int) \<times> 'w" \<comment> \<open>search, size\<close>
  addons_List :: "string \<Rightarrow> 'w \<Rightarrow> (go_error + int) \<times> 'w"
  raw_Status :: "string \<Rightarrow> string \<times> string \<Rightarrow> 'w \<Rightarrow> (go_error + int) \<times> 'w" \<comment> \<open>path, parameter\<close>
  insecure_Get :: "int \<Rightarrow> string \<Rightarrow> 'w \<Rightarrow> go_error option \<times> 'w" \<comment> \<open>timeout; a client that does not verify certificates\<close>
  nodepools_List :: "string \<Rightarrow> 'w \<Rightarrow> (go_error + int \<times> int \<times> node_pool list) \<times> 'w" \<comment> \<open>Status(), Total(), Items()\<close>
  nodepool_RawVersion :: "string \<Rightarrow> string \<Rightarrow> 'w \<Rightarrow> (go_error + string) \<times> 'w" \<comment> \<open>cluster, node pool\<close>
  machinepools_List :: "string \<Rightarrow> 'w \<Rightarrow> (go_error + int \<times> int \<times> node_pool list) \<times> 'w"

record ('r, 'k, 'a, 'w) spec_env =
  ctx :: "('r, 'k, 'a, 'w) context_env"
  kube :: "'k \<Rightarrow> 'w kube_client"
  objects :: "'k \<Rightarrow> 'w object_api"
  guest :: "'k \<Rightarrow> 'w guest_api"
  aws :: "'a \<Rightarrow> 'w aws_clients"
  fleet :: "'w fleet_api"
  cluster_Details :: "string \<Rightarrow> 'w \<Rightarrow> (go_error + cluster_details) \<times> 'w" \<comment> \<open>the same request as \<open>cluster_Get\<close>\<close>
  accounts :: "'w accounts_api"
  auth :: "'w auth_api"
  rhobs :: "'w rhobs_env"
  go_rt :: "'w go_runtime"
  shuffle_refs :: "nat \<Rightarrow> deploymentRef list \<Rightarrow> deploymentRef list"
  shuffle_tags :: "nat \<Rightarrow> (string \<times> string) list \<Rightarrow> (string \<times> string) list"
  poll :: "'w poller"
  Eventually :: "(string, 'w) eventually"
  RunVerifiers :: "'w kube_client \<Rightarrow> ('w kube_client, 'w) cluster_verifier list \<Rightarrow> 'w \<Rightarrow> go_error option \<times> 'w"

type_synonym ('r, 'k, 'a, 'w) spec = "(('r, 'k, 'a, 'w) test_context, 'w) step"

definition with_config :: "(Config \<Rightarrow> ('r, 'k, 'a, 'w) spec) \<Rightarrow> ('r, 'k, 'a, 'w) spec" where
  "with_config k = with_context (\<lambda>tc. k (Config_of tc))"

definition need_cluster :: "string \<Rightarrow> ('r, 'k, 'a, 'w) spec" where
  "need_cluster why = with_config (\<lambda>cfg. skip_if (ClusterID cfg = []) why)"

definition need_kind ::
  "(('r, 'k, 'a, 'w) test_context \<Rightarrow> 'w \<Rightarrow> bool \<times> ('r, 'k, 'a, 'w) test_context \<times> 'w) \<Rightarrow> string \<Rightarrow> ('r, 'k, 'a, 'w) spec" where
  "need_kind is_kind why = call_context is_kind (\<lambda>yes. skip_if (\<not> yes) why)"

text \<open>\<open>cfg.AWSRegion = region\<close>, and the guard on AWS access.\<close>

definition set_region :: "string \<Rightarrow> ('r, 'k, 'a, 'w) spec" where
  "set_region region s = (None, s\<lparr>sp_tc := (sp_tc s)\<lparr>tc_cfg := (tc_cfg (sp_tc s))\<lparr>AWSRegion := region\<rparr>\<rparr>\<rparr>)"

definition need_aws :: "('r, 'k, 'a, 'w) spec_env \<Rightarrow> string \<Rightarrow> ('r, 'k, 'a, 'w) spec" where
  "need_aws env why = call_context (InitAWSClients (ctx env))
     (\<lambda>err. with_context (\<lambda>tc. skip_if (err \<noteq> None \<or> \<not> HasAWSAccess tc) why))"

definition hosted_clients :: "('r, 'k, 'a, 'w) spec_env \<Rightarrow> ('r, 'k, 'a, 'w) spec" where
  "hosted_clients env = steps [By ''Initializing hosted cluster clients'', expect_init (InitHCClients (ctx env))]"

text \<open>The number of pools, as \<open>VerifyMachinePoolsExist\<close> reads the response.\<close>

definition machinepools_count :: "('r, 'k, 'a, 'w) spec_env \<Rightarrow> string \<Rightarrow> 'w \<Rightarrow> (go_error + int \<times> int) \<times> 'w" where
  "machinepools_count env clusterID w = (case machinepools_List (fleet env) clusterID w of
     (Inl err, w') \<Rightarrow> (Inl err, w') | (Inr (status, tot, items), w') \<Rightarrow> (Inr (status, tot), w'))"

lemma passes_to_guards [passing]:
  "passes_to (with_config k) s t \<longleftrightarrow> passes_to (k (tc_cfg (sp_tc s))) s t"
  "passes_to (need_cluster why) s t \<longleftrightarrow> ClusterID (tc_cfg (sp_tc s)) \<noteq> [] \<and> t = s"
  "passes_to (need_kind is_kind why) s t \<longleftrightarrow>
     (\<exists>tc w. is_kind (sp_tc s) (world_of s) = (True, tc, w) \<and> t = in_world w (s\<lparr>sp_tc := tc\<rparr>))"
  "passes_to (need_aws env why) s t \<longleftrightarrow>
     (\<exists>tc w. InitAWSClients (ctx env) (sp_tc s) (world_of s) = (None, tc, w) \<and> t = in_world w (s\<lparr>sp_tc := tc\<rparr>))"
  by (auto simp: with_config_def need_cluster_def need_kind_def need_aws_def Config_of_def passing
      dest: InitAWSClients_clients)

lemma passes_to_region [passing]:
  "passes_to (set_region region) s t \<longleftrightarrow> t = s\<lparr>sp_tc := (sp_tc s)\<lparr>tc_cfg := (tc_cfg (sp_tc s))\<lparr>AWSRegion := region\<rparr>\<rparr>\<rparr>"
  by (auto simp: passes_to_def set_region_def)

lemma ends_guards [ending]:
  "ends (with_config k) s e t \<longleftrightarrow> ends (k (tc_cfg (sp_tc s))) s e t"
  "ends (need_cluster why) s e t \<longleftrightarrow> t = s \<and> e = (if ClusterID (tc_cfg (sp_tc s)) = [] then Some (Skipping why) else None)"
  "ends (need_kind is_kind why) s e t \<longleftrightarrow> (\<exists>yes tc w. is_kind (sp_tc s) (world_of s) = (yes, tc, w)
     \<and> t = in_world w (s\<lparr>sp_tc := tc\<rparr>) \<and> e = (if yes then None else Some (Skipping why)))"
  by (auto simp: with_config_def need_cluster_def need_kind_def Config_of_def ending)

lemma ends_aws [ending]:
  "ends (need_aws env why) s e t \<longleftrightarrow>
     (\<exists>tc w. InitAWSClients (ctx env) (sp_tc s) (world_of s) = (None, tc, w) \<and> e = None \<and> t = in_world w (s\<lparr>sp_tc := tc\<rparr>))
   \<or> (\<exists>err tc w. InitAWSClients (ctx env) (sp_tc s) (world_of s) = (Some err, tc, w) \<and> e = Some (Skipping why)
        \<and> t = in_world w (s\<lparr>sp_tc := tc\<rparr>))"
proof -
  obtain q tc w where "InitAWSClients (ctx env) (sp_tc s) (world_of s) = (q, tc, w)" by (metis surj_pair)
  then show ?thesis using InitAWSClients_clients [of "ctx env" "sp_tc s" "world_of s" tc w]
    by (cases q) (auto simp: need_aws_def ending)
qed

lemma ends_region [ending]:
  "ends (set_region region) s e t \<longleftrightarrow> e = None \<and> t = s\<lparr>sp_tc := (sp_tc s)\<lparr>tc_cfg := (tc_cfg (sp_tc s))\<lparr>AWSRegion := region\<rparr>\<rparr>\<rparr>"
  by (auto simp: ends_def set_region_def)

lemma panics_guards [panicking]:
  "panics (with_config k) s \<longleftrightarrow> panics (k (tc_cfg (sp_tc s))) s"
  "\<not> panics (need_cluster why) s" "\<not> panics (need_kind is_kind why) s" "\<not> panics (need_aws env why) s"
  by (auto simp: with_config_def need_cluster_def need_kind_def need_aws_def Config_of_def panicking)

lemma panics_region [panicking]: "\<not> panics (set_region region) s"
  by (simp add: set_region_def panics_def)

lemma new_context_cfg: "tc_cfg (NewTestContext cfg) = cfg"
  by (simp add: NewTestContext_def)

lemma topology_keeps_config: "is_topology t env tc w = (b, tc', w') \<Longrightarrow> tc_cfg tc' = tc_cfg tc"
  by (auto simp: is_topology_def split: prod.splits dest!: Topology_cases(1) [THEN arg_cong [where f = tc_cfg]])

lemma passes_hosted:
  assumes "passes_to (hosted_clients env) s t"
  shows "\<exists>k d. HCKubeClient (sp_tc t) = Some k \<and> HCDynamicClient (sp_tc t) = Some d" and "sp_cleanups t = sp_cleanups s"
  using assms by (auto simp: hosted_clients_def passing dest: InitHCClients_clients)

lemma ends_hosted:
  assumes "ends (hosted_clients env) s (Some q) t"
  shows "\<exists>err. q = Failing ''Initializing hosted cluster clients'' err" and "sp_cleanups t = sp_cleanups s"
  using assms by (auto simp: hosted_clients_def ending passing)

end
