(* ===== verification/Cluster_Specs.thy ===== *)
theory Cluster_Specs
  imports Spec_Env Upgrade_Specs
begin

text \<open>
  The specs of test/e2e that check a cluster which exists: the three specs of cluster\_lifecycle\_test.go on an existing
  cluster, and of upgrade\_test.go the upgrade of a node pool and the two specs after an upgrade.
\<close>

section \<open>cluster\_lifecycle\_test.go: existing clusters\<close>

definition existing_cluster_nodes :: "('r, 'k, 'a, 'w) spec_env \<Rightarrow> ('r, 'k, 'a, 'w) spec" where
  "existing_cluster_nodes env = steps
     [By ''Verifying cluster health via Kubernetes API'',
      expect_init (InitHCClients (ctx env)),
      with_context (\<lambda>tc. expect_that (HCKubeClient tc \<noteq> None)),
      use_client HCKubeClient (\<lambda>kubeClient. expect_eventually
        (Eventually env (Some (2 * minute)) (Some (15 * second)) (Succeed (RunVerifiers env (kube env kubeClient) [VerifyAllNodesReady])))
        (\<lambda>_. steps []))]"

definition hcp_existing_spec :: "('r, 'k, 'a, 'w) spec_env \<Rightarrow> ('r, 'k, 'a, 'w) spec" where
  "hcp_existing_spec env = steps
     [need_cluster ''CLUSTER_ID not set, skipping existing cluster verification'',
      By ''Verifying cluster is ready in OCM'',
      with_config (\<lambda>cfg. expect_nil (VerifyClusterReady (ocm (ctx env)) (ClusterID cfg))),
      existing_cluster_nodes env]"

text \<open>The specs for Classic and for OSD GCP.\<close>

definition pools_existing_spec ::
  "(('r, 'k, 'a, 'w) test_context \<Rightarrow> 'w \<Rightarrow> bool \<times> ('r, 'k, 'a, 'w) test_context \<times> 'w) \<Rightarrow> string
   \<Rightarrow> ('r, 'k, 'a, 'w) spec_env \<Rightarrow> ('r, 'k, 'a, 'w) spec" where
  "pools_existing_spec is_kind other env = steps
     [need_cluster ''CLUSTER_ID not set, skipping existing cluster verification'',
      need_kind is_kind other,
      By ''Verifying cluster is ready in OCM'',
      with_config (\<lambda>cfg. expect_nil (VerifyClusterReady (ocm (ctx env)) (ClusterID cfg))),
      By ''Verifying machine pools exist'',
      with_config (\<lambda>cfg. expect_nil (VerifyMachinePoolsExist (machinepools_count env) (ClusterID cfg))),
      existing_cluster_nodes env]"

definition classic_existing_spec :: "('r, 'k, 'a, 'w) spec_env \<Rightarrow> ('r, 'k, 'a, 'w) spec" where
  "classic_existing_spec env =
     pools_existing_spec (IsClassic (ctx env)) ''Not a Classic cluster, skipping Classic lifecycle test'' env"

definition osd_gcp_existing_spec :: "('r, 'k, 'a, 'w) spec_env \<Rightarrow> ('r, 'k, 'a, 'w) spec" where
  "osd_gcp_existing_spec env =
     pools_existing_spec (IsOSDGCP (ctx env)) ''Not an OSD GCP cluster, skipping OSD GCP lifecycle test'' env"

section \<open>upgrade\_test.go: node pools, and after an upgrade\<close>

definition need_target :: "string \<Rightarrow> ('r, 'k, 'a, 'w) spec" where
  "need_target why = with_config (\<lambda>cfg. skip_if (UpgradeTargetVersion cfg = []) why)"

text \<open>An attempt of the wait: get the node pool and compare its version.\<close>

definition nodepool_at_version :: "('r, 'k, 'a, 'w) spec_env \<Rightarrow> string \<Rightarrow> string \<Rightarrow> string \<Rightarrow> (string, 'w) attempt" where
  "nodepool_at_version env clusterID nodePoolID target w =
     (case nodepool_RawVersion (fleet env) clusterID nodePoolID w of
        (Inl err, w') \<Rightarrow> (None, w')
      | (Inr version, w') \<Rightarrow> (if version = target then Some [] else None, w'))"

definition nodepool_upgrade_steps ::
  "'w ocm_runtime \<Rightarrow> ('r, 'k, 'a, 'w) spec_env \<Rightarrow> Config \<Rightarrow> string \<Rightarrow> ('r, 'k, 'a, 'w) spec" where
  "nodepool_upgrade_steps rt env cfg nodePoolID = steps
     [Writer_Printf (''Upgrading node pool %s to %s'' @ nl) [FStr nodePoolID, FStr (UpgradeTargetVersion cfg)],
      By ''Initiating node pool upgrade'',
      call_writing (InitiateNodePoolUpgrade rt (ocm (ctx env)) (ClusterID cfg) nodePoolID (UpgradeTargetVersion cfg)) no_error,
      By ''Waiting for node pool upgrade (up to 60 minutes)'',
      expect_eventually (Eventually env (Some (60 * minute)) (Some (30 * second))
          (nodepool_at_version env (ClusterID cfg) nodePoolID (UpgradeTargetVersion cfg)))
        (\<lambda>_. steps []),
      By ''Verifying all nodes are ready after upgrade'',
      expect_init (InitHCClients (ctx env)),
      use_client HCKubeClient (\<lambda>kubeClient. expect_nil (RunVerifiers env (kube env kubeClient) [VerifyAllNodesReady]))]"

definition nodepool_upgrade_spec :: "'w ocm_runtime \<Rightarrow> ('r, 'k, 'a, 'w) spec_env \<Rightarrow> ('r, 'k, 'a, 'w) spec" where
  "nodepool_upgrade_spec rt env = steps
     [need_cluster ''CLUSTER_ID not set'',
      need_target ''UPGRADE_TARGET_VERSION not set, skipping nodepool upgrade test'',
      By ''Listing node pools'',
      with_config (\<lambda>cfg. expect_value (nodepools_List (fleet env) (ClusterID cfg)) (\<lambda>(status, tot, items). steps
        [expect_that (status = 200),
         expect_that (items \<noteq> []),
         nodepool_upgrade_steps rt env cfg (np_ID (items ! 0))]))]"

definition post_upgrade_operators_spec :: "('r, 'k, 'a, 'w) spec_env \<Rightarrow> ('r, 'k, 'a, 'w) spec" where
  "post_upgrade_operators_spec env = steps
     [need_cluster ''CLUSTER_ID not set'',
      need_target ''UPGRADE_TARGET_VERSION not set, skipping post-upgrade check'',
      hosted_clients env,
      By ''Verifying ClusterOperators are healthy after upgrade'',
      use_client HCDynamicClient (\<lambda>dc. expect_nil (VerifyClusterOperatorsHealthy dc []))]"

text \<open>\<open>workload_cleanup\<close> as a cleanup: it reports no error.\<close>

definition workload_deferred :: "'w object_api \<Rightarrow> string \<Rightarrow> 'w cleanup" where
  "workload_deferred api namespace failed w = (None, workload_cleanup api namespace w)"

definition deploy_and_verify :: "('r, 'k, 'a, 'w) spec_env \<Rightarrow> string \<Rightarrow> string \<Rightarrow> string \<Rightarrow> ('r, 'k, 'a, 'w) spec" where
  "deploy_and_verify env namespace deploying verifying = steps
     [By deploying,
      use_client HCKubeClient (\<lambda>k. steps
        [expect_nil (DeployTestWorkload (poll env) (objects env k) namespace),
         DeferCleanup (workload_deferred (objects env k) namespace),
         By verifying,
         expect_nil (VerifyDeploymentAvailable (kube env k) namespace ''test-nginx'')])]"

definition post_upgrade_workload_spec :: "('r, 'k, 'a, 'w) spec_env \<Rightarrow> ('r, 'k, 'a, 'w) spec" where
  "post_upgrade_workload_spec env = steps
     [need_cluster ''CLUSTER_ID not set'',
      need_target ''UPGRADE_TARGET_VERSION not set, skipping post-upgrade workload check'',
      hosted_clients env,
      deploy_and_verify env ''e2e-post-upgrade'' ''Deploying test workload after upgrade'' ''Verifying workload is available'']"

section \<open>What a passed spec has seen\<close>

lemma passes_to_target [passing]:
  "passes_to (need_target why) s t \<longleftrightarrow> UpgradeTargetVersion (tc_cfg (sp_tc s)) \<noteq> [] \<and> t = s"
  by (auto simp: need_target_def passing)

text \<open>
  \<open>nodes_seen\<close>: a call of RunVerifiers for the nodes in the world \<open>u\<close> that returned nil and left the world \<open>w\<close>, and in which
  the nodes were listed in some world of its run, all of them ready.
\<close>

definition nodes_seen :: "'w kube_client \<Rightarrow> 'w \<Rightarrow> 'w \<Rightarrow> bool" where
  "nodes_seen client u w \<longleftrightarrow> (\<exists>rs v. runs client [VerifyAllNodesReady] u rs \<and> rs_pc rs = Returned None \<and> rs_world rs = w
     \<and> (VerifyAllNodesReady, v, None) \<in> set (rs_calls rs) \<and> nodes_all_ready client v)"

lemma RunVerifiers_nodes:
  assumes "schedules run" and "run client [VerifyAllNodesReady] u = (None, w)"
  shows "nodes_seen client u w"
proof -
  obtain rs where rs: "runs client [VerifyAllNodesReady] u rs" "rs_pc rs = Returned None" "rs_world rs = w"
    using assms unfolding schedules_def by (metis fst_conv snd_conv)
  then show ?thesis using all_ready.nil_certifies [OF rs(1,2)] unfolding nodes_seen_def by auto
qed

text \<open>The wait for the nodes, from the initialization of the clients in the world \<open>w\<close> to the world \<open>w'\<close>.\<close>

definition nodes_became_ready ::
  "('w \<Rightarrow> 'w \<Rightarrow> bool) \<Rightarrow> ('r, 'k, 'a, 'w) spec_env \<Rightarrow> ('r, 'k, 'a, 'w) test_context \<Rightarrow> 'w \<Rightarrow> 'w \<Rightarrow> bool" where
  "nodes_became_ready passes env tc w w' \<longleftrightarrow> (\<exists>tc' w1 k u. InitHCClients (ctx env) tc w = (None, tc', w1) \<and> HCKubeClient tc' = Some k
     \<and> polled passes (attempt_condition (Succeed (RunVerifiers env (kube env k) [VerifyAllNodesReady]))) w1 u
     \<and> nodes_seen (kube env k) u w')"

lemma existing_nodes_ready:
  assumes "eventually_ok passes (Eventually env)" and "schedules (RunVerifiers env)" and "passes_to (existing_cluster_nodes env) s t"
  shows "nodes_became_ready passes env (sp_tc s) (world_of s) (world_of t)"
proof -
  obtain tc w1 k x w' where i: "InitHCClients (ctx env) (sp_tc s) (world_of s) = (None, tc, w1)" "HCKubeClient tc = Some k"
    and e: "Eventually env (Some (2 * minute)) (Some (15 * second)) (Succeed (RunVerifiers env (kube env k) [VerifyAllNodesReady])) w1 = (Some x, w')"
    and t: "world_of t = w'"
    using assms(3) by (auto simp: existing_cluster_nodes_def passing)
  obtain u where u: "polled passes (attempt_condition (Succeed (RunVerifiers env (kube env k) [VerifyAllNodesReady]))) w1 u"
    "RunVerifiers env (kube env k) [VerifyAllNodesReady] u = (None, w')"
    using eventually_Some [OF assms(1) e] by (auto simp: Succeed_Some)
  then show ?thesis using i t RunVerifiers_nodes [OF assms(2) u(2)] unfolding nodes_became_ready_def by auto
qed

lemma machine_pools_counted:
  assumes "VerifyMachinePoolsExist (machinepools_count env) i w = (None, w')"
  shows "\<exists>tot items. machinepools_List (fleet env) i w = (Inr (200, tot, items), w') \<and> tot \<noteq> 0"
  using assms by (auto simp: VerifyMachinePoolsExist_def machinepools_count_def split: prod.splits sum.splits if_splits)

lemma cluster_ready_seen: "VerifyClusterReady conn i w = (None, w') \<Longrightarrow> reports_state conn i ''ready'' w"
  by (auto simp: VerifyClusterReady_def verify_cluster_state_def reports_state_def split: prod.splits sum.splits if_splits)

text \<open>
  C28. A spec on an existing cluster that passes had a configured cluster, whose topology it confirmed when it is a spec for one, and
  then saw in this order: OCM reported the cluster ready; for Classic and OSD GCP, the listing of its machine pools was
  answered with status 200 and at least one; and clients were built, with which an attempt of the wait for the nodes ended
  the spec, a call of RunVerifiers that listed the nodes and found each of them ready.
\<close>

theorem existing_cluster_passed:
  assumes "eventually_ok passes (Eventually env)" and "schedules (RunVerifiers env)"
    and "passes_to spec (spec_start (NewTestContext cfg) r) s"
    and "(kind, spec) \<in> {([], hcp_existing_spec env), (''classic'', classic_existing_spec env), (''osd-gcp'', osd_gcp_existing_spec env)}"
  shows "ClusterID cfg \<noteq> []
    \<and> (\<exists>tc w0 w1. (if kind = [] then tc = NewTestContext cfg \<and> w0 = run_world r
           else is_topology kind (ctx env) (NewTestContext cfg) (run_world r) = (True, tc, w0) \<and> known_topology cfg kind)
        \<and> reports_state (ocm (ctx env)) (ClusterID cfg) ''ready'' w0 \<and> VerifyClusterReady (ocm (ctx env)) (ClusterID cfg) w0 = (None, w1)
        \<and> (if kind = [] then nodes_became_ready passes env tc w1 (world_of s)
           else \<exists>tot items w2. machinepools_List (fleet env) (ClusterID cfg) w1 = (Inr (200, tot, items), w2) \<and> tot \<noteq> 0
             \<and> nodes_became_ready passes env tc w2 (world_of s)))"
proof (cases "kind = []")
  case True
  then have "passes_to (hcp_existing_spec env) (spec_start (NewTestContext cfg) r) s" using assms(3,4) by auto
  then obtain w1 t where "ClusterID cfg \<noteq> []" "VerifyClusterReady (ocm (ctx env)) (ClusterID cfg) (run_world r) = (None, w1)"
    "passes_to (existing_cluster_nodes env) t s" "sp_tc t = NewTestContext cfg" "world_of t = w1"
    by (auto simp: hcp_existing_spec_def passing new_context_cfg)
  then show ?thesis
    using True existing_nodes_ready [OF assms(1,2), of t s] cluster_ready_seen by auto
next
  case False
  obtain other where "passes_to (pools_existing_spec (is_topology kind (ctx env)) other env) (spec_start (NewTestContext cfg) r) s"
    using assms(3,4) False by (auto simp: classic_existing_spec_def osd_gcp_existing_spec_def IsClassic_def IsOSDGCP_def)
  then obtain tc w0 w1 w2 t where i: "ClusterID cfg \<noteq> []" and k: "is_topology kind (ctx env) (NewTestContext cfg) (run_world r) = (True, tc, w0)"
    and rest: "VerifyClusterReady (ocm (ctx env)) (ClusterID (tc_cfg tc)) w0 = (None, w1)"
      "VerifyMachinePoolsExist (machinepools_count env) (ClusterID (tc_cfg tc)) w1 = (None, w2)"
      "passes_to (existing_cluster_nodes env) t s" "sp_tc t = tc" "world_of t = w2"
    by (auto simp: pools_existing_spec_def passing new_context_cfg)
  have "tc_cfg tc = cfg" using topology_keeps_config [OF k] by (simp add: new_context_cfg)
  note r = rest [unfolded this]
  show ?thesis
    using i False k kind_confirmed [OF k False] r(1) cluster_ready_seen [OF r(1)] machine_pools_counted [OF r(2)]
      existing_nodes_ready [OF assms(1,2) r(3)] r(4,5) by auto
qed

lemma nodepool_seen: "nodepool_at_version env i p target u = (Some x, w) \<Longrightarrow> nodepool_RawVersion (fleet env) i p u = (Inr target, w)"
  by (auto simp: nodepool_at_version_def split: prod.splits sum.splits if_splits)

text \<open>
  C29. A node pool upgrade that passes had a cluster and a target version configured, and then, in this order: the listing of the node
  pools was answered with status 200 and at least one; OCM accepted a policy for the target version, five minutes later,
  on the first of them; an attempt of the wait of at most an hour got that pool with the target version; and after it a call of
  RunVerifiers with new clients listed the nodes and found each of them ready.
\<close>

theorem nodepool_upgrade_passed:
  assumes "eventually_ok passes (Eventually env)" and "schedules (RunVerifiers env)"
    and "passes_to (nodepool_upgrade_spec rt env) (spec_start (NewTestContext cfg) r) s"
  shows "ClusterID cfg \<noteq> [] \<and> UpgradeTargetVersion cfg \<noteq> []
    \<and> (\<exists>tot pool pools w1 w2 u w3 tc k w4. nodepools_List (fleet env) (ClusterID cfg) (run_world r) = (Inr (200, tot, pool # pools), w1)
        \<and> schedules_upgrade rt (ocm (ctx env)) (ClusterID cfg) (NodePoolPolicies (np_ID pool)) (UpgradeTargetVersion cfg) w1
        \<and> snd (policy_Add (ocm (ctx env)) (ClusterID cfg) (NodePoolPolicies (np_ID pool))
             \<lparr>up_Version = UpgradeTargetVersion cfg, up_ScheduleType = ''manual'', up_UpgradeType = ''NodePool'',
              up_NextRun = unix_now rt w1 + 5 * minute\<rparr> w1) = w2
        \<and> polled passes (attempt_condition (nodepool_at_version env (ClusterID cfg) (np_ID pool) (UpgradeTargetVersion cfg))) w2 u
        \<and> nodepool_RawVersion (fleet env) (ClusterID cfg) (np_ID pool) u = (Inr (UpgradeTargetVersion cfg), w3)
        \<and> InitHCClients (ctx env) (NewTestContext cfg) w3 = (None, tc, w4) \<and> HCKubeClient tc = Some k
        \<and> nodes_seen (kube env k) w4 (world_of s))"
proof -
  obtain tot items w1 t where c: "ClusterID cfg \<noteq> []" "UpgradeTargetVersion cfg \<noteq> []"
      "nodepools_List (fleet env) (ClusterID cfg) (run_world r) = (Inr (200, tot, items), w1)" "items \<noteq> []"
    and t: "passes_to (nodepool_upgrade_steps rt env cfg (np_ID (items ! 0))) t s" "sp_tc t = NewTestContext cfg" "world_of t = w1"
    using assms(3) by (auto simp: nodepool_upgrade_spec_def passing new_context_cfg)
  from c(4) obtain pool pools where p: "items = pool # pools" by (cases items) auto
  from t obtain r1 x w3 tc w4 k where i: "InitiateNodePoolUpgrade rt (ocm (ctx env)) (ClusterID cfg) (np_ID pool) (UpgradeTargetVersion cfg)
        (Printf (''Upgrading node pool %s to %s'' @ nl) [FStr (np_ID pool), FStr (UpgradeTargetVersion cfg)] (sp_run t)) = (None, r1)"
    and e: "Eventually env (Some (60 * minute)) (Some (30 * second))
        (nodepool_at_version env (ClusterID cfg) (np_ID pool) (UpgradeTargetVersion cfg)) (run_world r1) = (Some x, w3)"
    and h: "InitHCClients (ctx env) (NewTestContext cfg) w3 = (None, tc, w4)" "HCKubeClient tc = Some k"
    and n: "RunVerifiers env (kube env k) [VerifyAllNodesReady] w4 = (None, world_of s)"
    by (auto simp: nodepool_upgrade_steps_def passing p)
  have a: "policy_Add (ocm (ctx env)) (ClusterID cfg) (NodePoolPolicies (np_ID pool))
      \<lparr>up_Version = UpgradeTargetVersion cfg, up_ScheduleType = ''manual'', up_UpgradeType = ''NodePool'',
       up_NextRun = unix_now rt w1 + 5 * minute\<rparr> w1 = (None, run_world r1)"
    using i t(3) by (auto simp: InitiateNodePoolUpgrade_def upgrade_policy_for_def Let_def on_world_pair split: option.splits prod.splits)
  then have sched: "schedules_upgrade rt (ocm (ctx env)) (ClusterID cfg) (NodePoolPolicies (np_ID pool)) (UpgradeTargetVersion cfg) w1"
    unfolding schedules_upgrade_def by blast
  obtain u where u: "polled passes (attempt_condition (nodepool_at_version env (ClusterID cfg) (np_ID pool) (UpgradeTargetVersion cfg))) (run_world r1) u"
    "nodepool_RawVersion (fleet env) (ClusterID cfg) (np_ID pool) u = (Inr (UpgradeTargetVersion cfg), w3)"
    using eventually_Some [OF assms(1) e] nodepool_seen by metis
  have list: "nodepools_List (fleet env) (ClusterID cfg) (run_world r) = (Inr (200, tot, pool # pools), w1)" using c(3) p by simp
  have "snd (policy_Add (ocm (ctx env)) (ClusterID cfg) (NodePoolPolicies (np_ID pool))
      \<lparr>up_Version = UpgradeTargetVersion cfg, up_ScheduleType = ''manual'', up_UpgradeType = ''NodePool'',
       up_NextRun = unix_now rt w1 + 5 * minute\<rparr> w1) = run_world r1" by (simp add: a)
  with c(1,2) list sched u h RunVerifiers_nodes [OF assms(2) n] show ?thesis by blast
qed

section \<open>A concrete run\<close>

text \<open>
  A world that counts the listings of nodes: in the first one the node is not ready, so that the first attempt fails. Every
  other call is accepted. The Eventually of this run makes two attempts.
\<close>

definition two_attempts :: "('x, 'w) eventually" where
  "two_attempts timeout interval f w = (case f w of (Some x, w') \<Rightarrow> (Some x, w') | (None, w') \<Rightarrow> f w')"

lemma two_attempts_ok: "eventually_ok (=) two_attempts"
  unfolding eventually_ok_def
proof (intro allI)
  fix t i and f :: "('x, 'w) attempt" and w
  obtain x w1 where f: "f w = (x, w1)" by (metis surj_pair)
  have 1: "polled (=) (attempt_condition f) w w" by (rule polled.first) simp
  show "\<exists>u. polled (=) (attempt_condition f) w u
      \<and> (case two_attempts t i f w of (Some x, w') \<Rightarrow> f u = (Some x, w') | (None, w') \<Rightarrow> fst (f u) = None)"
  proof (cases x)
    case None
    then have "polled (=) (attempt_condition f) w w1"
      by (intro polled.again [OF 1]) (simp_all add: f keeps_polling_def attempt_condition_def)
    moreover obtain y w2 where "f w1 = (y, w2)" by (metis surj_pair)
    ultimately show ?thesis using None f by (intro exI [of _ w1]) (auto simp: two_attempts_def split: option.splits)
  next
    case (Some y)
    then show ?thesis using 1 f by (intro exI [of _ w]) (simp add: two_attempts_def)
  qed
qed

definition calm_conn :: "'w ocm_connection" where
  "calm_conn = \<lparr>
     cluster_Get = (\<lambda>i w. (Inr \<lparr>oc_ID = i, oc_Name = [], oc_State = ''ready'', oc_InfraID = [], oc_CloudProviderID = [],
        oc_HypershiftEnabled = False, oc_VersionRawID = [], oc_OperatorRolePrefix = ''prefix''\<rparr>, w)),
     hypershift_ManagementCluster = (\<lambda>i w. (Inr [], w)), clusters_Search = (\<lambda>q n w. (Inr (0, []), w)),
     cluster_Build = (\<lambda>spec. None), cluster_Add = (\<lambda>spec w. (Inr ''new'', w)),
     cluster_Delete = (\<lambda>i w. (None, w)), credentials_Kubeconfig = (\<lambda>i w. (Inr ''kubeconfig'', w)),
     versions_Search = (\<lambda>q r n w. (Inr [], w)), raw_Get = (\<lambda>p kq w. (Inr [], w)), shard_Topology = (\<lambda>i w. (Inr [], w)),
     policy_Build = (\<lambda>p. None), policy_Add = (\<lambda>i t p w. (None, w)), unmarshal_error = (\<lambda>s. ErrorsNew ''json'')\<rparr>"

definition booting_client :: "nat kube_client" where
  "booting_client = \<lparr>nodes_List = (\<lambda>sel w. (Inr [sample_node (if w = 0 then ''False'' else ''True'')], Suc w)),
     deployments_List = (\<lambda>n w. (Inr [], w)), deployments_Get = (\<lambda>n m w. (Inl (ErrorsNew ''not found''), w)),
     pvc_GetPhase = (\<lambda>n m w. (Inr ''Bound'', w)), IsNotFound = (\<lambda>e. True), conditions_text = (\<lambda>cs. [])\<rparr>"

definition empty_dynamic :: "'w dynamic_client" where
  "empty_dynamic = \<lparr>dyn_List = (\<lambda>g ns w. (Inr [], w)), dyn_Get = (\<lambda>g ns name w. (Inr [], w)), dyn_IsNotFound = (\<lambda>e. False),
     GetName = (\<lambda>m. []), GetNamespace = (\<lambda>m. []), NestedSlice = (\<lambda>m p. ([], False, None)), NestedBool = (\<lambda>m p. (False, False, None)),
     NestedInt64 = (\<lambda>m p. (0, False, None))\<rparr>"

definition calm_ctx :: "(unit, unit, unit, 'w) context_env" where
  "calm_ctx = \<lparr>getenv = (\<lambda>v. []), ocm = calm_conn, BuildConfigFromFlags = (\<lambda>p w. (Inr (), w)),
     RESTConfigFromKubeConfig = (\<lambda>k. Inr ()), kubernetes_NewForConfig = (\<lambda>r. Inr ()),
     dynamic_NewForConfig = (\<lambda>r. Inr empty_dynamic), configmap_Data = (\<lambda>k ns n w. (Inl (ErrorsNew ''unused''), w)),
     LoadDefaultConfig = (\<lambda>r w. (Inr (), w)), Credentials_Retrieve = (\<lambda>a w. ((True, None), w))\<rparr>"

definition calm_fleet :: "'w fleet_api" where
  "calm_fleet = \<lparr>clusters_List = (\<lambda>n w. (Inr (200, 1), w)), credentials_Get = (\<lambda>i w. (Inr (200, ''kubeconfig''), w)),
     versions_List = (\<lambda>q n w. (Inr (200, 5), w)), addons_List = (\<lambda>i w. (Inr 200, w)), raw_Status = (\<lambda>p q w. (Inr 200, w)),
     insecure_Get = (\<lambda>t u w. (None, w)), nodepools_List = (\<lambda>i w. (Inr (200, 1, [\<lparr>np_ID = ''workers'', np_InstanceType = ''m5.xlarge''\<rparr>]), w)),
     nodepool_RawVersion = (\<lambda>i p w. (Inr ''4.20.2'', w)),
     machinepools_List = (\<lambda>i w. (Inr (200, 1, [\<lparr>np_ID = ''worker'', np_InstanceType = ''m5.xlarge''\<rparr>]), w))\<rparr>"

definition calm_env :: "(unit, unit, unit, nat) spec_env" where
  "calm_env = \<lparr>ctx = calm_ctx, kube = (\<lambda>k. booting_client), objects = (\<lambda>k. sample_api),
     guest = (\<lambda>k. \<lparr>testpod_Create = (\<lambda>p w. (None, w)), pod_Phase = (\<lambda>n p w. (Inr ''Succeeded'', w)), pod_Logs = (\<lambda>n p w. (Inr [], w)),
        networkpolicy_Create = (\<lambda>p w. (None, w)), clusterrolebindings_List = (\<lambda>w. (Inr [], w)), namespaces_List = (\<lambda>w. (Inr [], w)),
        deployment_rows = (\<lambda>n w. (Inr [], w))\<rparr>),
     aws = (\<lambda>a. \<lparr>DescribeVolumes = (\<lambda>i w. (Inr [], w)), DescribeKey = (\<lambda>k w. (Inr None, w)), GetKeyPolicy = (\<lambda>k p w. (Inr None, w)),
        LookupEvents = (\<lambda>t p w. (Inr ([], None), w))\<rparr>),
     fleet = calm_fleet, cluster_Details = (\<lambda>i w. (Inl (ErrorsNew ''unused''), w)),
     accounts = \<lparr>current_organization = (\<lambda>w. (Inr None, w)), organization_label = (\<lambda>n k w. (Inr [], w)), error_status = (\<lambda>e. None),
        arn_Parse = (\<lambda>t. Inl (ErrorsNew ''arn''))\<rparr>,
     auth = \<lparr>auth_Enabled = (\<lambda>i w. (Inr False, w)), auth_List = (\<lambda>i w. (Inr [], w))\<rparr>, rhobs = sample_rhobs,
     go_rt = \<lparr>time_now = (\<lambda>w. int w), select_done = (\<lambda>d w. (None, w))\<rparr>, shuffle_refs = (\<lambda>n xs. xs), shuffle_tags = (\<lambda>n xs. xs),
     poll = two_polls, Eventually = two_attempts, RunVerifiers = run_in_order\<rparr>"

definition calm_cfg :: Config where
  "calm_cfg = default_config\<lparr>ClusterID := ''c1'', ClusterTopology := ''classic'', UpgradeTargetVersion := ''4.20.2''\<rparr>"


lemma calm_clients: "InitHCClients calm_ctx tc w = (None, tc\<lparr>tc_hc := \<lparr>pl_Rest = Some (), pl_Kube = Some (), pl_Dynamic = Some empty_dynamic\<rparr>\<rparr>, w)"
  by (cases "tc_hc tc") (simp add: InitHCClients_def resolveKubeconfig_def GetClusterCredentials_def calm_ctx_def calm_conn_def init_plane_def
      NewKubeClient_def Let_def)

lemma calm_nodes: "run_in_order booting_client [VerifyAllNodesReady] w = (if w = 0 then Some (ErrorsJoin [wrap_failure
    (VerifyAllNodesReady :: (nat kube_client, nat) cluster_verifier) (Errorf ''nodes not ready: %v'' [FStrs [''n1'']])]) else None, Suc w)"
  by (simp add: run_in_order_def VerifyAllNodesReady_def verifyAllNodesReady_Verify_def booting_client_def sample_node_def errors_Join_def)

lemma calm_classic: "IsClassic calm_ctx (NewTestContext calm_cfg) w = (True, (NewTestContext calm_cfg)\<lparr>tc_topology := ''classic''\<rparr>, w)"
  by (simp add: IsClassic_def is_topology_def Topology_def NewTestContext_def calm_cfg_def)

lemma calm_ready: "VerifyClusterReady calm_conn i w = (None, w)"
  by (simp add: VerifyClusterReady_def verify_cluster_state_def calm_conn_def)

lemma calm_projections [simp]:
  "ctx calm_env = calm_ctx" "ocm calm_ctx = calm_conn" "Eventually calm_env = two_attempts" "RunVerifiers calm_env = run_in_order"
  "kube calm_env k = booting_client" "fleet calm_env = calm_fleet" "machinepools_List calm_fleet i w = (Inr (200, 1, [\<lparr>np_ID = ''worker'', np_InstanceType = ''m5.xlarge''\<rparr>]), w)"
  "ClusterID calm_cfg = ''c1''" "UpgradeTargetVersion calm_cfg = ''4.20.2''"
  by (simp_all add: calm_env_def calm_ctx_def calm_cfg_def calm_fleet_def)

lemma calm_wait: "two_attempts t i (Succeed (run_in_order booting_client [VerifyAllNodesReady])) 0 = (Some [], 2)"
  by (simp add: two_attempts_def Succeed_def calm_nodes)

text \<open>The first listing shows a node that is not ready; the second attempt ends the wait.\<close>

theorem existing_cluster_passed_witness:
  "\<exists>s u. passes_to (classic_existing_spec calm_env) (spec_start (NewTestContext calm_cfg) \<lparr>run_world = 0, run_log = []\<rparr>) s \<and> world_of s = 2
    \<and> polled (=) (attempt_condition (Succeed (run_in_order booting_client [VerifyAllNodesReady]))) 0 u \<and> nodes_seen booting_client u 2"
proof -
  have m: "VerifyMachinePoolsExist (machinepools_count calm_env) i w = (None, w)" for i w
    by (simp add: VerifyMachinePoolsExist_def machinepools_count_def)
  let ?s0 = "spec_start (NewTestContext calm_cfg) \<lparr>run_world = 0, run_log = []\<rparr>"
  obtain s where s: "passes_to (classic_existing_spec calm_env) ?s0 s" "world_of s = 2"
    by (simp add: classic_existing_spec_def pools_existing_spec_def existing_cluster_nodes_def passing new_context_cfg calm_classic calm_ready m
        calm_clients HCKubeClient_def calm_wait)
  then show ?thesis
    using existing_cluster_passed [of "(=)" calm_env "classic_existing_spec calm_env" calm_cfg "\<lparr>run_world = 0, run_log = []\<rparr>" s "''classic''"]
    by (auto simp: two_attempts_ok run_in_order_runs nodes_became_ready_def calm_clients calm_ready calm_classic [unfolded IsClassic_def])
qed

definition calm_rt :: "'w ocm_runtime" where
  "calm_rt = \<lparr>rand_IntN = (\<lambda>n w. (n - 1, w)),
     local_now = (\<lambda>w. \<lparr>t_year = 2025, t_month = 3, t_day = 14, t_hour = 0, t_min = 0, t_sec = 0, t_nsec = 0\<rparr>),
     unix_now = (\<lambda>w. 0), select_tick = (\<lambda>d p w. (False, w))\<rparr>"

lemma calm_nodepools [simp]:
  "nodepools_List calm_fleet i w = (Inr (200, 1, [\<lparr>np_ID = ''workers'', np_InstanceType = ''m5.xlarge''\<rparr>]), w)"
  "nodepool_RawVersion calm_fleet i p w = (Inr ''4.20.2'', w)" "policy_Build calm_conn q = None" "policy_Add calm_conn i t q w = (None, w)"
  by (simp_all add: calm_fleet_def calm_conn_def)

lemma calm_initiate: "InitiateNodePoolUpgrade calm_rt calm_conn i p target r =
    (None, Printf (''NodePool %s upgrade to %s scheduled for cluster %s'' @ nl) [FStr p, FStr target, FStr i] r)"
  by (cases r) (simp add: InitiateNodePoolUpgrade_def upgrade_policy_for_def Let_def on_world_def)

theorem nodepool_upgrade_passed_witness:
  "\<exists>s u. passes_to (nodepool_upgrade_spec calm_rt calm_env) (spec_start (NewTestContext calm_cfg) \<lparr>run_world = 1, run_log = []\<rparr>) s
    \<and> schedules_upgrade calm_rt calm_conn ''c1'' (NodePoolPolicies ''workers'') ''4.20.2'' (1::nat) \<and> nodes_seen booting_client u (world_of s)"
proof -
  obtain s where s: "passes_to (nodepool_upgrade_spec calm_rt calm_env) (spec_start (NewTestContext calm_cfg) \<lparr>run_world = 1, run_log = []\<rparr>) s"
    by (simp add: nodepool_upgrade_spec_def nodepool_upgrade_steps_def passing new_context_cfg calm_initiate two_attempts_def nodepool_at_version_def calm_clients HCKubeClient_def calm_nodes)
  then show ?thesis
    using nodepool_upgrade_passed [of "(=)" calm_env calm_rt calm_cfg "\<lparr>run_world = 1, run_log = []\<rparr>" s]
    by (auto simp: two_attempts_ok run_in_order_runs)
qed

end
