(* ===== verification/Data_Plane_Specs.thy ===== *)
theory Data_Plane_Specs
  imports Cluster_Specs
begin

text \<open>
  The specs of test/e2e that create objects on a cluster: storage\_test.go, workload\_test.go, kms\_test.go, networking\_test.go
  and the network policies of customer\_features\_test.go. What each of them leaves to its deferred cleanups, wherever it
  ends, and what a passed spec has seen.
\<close>

section \<open>Storage, workloads and network policies\<close>

definition need_namespace :: "('r, 'k, 'a, 'w) spec_env \<Rightarrow> string \<Rightarrow> ('r, 'k, 'a, 'w) spec" where
  "need_namespace env namespace = steps
     [By ''Creating test namespace'',
      use_client HCKubeClient (\<lambda>k. steps
        [expect_nil (CreateTestNamespace (poll env) (objects env k) namespace),
         DeferCleanup (\<lambda>failed. namespace_cleanup (objects env k) namespace)])]"

definition storage_spec :: "('r, 'k, 'a, 'w) spec_env \<Rightarrow> ('r, 'k, 'a, 'w) spec" where
  "storage_spec env = steps
     [need_cluster ''CLUSTER_ID not set, skipping storage test'',
      hosted_clients env,
      need_namespace env ''e2e-storage-test'',
      call_context (IsOSDGCP (ctx env)) (\<lambda>gcp. steps
        [By ''Creating a PVC'',
         use_client HCKubeClient (\<lambda>k. expect_value (CreateTestPVC (objects env k) ''e2e-storage-test'' (if gcp then [] else ''gp3-csi'')) (\<lambda>pvcName. steps
           [By ''Creating a pod that mounts the PVC'',
            expect_value (CreateTestPodWithPVC (objects env k) ''e2e-storage-test'' pvcName) (\<lambda>_. steps []),
            By ''Verifying PVC is bound'',
            expect_eventually (Eventually env None None (Succeed (VerifyPVCBound (kube env k) ''e2e-storage-test'' pvcName))) (\<lambda>_. steps [])]))])]"

definition workload_spec :: "('r, 'k, 'a, 'w) spec_env \<Rightarrow> ('r, 'k, 'a, 'w) spec" where
  "workload_spec env = steps
     [need_cluster ''CLUSTER_ID not set, skipping data plane test'',
      hosted_clients env,
      deploy_and_verify env ''e2e-workload-test'' ''Deploying test workload'' ''Verifying deployment is available'']"

definition deny_all :: "string \<Rightarrow> network_policy" where
  "deny_all namespace = \<lparr>npol_Name = ''deny-all'', npol_Namespace = namespace, npol_PodSelector = [],
     npol_PolicyTypes = [''Ingress'', ''Egress'']\<rparr>"

definition network_policy_spec :: "('r, 'k, 'a, 'w) spec_env \<Rightarrow> ('r, 'k, 'a, 'w) spec" where
  "network_policy_spec env = steps
     [need_cluster ''CLUSTER_ID not set'',
      hosted_clients env,
      need_namespace env ''e2e-netpol-test'',
      By ''Creating a deny-all NetworkPolicy'',
      use_client HCKubeClient (\<lambda>k. expect_nil (networkpolicy_Create (guest env k) (deny_all ''e2e-netpol-test'')))]"

section \<open>kms\_test.go\<close>

text \<open>\<open>setupKMS\<close>, with the rest of the spec as \<open>k\<close>. The region is set in the configuration that all specs share.\<close>

definition setupKMS :: "('r, 'k, 'a, 'w) spec_env \<Rightarrow> (string \<Rightarrow> ('r, 'k, 'a, 'w) spec) \<Rightarrow> ('r, 'k, 'a, 'w) spec" where
  "setupKMS env k = steps
     [By ''Querying cluster KMS configuration'',
      with_config (\<lambda>cfg. expect_value (cluster_Details env (ClusterID cfg)) (\<lambda>resp. steps
        [skip_if (cd_KMSKeyArn resp = []) ''Cluster does not have KMS encryption configured'',
         By ''Configuring the AWS client for the cluster region'',
         skip_if (cd_Region resp = []) ''Cluster region not reported by OCM, skipping KMS validation'',
         set_region (cd_Region resp),
         By ''Initializing AWS clients'',
         need_aws env ''AWS credentials not available, skipping KMS validation'',
         k (cd_KMSKeyArn resp)]))]"

definition kms_storage_steps :: "('r, 'k, 'a, 'w) spec_env \<Rightarrow> string \<Rightarrow> 'k \<Rightarrow> ('r, 'k, 'a, 'w) spec" where
  "kms_storage_steps env kmsKeyARN k = steps
     [By ''Creating a storage class encrypted with the cluster KMS key'',
      expect_nil (CreateKMSStorageClass (objects env k) ''e2e-kms-gp3-csi'' kmsKeyARN),
      DeferCleanup (\<lambda>failed. storage_class_cleanup (objects env k) ''e2e-kms-gp3-csi''),
      By ''Creating a PVC'',
      expect_value (CreateTestPVC (objects env k) ''e2e-kms-storage-test'' ''e2e-kms-gp3-csi'') (\<lambda>pvcName. steps
        [By ''Creating a pod that writes data to the PVC'',
         expect_value (CreateTestPodWithPVC (objects env k) ''e2e-kms-storage-test'' pvcName) (\<lambda>_. steps []),
         By ''Verifying PVC is bound'',
         expect_eventually (Eventually env (Some (5 * minute)) (Some (10 * second))
           (Succeed (VerifyPVCBound (kube env k) ''e2e-kms-storage-test'' pvcName))) (\<lambda>_. steps []),
         By ''Resolving the EBS volume backing the PVC'',
         expect_eventually (Eventually env (Some (5 * minute)) (Some (10 * second))
           (Yields (GetPVCVolumeID (objects env k) ''e2e-kms-storage-test'' pvcName))) (\<lambda>volumeID. steps
           [Writer_Printf (''PVC %s/%s is backed by volume %s'' @ nl) [FStr ''e2e-kms-storage-test'', FStr pvcName, FStr volumeID],
            By ''Validating the volume is encrypted with the cluster KMS key'',
            use_client EC2Client (\<lambda>a. expect_nil (VerifyEBSVolumeEncryptedWithKey (aws env a) volumeID kmsKeyARN))])])]"

definition kms_storage_spec :: "('r, 'k, 'a, 'w) spec_env \<Rightarrow> ('r, 'k, 'a, 'w) spec" where
  "kms_storage_spec env = steps
     [need_cluster ''CLUSTER_ID not set'',
      setupKMS env (\<lambda>kmsKeyARN. steps
        [hosted_clients env,
         need_namespace env ''e2e-kms-storage-test'',
         use_client HCKubeClient (kms_storage_steps env kmsKeyARN)])]"

definition kms_key_spec :: "('r, 'k, 'a, 'w) spec_env \<Rightarrow> ('r, 'k, 'a, 'w) spec" where
  "kms_key_spec env = steps
     [need_cluster ''CLUSTER_ID not set'',
      setupKMS env (\<lambda>kmsKeyARN. steps
        [By ''Resolving operator role prefix'',
         with_context (\<lambda>tc. expect_value (ResolveOperatorRolePrefix (ctx env) tc) (\<lambda>operatorRolePrefix. steps
           [By ''Validating the KMS key is enabled, not scheduled for deletion, and usable by the cluster'',
            use_client KMSClient (\<lambda>a. expect_nil (VerifyKMSKeyHealthy (aws env a) kmsKeyARN operatorRolePrefix))]))])]"

section \<open>networking\_test.go\<close>

text \<open>A pod with the security context of restrictedSecurityContext.\<close>

definition restricted_pod :: "string \<Rightarrow> string \<Rightarrow> string \<Rightarrow> string list \<Rightarrow> test_pod" where
  "restricted_pod podName namespace containerName command =
     \<lparr>tp_Name = podName, tp_Namespace = namespace, tp_ContainerName = containerName,
      tp_Image = ''registry.access.redhat.com/ubi9/ubi-minimal:latest'', tp_Command = command,
      tp_AllowPrivilegeEscalation = False, tp_RunAsNonRoot = True, tp_SeccompProfile = ''RuntimeDefault'',
      tp_DropCapabilities = [''ALL''], tp_RestartPolicy = ''Never''\<rparr>"

definition pod_completed_once :: "'w guest_api \<Rightarrow> string \<Rightarrow> string \<Rightarrow> 'w condition_fn" where
  "pod_completed_once api namespace podName w =
     (case pod_Phase api namespace podName w of
        (Inl err, w') \<Rightarrow> ((False, Some err), w')
      | (Inr phase, w') \<Rightarrow> ((phase = ''Succeeded'' \<or> phase = ''Failed'', None), w'))"

definition run_pod :: "('r, 'k, 'a, 'w) spec_env \<Rightarrow> 'k \<Rightarrow> test_pod \<Rightarrow> string \<Rightarrow> string \<Rightarrow> string \<Rightarrow> ('r, 'k, 'a, 'w) spec" where
  "run_pod env k pod creating waiting verifying = steps
     [By creating,
      expect_nil (testpod_Create (guest env k) pod),
      By waiting,
      expect_nil (poll env (5 * second) (3 * minute) True (pod_completed_once (guest env k) (tp_Namespace pod) (tp_Name pod))),
      By verifying,
      expect_value (pod_Phase (guest env k) (tp_Namespace pod) (tp_Name pod)) (\<lambda>phase. expect_that (phase = ''Succeeded''))]"

definition dns_pod :: test_pod where
  "dns_pod = restricted_pod ''dns-test-pod'' ''e2e-dns-test'' ''dns-test''
     [''sh'', ''-c'', ''getent hosts kubernetes.default.svc.cluster.local && echo DNS_OK'']"

definition dns_spec :: "('r, 'k, 'a, 'w) spec_env \<Rightarrow> ('r, 'k, 'a, 'w) spec" where
  "dns_spec env = steps
     [need_cluster ''CLUSTER_ID not set, skipping data plane test'',
      hosted_clients env,
      need_namespace env ''e2e-dns-test'',
      use_client HCKubeClient (\<lambda>k. run_pod env k dns_pod ''Creating DNS test pod'' ''Waiting for DNS test pod to complete''
        ''Verifying DNS resolution succeeded'')]"

definition connectivity_pod :: test_pod where
  "connectivity_pod = restricted_pod ''connectivity-test-pod'' ''e2e-network-test'' ''connectivity-test''
     [''bash'', ''-c'', ''echo -e '' @ [CHR 0x27] @ ''GET / HTTP/1.0'' @ [CHR 0x5C] @ ''r'' @ [CHR 0x5C] @ ''nHost: test-nginx-svc''
        @ [CHR 0x5C] @ ''r'' @ [CHR 0x5C] @ ''n'' @ [CHR 0x5C] @ ''r'' @ [CHR 0x5C] @ ''n'' @ [CHR 0x27]
        @ '' > /dev/tcp/test-nginx-svc/80 && echo CONNECTIVITY_OK || echo CONNECTIVITY_FAILED'']"

definition connectivity_spec :: "('r, 'k, 'a, 'w) spec_env \<Rightarrow> ('r, 'k, 'a, 'w) spec" where
  "connectivity_spec env = steps
     [need_cluster ''CLUSTER_ID not set, skipping data plane test'',
      hosted_clients env,
      By ''Deploying test workload'',
      use_client HCKubeClient (\<lambda>k. steps
        [expect_nil (DeployTestWorkload (poll env) (objects env k) ''e2e-network-test''),
         DeferCleanup (workload_deferred (objects env k) ''e2e-network-test''),
         run_pod env k connectivity_pod ''Creating connectivity test pod'' ''Waiting for connectivity test pod to complete''
           ''Verifying pod-to-service connectivity'',
         expect_value (pod_Logs (guest env k) ''e2e-network-test'' ''connectivity-test-pod'')
           (\<lambda>logs. expect_that (contains (trim_space logs) ''CONNECTIVITY_OK''))])]"

section \<open>What is left to the cleanups\<close>

text \<open>
  The specs with what they create: the step that creates it, and the cleanup that is to remove it again. \<open>leaves_cleanups\<close> says
  that a spec ended in \<open>t\<close> with the cleanups of its first \<open>n\<close> creations deferred, the last one first, and that it
  stopped before or at the next creation if there is one.
\<close>

definition object_specs ::
  "('r, 'k, 'a, 'w) spec_env \<Rightarrow> (('r, 'k, 'a, 'w) spec \<times> (string \<times> ('w object_api \<Rightarrow> 'w cleanup)) list) list" where
  "object_specs env =
     [(storage_spec env, [(''Creating test namespace'', \<lambda>api failed. namespace_cleanup api ''e2e-storage-test'')]),
      (network_policy_spec env, [(''Creating test namespace'', \<lambda>api failed. namespace_cleanup api ''e2e-netpol-test'')]),
      (dns_spec env, [(''Creating test namespace'', \<lambda>api failed. namespace_cleanup api ''e2e-dns-test'')]),
      (workload_spec env, [(''Deploying test workload'', \<lambda>api. workload_deferred api ''e2e-workload-test'')]),
      (connectivity_spec env, [(''Deploying test workload'', \<lambda>api. workload_deferred api ''e2e-network-test'')]),
      (post_upgrade_workload_spec env, [(''Deploying test workload after upgrade'', \<lambda>api. workload_deferred api ''e2e-post-upgrade'')]),
      (kms_storage_spec env, [(''Creating test namespace'', \<lambda>api failed. namespace_cleanup api ''e2e-kms-storage-test''),
        (''Creating a storage class encrypted with the cluster KMS key'', \<lambda>api failed. storage_class_cleanup api ''e2e-kms-gp3-csi'')])]"

definition stops_at :: "string list \<Rightarrow> stop option \<Rightarrow> bool" where
  "stops_at ts e \<longleftrightarrow> (\<exists>why. e = Some (Skipping why)) \<or> (\<exists>t err. e = Some (Failing t err) \<and> t \<in> set ts)"

definition leaves_cleanups ::
  "('r, 'k, 'a, 'w) spec_env \<Rightarrow> (string \<times> ('w object_api \<Rightarrow> 'w cleanup)) list \<Rightarrow> stop option
   \<Rightarrow> (('r, 'k, 'a, 'w) test_context, 'w) spec_state \<Rightarrow> nat \<Rightarrow> bool" where
  "leaves_cleanups env creations e t n \<longleftrightarrow> n \<le> length creations
     \<and> (if n = 0 then sp_cleanups t = []
        else \<exists>k. HCKubeClient (sp_tc t) = Some k \<and> sp_cleanups t = rev (map (\<lambda>(creating, undo). undo (objects env k)) (take n creations)))
     \<and> (n < length creations \<longrightarrow> stops_at (fst (creations ! n) #
          (if n = 0 then [''Querying cluster KMS configuration'', ''Initializing hosted cluster clients''] else [])) e)"

lemma topology_keeps_clients: "is_topology x env tc w = (b, tc', w') \<Longrightarrow> tc_hc tc' = tc_hc tc"
  by (auto simp: is_topology_def split: prod.splits dest!: Topology_cases(1) [THEN arg_cong [where f = tc_hc]])

lemma IsOSDGCP_keeps_client: "IsOSDGCP env tc w = (b, tc', w') \<Longrightarrow> HCKubeClient tc' = HCKubeClient tc"
  by (auto simp: IsOSDGCP_def HCKubeClient_def dest: topology_keeps_clients)

lemma ends_deployed:
  assumes "ends (deploy_and_verify env ns deploying verifying) s e t" and "HCKubeClient (sp_tc s) = Some k" and "sp_cleanups s = []"
  shows "sp_cleanups t = [] \<and> (\<exists>err. e = Some (Failing deploying err))
    \<or> sp_cleanups t = [workload_deferred (objects env k) ns] \<and> HCKubeClient (sp_tc t) = Some k"
  using assms by (auto simp: deploy_and_verify_def ending passing)

lemma ends_pod:
  assumes "ends (run_pod env k pod creating waiting verifying) s e t"
  shows "sp_cleanups t = sp_cleanups s \<and> sp_tc t = sp_tc s"
  using assms by (auto simp: run_pod_def ending passing)

lemma passes_pod:
  assumes "passes_to (run_pod env k pod creating waiting verifying) s t"
  shows "sp_cleanups t = sp_cleanups s \<and> sp_tc t = sp_tc s"
  using assms by (auto simp: run_pod_def passing)

lemma ends_namespace:
  assumes "ends (need_namespace env ns) s (Some q) t" and "HCKubeClient (sp_tc s) = Some k"
  shows "\<exists>err. q = Failing ''Creating test namespace'' err" and "sp_cleanups t = sp_cleanups s"
  using assms by (auto simp: need_namespace_def ending passing)

lemma passes_namespace:
  assumes "passes_to (need_namespace env ns) s t"
  shows "\<exists>k. HCKubeClient (sp_tc s) = Some k \<and> HCKubeClient (sp_tc t) = Some k
    \<and> sp_cleanups t = (\<lambda>failed. namespace_cleanup (objects env k) ns) # sp_cleanups s"
  using assms by (auto simp: need_namespace_def passing)

text \<open>After its guards a spec asks for the clients, and then creates a namespace or deploys a workload.\<close>

lemma namespace_spec_ends:
  assumes "ends (steps (hosted_clients env # need_namespace env ns # rest)) s e t" and "sp_cleanups s = []"
  obtains (stopped) "sp_cleanups t = []" "stops_at [''Creating test namespace'', ''Initializing hosted cluster clients''] e"
  | (created) u k where "HCKubeClient (sp_tc u) = Some k" "sp_cleanups u = [\<lambda>failed. namespace_cleanup (objects env k) ns]" "ends (steps rest) u e t"
proof -
  from assms(1) consider (clients) q where "e = Some q" "ends (hosted_clients env) s (Some q) t"
    | (namespace) u q where "e = Some q" "passes_to (hosted_clients env) s u" "ends (need_namespace env ns) u (Some q) t"
    | (rest) u v where "passes_to (hosted_clients env) s u" "passes_to (need_namespace env ns) u v" "ends (steps rest) v e t"
    by (auto simp: ending passing)
  then show thesis
  proof cases
    case clients
    then show ?thesis using ends_hosted [OF clients(2)] assms(2) stopped by (auto simp: stops_at_def)
  next
    case namespace
    obtain k where "HCKubeClient (sp_tc u) = Some k" using passes_hosted(1) [OF namespace(2)] by blast
    then show ?thesis using ends_namespace [OF namespace(3)] namespace(1) passes_hosted(2) [OF namespace(2)] assms(2) stopped
      by (auto simp: stops_at_def)
  next
    case rest
    then show ?thesis using passes_namespace [OF rest(2)] passes_hosted(2) [OF rest(1)] assms(2) created by auto
  qed
qed

lemma deployed_spec_ends:
  assumes "ends (steps [hosted_clients env, deploy_and_verify env ns deploying verifying]) s e t" and "sp_cleanups s = []"
  shows "sp_cleanups t = [] \<and> stops_at [deploying, ''Initializing hosted cluster clients''] e
    \<or> (\<exists>k. HCKubeClient (sp_tc t) = Some k \<and> sp_cleanups t = [workload_deferred (objects env k) ns])"
proof -
  from assms(1) consider (clients) q where "e = Some q" "ends (hosted_clients env) s (Some q) t"
    | (deploy) u where "passes_to (hosted_clients env) s u" "ends (deploy_and_verify env ns deploying verifying) u e t"
    by (auto simp: ending passing)
  then show ?thesis
  proof cases
    case clients
    then show ?thesis using ends_hosted [OF clients(2)] assms(2) by (auto simp: stops_at_def)
  next
    case deploy
    obtain k where k: "HCKubeClient (sp_tc u) = Some k" using passes_hosted(1) [OF deploy(1)] by blast
    show ?thesis using ends_deployed [OF deploy(2) k] k passes_hosted(2) [OF deploy(1)] assms(2) by (auto simp: stops_at_def)
  qed
qed

text \<open>A spec of one creation.\<close>

lemma leaves_one:
  assumes "sp_cleanups t = [] \<and> stops_at [creating, ''Initializing hosted cluster clients''] e
    \<or> (\<exists>k. HCKubeClient (sp_tc t) = Some k \<and> sp_cleanups t = [undo (objects env k)])"
  shows "\<exists>n. leaves_cleanups env [(creating, undo)] e t n"
  using assms
proof
  assume "sp_cleanups t = [] \<and> stops_at [creating, ''Initializing hosted cluster clients''] e"
  then show ?thesis by (intro exI [of _ 0]) (auto simp: leaves_cleanups_def stops_at_def)
next
  assume "\<exists>k. HCKubeClient (sp_tc t) = Some k \<and> sp_cleanups t = [undo (objects env k)]"
  then show ?thesis by (intro exI [of _ 1]) (auto simp: leaves_cleanups_def)
qed

lemma skipped_leaves_none: "sp_cleanups t = [] \<Longrightarrow> 0 < length cs \<Longrightarrow> \<exists>n. leaves_cleanups env cs (Some (Skipping why)) t n"
  by (intro exI [of _ 0]) (simp add: leaves_cleanups_def stops_at_def)

lemma namespace_spec_leaves:
  assumes "ends (steps (need_cluster why # hosted_clients env # need_namespace env ns # rest)) s e t" and "sp_cleanups s = []"
    and rest: "\<And>u k. HCKubeClient (sp_tc u) = Some k \<Longrightarrow> ends (steps rest) u e t \<Longrightarrow> HCKubeClient (sp_tc t) = Some k \<and> sp_cleanups t = sp_cleanups u"
  shows "\<exists>n. leaves_cleanups env [(''Creating test namespace'', \<lambda>api failed. namespace_cleanup api ns)] e t n"
proof (cases "ClusterID (tc_cfg (sp_tc s)) = []")
  case True
  then have "t = s" "e = Some (Skipping why)" using assms(1) by (auto simp: ending passing)
  then show ?thesis using skipped_leaves_none [of t] assms(2) by simp
next
  case False
  then have "ends (steps (hosted_clients env # need_namespace env ns # rest)) s e t"
    using assms(1) by (auto simp: ends_steps(2) [of "need_cluster why"] passes_to_guards ends_guards)
  from this assms(2) show ?thesis
  proof (cases rule: namespace_spec_ends)
    case stopped
    then show ?thesis by (intro leaves_one) simp
  next
    case (created u k)
    then show ?thesis using rest [OF created(1,3)] by (intro leaves_one) auto
  qed
qed


lemma need_cluster_ends:
  "ends (steps (need_cluster why # m # ms)) s e t \<longleftrightarrow>
     (if ClusterID (tc_cfg (sp_tc s)) = [] then t = s \<and> e = Some (Skipping why) else ends (steps (m # ms)) s e t)"
  by (auto simp: ends_steps(2) [of "need_cluster _"] passes_to_guards ends_guards)

lemma need_target_ends:
  "ends (steps (need_target why # m # ms)) s e t \<longleftrightarrow>
     (if UpgradeTargetVersion (tc_cfg (sp_tc s)) = [] then t = s \<and> e = Some (Skipping why) else ends (steps (m # ms)) s e t)"
  by (auto simp: ends_steps(2) [of "need_target _"] passes_to_target) (auto simp: need_target_def ending)

lemma deployed_spec_leaves:
  assumes "ends (steps [hosted_clients env, deploy_and_verify env ns deploying verifying]) s e t" and "sp_cleanups s = []"
  shows "\<exists>n. leaves_cleanups env [(deploying, \<lambda>api. workload_deferred api ns)] e t n"
  using deployed_spec_ends [OF assms] by (intro leaves_one) auto

lemma storage_leaves:
  assumes "ends (storage_spec env) s e t" and "sp_cleanups s = []"
  shows "\<exists>n. leaves_cleanups env [(''Creating test namespace'', \<lambda>api failed. namespace_cleanup api ''e2e-storage-test'')] e t n"
  by (rule namespace_spec_leaves [OF assms(1) [unfolded storage_spec_def] assms(2)])
    (auto simp: ending passing dest!: IsOSDGCP_keeps_client)

lemma network_policy_leaves:
  assumes "ends (network_policy_spec env) s e t" and "sp_cleanups s = []"
  shows "\<exists>n. leaves_cleanups env [(''Creating test namespace'', \<lambda>api failed. namespace_cleanup api ''e2e-netpol-test'')] e t n"
  by (rule namespace_spec_leaves [OF assms(1) [unfolded network_policy_spec_def] assms(2)]) (auto simp: ending passing)

lemma dns_leaves:
  assumes "ends (dns_spec env) s e t" and "sp_cleanups s = []"
  shows "\<exists>n. leaves_cleanups env [(''Creating test namespace'', \<lambda>api failed. namespace_cleanup api ''e2e-dns-test'')] e t n"
  by (rule namespace_spec_leaves [OF assms(1) [unfolded dns_spec_def] assms(2)]) (auto simp: ending dest!: ends_pod)

lemma workload_leaves:
  assumes "ends (workload_spec env) s e t" and "sp_cleanups s = []"
  shows "\<exists>n. leaves_cleanups env [(''Deploying test workload'', \<lambda>api. workload_deferred api ''e2e-workload-test'')] e t n"
  using assms by (auto simp: workload_spec_def need_cluster_ends intro: skipped_leaves_none deployed_spec_leaves split: if_splits)

lemma post_upgrade_leaves:
  assumes "ends (post_upgrade_workload_spec env) s e t" and "sp_cleanups s = []"
  shows "\<exists>n. leaves_cleanups env [(''Deploying test workload after upgrade'', \<lambda>api. workload_deferred api ''e2e-post-upgrade'')] e t n"
  using assms
  by (auto simp: post_upgrade_workload_spec_def need_cluster_ends need_target_ends intro: skipped_leaves_none deployed_spec_leaves split: if_splits)

lemma connectivity_leaves:
  assumes "ends (connectivity_spec env) s e t" and "sp_cleanups s = []"
  shows "\<exists>n. leaves_cleanups env [(''Deploying test workload'', \<lambda>api. workload_deferred api ''e2e-network-test'')] e t n"
proof (cases "ClusterID (tc_cfg (sp_tc s)) = []")
  case True
  then show ?thesis using assms by (auto simp: connectivity_spec_def need_cluster_ends intro: skipped_leaves_none)
next
  case False
  let ?rest = "steps [By ''Deploying test workload'',
      use_client HCKubeClient (\<lambda>k. steps
        [expect_nil (DeployTestWorkload (poll env) (objects env k) ''e2e-network-test''),
         DeferCleanup (workload_deferred (objects env k) ''e2e-network-test''),
         run_pod env k connectivity_pod ''Creating connectivity test pod'' ''Waiting for connectivity test pod to complete''
           ''Verifying pod-to-service connectivity'',
         expect_value (pod_Logs (guest env k) ''e2e-network-test'' ''connectivity-test-pod'')
           (\<lambda>logs. expect_that (contains (trim_space logs) ''CONNECTIVITY_OK''))])]"
  from False assms(1) consider (clients) q where "e = Some q" "ends (hosted_clients env) s (Some q) t"
    | (deploy) u where "passes_to (hosted_clients env) s u" "ends ?rest u e t"
    by (auto simp: connectivity_spec_def need_cluster_ends ends_steps(2) [of "hosted_clients _"])
  then show ?thesis
  proof cases
    case clients
    then show ?thesis using ends_hosted [OF clients(2)] assms(2) by (intro leaves_one) (auto simp: stops_at_def)
  next
    case deploy
    obtain k where k: "HCKubeClient (sp_tc u) = Some k" using passes_hosted(1) [OF deploy(1)] by blast
    show ?thesis using deploy(2) k passes_hosted(2) [OF deploy(1)] assms(2)
      by (intro leaves_one) (auto simp: ending passing stops_at_def dest!: ends_pod passes_pod)
  qed
qed

lemma setup_ends:
  assumes "ends (setupKMS env k) s e t"
  shows "sp_cleanups t = sp_cleanups s \<and> stops_at [''Querying cluster KMS configuration''] e
    \<or> (\<exists>u key. sp_cleanups u = sp_cleanups s \<and> ends (k key) u e t)"
  using assms by (auto simp: setupKMS_def ending passing stops_at_def split: if_splits)

lemma kms_steps_end:
  assumes "ends (kms_storage_steps env key k) s e t"
  shows "HCKubeClient (sp_tc t) = HCKubeClient (sp_tc s) \<and>
    (sp_cleanups t = sp_cleanups s \<and> (\<exists>err. e = Some (Failing ''Creating a storage class encrypted with the cluster KMS key'' err))
     \<or> sp_cleanups t = (\<lambda>failed. storage_class_cleanup (objects env k) ''e2e-kms-gp3-csi'') # sp_cleanups s)"
  using assms unfolding kms_storage_steps_def by (auto simp: ending passing)

lemma kms_storage_leaves:
  assumes "ends (kms_storage_spec env) s e t" and "sp_cleanups s = []"
  shows "\<exists>n. leaves_cleanups env [(''Creating test namespace'', \<lambda>api failed. namespace_cleanup api ''e2e-kms-storage-test''),
    (''Creating a storage class encrypted with the cluster KMS key'', \<lambda>api failed. storage_class_cleanup api ''e2e-kms-gp3-csi'')] e t n"
proof (cases "ClusterID (tc_cfg (sp_tc s)) = []")
  case True
  then show ?thesis using assms by (auto simp: kms_storage_spec_def need_cluster_ends intro: skipped_leaves_none)
next
  case False
  let ?after = "\<lambda>key. steps [hosted_clients env, need_namespace env ''e2e-kms-storage-test'', use_client HCKubeClient (kms_storage_steps env key)]"
  have "ends (setupKMS env ?after) s e t" using False assms(1) by (simp add: kms_storage_spec_def need_cluster_ends)
  from setup_ends [OF this] consider (querying) "sp_cleanups t = []" "stops_at [''Querying cluster KMS configuration''] e"
    | (after) u key where "sp_cleanups u = []" "ends (?after key) u e t" using assms(2) by auto
  then show ?thesis
  proof cases
    case querying
    then show ?thesis by (intro exI [of _ 0]) (auto simp: leaves_cleanups_def stops_at_def)
  next
    case after
    from after(2,1) show ?thesis
    proof (cases rule: namespace_spec_ends)
      case stopped
      then show ?thesis by (intro exI [of _ 0]) (auto simp: leaves_cleanups_def stops_at_def)
    next
      case (created v k)
      then have "ends (kms_storage_steps env key k) v e t" by (auto simp: ending)
      from kms_steps_end [OF this] created(1,2) consider (one) err where "HCKubeClient (sp_tc t) = Some k"
          "sp_cleanups t = [\<lambda>failed. namespace_cleanup (objects env k) ''e2e-kms-storage-test'']"
          "e = Some (Failing ''Creating a storage class encrypted with the cluster KMS key'' err)"
        | (two) "HCKubeClient (sp_tc t) = Some k" "sp_cleanups t = [\<lambda>failed. storage_class_cleanup (objects env k) ''e2e-kms-gp3-csi'',
            \<lambda>failed. namespace_cleanup (objects env k) ''e2e-kms-storage-test'']" by auto
      then show ?thesis
      proof cases
        case one
        then show ?thesis by (intro exI [of _ 1]) (simp add: leaves_cleanups_def stops_at_def)
      next
        case two
        then show ?thesis by (intro exI [of _ 2]) (simp add: leaves_cleanups_def)
      qed
    qed
  qed
qed

text \<open>
  C10. The specs that create objects on a cluster leave nothing without a cleanup. Wherever such a spec ends, the cleanups that it
  deferred are those of the creations that it got past, in reverse order, on the client of the cluster; and when one of its
  creations is not among them, then the spec was skipped or failed before that creation or in it.
\<close>

theorem created_objects_removed:
  assumes "(spec, creations) \<in> set (object_specs env)" and "ends spec (spec_start tc r) e t"
  shows "\<exists>n. leaves_cleanups env creations e t n"
proof -
  have none: "sp_cleanups (spec_start tc r) = []" by simp
  have "list_all (\<lambda>(spec, cs). ends spec (spec_start tc r) e t \<longrightarrow> (\<exists>n. leaves_cleanups env cs e t n)) (object_specs env)"
    unfolding object_specs_def list.pred_inject prod.case
    by (intro conjI impI list.pred_inject(1); erule storage_leaves [OF _ none] network_policy_leaves [OF _ none] dns_leaves [OF _ none]
        workload_leaves [OF _ none] connectivity_leaves [OF _ none] post_upgrade_leaves [OF _ none] kms_storage_leaves [OF _ none])
  then show ?thesis using assms by (auto simp: list_all_iff)
qed

section \<open>The volume of a passed KMS spec\<close>

text \<open>
  From the storage class in the world \<open>w\<close> to the end: the class has the key, the claim has the class, the claim was seen bound, and the
  EBS volume behind it is encrypted with the key.
\<close>

definition claim_of_class :: "string \<Rightarrow> string \<Rightarrow> pvc_object" where
  "claim_of_class namespace storageClass = \<lparr>po_Name = ''test-pvc'', po_Namespace = namespace, po_AccessModes = [''ReadWriteOnce''],
     po_StorageRequest = ''1Gi'', po_StorageClassName = Some storageClass\<rparr>"

definition volume_has_key ::
  "('w \<Rightarrow> 'w \<Rightarrow> bool) \<Rightarrow> ('r, 'k, 'a, 'w) spec_env \<Rightarrow> 'k \<Rightarrow> 'a \<Rightarrow> string \<Rightarrow> 'w \<Rightarrow> 'w \<Rightarrow> bool" where
  "volume_has_key passes env k a key w w' \<longleftrightarrow> (\<exists>w1 w2 w3 u w4 v claim v' pv w5 volumeID vol rest.
     storageclass_Create (objects env k) (kms_storage_class ''e2e-kms-gp3-csi'' key) w = (None, w1)
     \<and> pvc_Create (objects env k) (claim_of_class ''e2e-kms-storage-test'' ''e2e-kms-gp3-csi'') w1 = (None, w2)
     \<and> pod_Create (objects env k) (pvc_pod ''e2e-kms-storage-test'' ''test-pvc'') w2 = (None, w3)
     \<and> polled passes (attempt_condition (Succeed (VerifyPVCBound (kube env k) ''e2e-kms-storage-test'' ''test-pvc''))) w3 u
     \<and> pvc_GetPhase (kube env k) ''e2e-kms-storage-test'' ''test-pvc'' u = (Inr ''Bound'', w4)
     \<and> polled passes (attempt_condition (Yields (GetPVCVolumeID (objects env k) ''e2e-kms-storage-test'' ''test-pvc''))) w4 v
     \<and> pvc_Get (objects env k) ''e2e-kms-storage-test'' ''test-pvc'' v = (Inr claim, v') \<and> bc_VolumeName claim \<noteq> []
     \<and> pv_Get (objects env k) (bc_VolumeName claim) v' = (Inr pv, w5) \<and> vo_CSIHandle pv = Some volumeID
     \<and> DescribeVolumes (aws env a) \<lparr>dvi_Filters = [], dvi_VolumeIds = [volumeID]\<rparr> w5 = (Inr (vol # rest), w')
     \<and> vol_Encrypted vol = Some True \<and> volume_key vol = key)"

lemma storage_class_created: "CreateKMSStorageClass api name key w = (None, w') \<Longrightarrow> storageclass_Create api (kms_storage_class name key) w = (None, w')"
  by (auto simp: CreateKMSStorageClass_def split: prod.splits option.splits)

lemma claim_created:
  "CreateTestPVC api ns sc w = (Inr n, w') \<Longrightarrow> sc \<noteq> [] \<Longrightarrow> n = ''test-pvc'' \<and> pvc_Create api (claim_of_class ns sc) w = (None, w')"
  by (auto simp: CreateTestPVC_def claim_of_class_def split: prod.splits option.splits)

lemma pod_created: "CreateTestPodWithPVC api ns n w = (Inr p, w') \<Longrightarrow> pod_Create api (pvc_pod ns n) w = (None, w')"
  by (auto simp: CreateTestPodWithPVC_def split: prod.splits option.splits)

lemma claim_bound: "VerifyPVCBound client ns n w = (None, w') \<Longrightarrow> pvc_GetPhase client ns n w = (Inr ''Bound'', w')"
  by (auto simp: VerifyPVCBound_def split: prod.splits sum.splits if_splits)

lemma volume_resolved:
  assumes "GetPVCVolumeID api ns n w = (Inr i, w')"
  obtains claim v pv where "pvc_Get api ns n w = (Inr claim, v)" "bc_VolumeName claim \<noteq> []" "pv_Get api (bc_VolumeName claim) v = (Inr pv, w')"
    "vo_CSIHandle pv = Some i"
  using assms by (auto simp: GetPVCVolumeID_def split: prod.splits sum.splits if_splits)

lemma volume_encrypted_with:
  assumes "VerifyEBSVolumeEncryptedWithKey a i key w = (None, w')"
  obtains vol rest where "DescribeVolumes a \<lparr>dvi_Filters = [], dvi_VolumeIds = [i]\<rparr> w = (Inr (vol # rest), w')" "vol_Encrypted vol = Some True"
    "volume_key vol = key"
  using assms by (auto simp: VerifyEBSVolumeEncryptedWithKey_def split: prod.splits sum.splits list.splits if_splits)

lemma kms_steps_passed:
  assumes "eventually_ok passes (Eventually env)" and "passes_to (kms_storage_steps env key k) s t"
  shows "sp_tc t = sp_tc s \<and> (\<exists>a. EC2Client (sp_tc s) = Some a \<and> volume_has_key passes env k a key (world_of s) (world_of t))"
proof -
  obtain w1 n w2 p w3 x w4 i w5 a where tc: "sp_tc t = sp_tc s" "EC2Client (sp_tc s) = Some a"
    and sc: "CreateKMSStorageClass (objects env k) ''e2e-kms-gp3-csi'' key (world_of s) = (None, w1)"
    and pvc: "CreateTestPVC (objects env k) ''e2e-kms-storage-test'' ''e2e-kms-gp3-csi'' w1 = (Inr n, w2)"
    and pod: "CreateTestPodWithPVC (objects env k) ''e2e-kms-storage-test'' n w2 = (Inr p, w3)"
    and bound: "Eventually env (Some (5 * minute)) (Some (10 * second))
        (Succeed (VerifyPVCBound (kube env k) ''e2e-kms-storage-test'' n)) w3 = (Some x, w4)"
    and vol: "Eventually env (Some (5 * minute)) (Some (10 * second))
        (Yields (GetPVCVolumeID (objects env k) ''e2e-kms-storage-test'' n)) w4 = (Some i, w5)"
    and enc: "VerifyEBSVolumeEncryptedWithKey (aws env a) i key w5 = (None, world_of t)"
    using assms(2) by (auto simp: kms_storage_steps_def passing)
  from claim_created [OF pvc] have n: "n = ''test-pvc''"
    and c: "pvc_Create (objects env k) (claim_of_class ''e2e-kms-storage-test'' ''e2e-kms-gp3-csi'') w1 = (None, w2)" by simp_all
  obtain u where u: "polled passes (attempt_condition (Succeed (VerifyPVCBound (kube env k) ''e2e-kms-storage-test'' n))) w3 u"
    "VerifyPVCBound (kube env k) ''e2e-kms-storage-test'' n u = (None, w4)"
    using eventually_Some [OF assms(1) bound] by (auto simp: Succeed_Some)
  obtain v where v: "polled passes (attempt_condition (Yields (GetPVCVolumeID (objects env k) ''e2e-kms-storage-test'' n))) w4 v"
    "GetPVCVolumeID (objects env k) ''e2e-kms-storage-test'' n v = (Inr i, w5)"
    using eventually_Some [OF assms(1) vol] by (auto simp: Yields_Some)
  show ?thesis
    using tc storage_class_created [OF sc] c pod_created [OF pod] u(1) claim_bound [OF u(2)] v(1) volume_resolved [OF v(2)] volume_encrypted_with [OF enc]
    unfolding volume_has_key_def n by metis
qed

text \<open>
  C11. A KMS storage spec that passes has checked the right volume against the right key. In this order: OCM reported a key and a region of
  the cluster, and the region was set in the shared configuration; AWS and cluster clients were built and the namespace was created;
  a storage class with that key was accepted, a claim of that class and a pod with the claim; an attempt of the wait saw the
  claim bound; the claim was resolved to its volume; and EC2 described that volume as encrypted with the key that OCM had reported.
\<close>

theorem kms_storage_passed:
  assumes "eventually_ok passes (Eventually env)"
    and "passes_to (kms_storage_spec env) (spec_start (NewTestContext cfg) r) s"
  shows "ClusterID cfg \<noteq> []
    \<and> (\<exists>d w1 tc w2 w3 k w4 a. cluster_Details env (ClusterID cfg) (run_world r) = (Inr d, w1) \<and> cd_KMSKeyArn d \<noteq> [] \<and> cd_Region d \<noteq> []
        \<and> InitAWSClients (ctx env) (NewTestContext (cfg\<lparr>AWSRegion := cd_Region d\<rparr>)) w1 = (None, tc, w2)
        \<and> InitHCClients (ctx env) tc w2 = (None, sp_tc s, w3) \<and> HCKubeClient (sp_tc s) = Some k \<and> EC2Client (sp_tc s) = Some a
        \<and> CreateTestNamespace (poll env) (objects env k) ''e2e-kms-storage-test'' w3 = (None, w4)
        \<and> volume_has_key passes env k a (cd_KMSKeyArn d) w4 (world_of s))"
proof -
  have new: "(NewTestContext cfg)\<lparr>tc_cfg := c\<rparr> = NewTestContext c" for c :: Config by (simp add: NewTestContext_def)
  obtain d w1 tc w2 tc' w3 k w4 t where *: "ClusterID cfg \<noteq> []" "cluster_Details env (ClusterID cfg) (run_world r) = (Inr d, w1)"
      "cd_KMSKeyArn d \<noteq> []" "cd_Region d \<noteq> []"
      "InitAWSClients (ctx env) (NewTestContext (cfg\<lparr>AWSRegion := cd_Region d\<rparr>)) w1 = (None, tc, w2)"
      "InitHCClients (ctx env) tc w2 = (None, tc', w3)" "HCKubeClient tc' = Some k"
      "CreateTestNamespace (poll env) (objects env k) ''e2e-kms-storage-test'' w3 = (None, w4)"
    and t: "passes_to (kms_storage_steps env (cd_KMSKeyArn d) k) t s" "sp_tc t = tc'" "world_of t = w4"
    using assms(2) by (auto simp: kms_storage_spec_def setupKMS_def hosted_clients_def need_namespace_def passing new_context_cfg new)
  show ?thesis using * kms_steps_passed [OF assms(1) t(1)] t(2,3) by auto
qed

section \<open>A concrete run\<close>

text \<open>
  The world counts the lookups of the claim: at the first one it has no volume yet, so that the first attempt to resolve it
  fails. The only volume is encrypted with the key of the cluster.
\<close>

definition kms_api :: "nat object_api" where
  "kms_api = sample_api\<lparr>namespace_Create := (\<lambda>n w. (None, w)), serviceaccount_Get := (\<lambda>n a w. (None, w)),
     pvc_Get := (\<lambda>n p w. (Inr \<lparr>bc_VolumeName = (if w = 0 then [] else ''pv-1'')\<rparr>, Suc w)),
     pv_Get := (\<lambda>n w. (Inr \<lparr>vo_Name = n, vo_CSIHandle = Some ''vol-1''\<rparr>, w))\<rparr>"

definition kms_volume :: volume where
  "kms_volume = \<lparr>vol_VolumeId = Some ''vol-1'', vol_Tags = [], vol_Encrypted = Some True, vol_KmsKeyId = Some ''arn:key'', vol_AttachmentDevices = []\<rparr>"

definition kms_details :: cluster_details where
  "kms_details = \<lparr>cd_Status = 200, cd_State = ''ready'', cd_Name = ''c'', cd_KMSKeyArn = ''arn:key'', cd_Region = ''eu-west-1'', cd_PrivateLink = False,
     cd_HypershiftEnabled = False, cd_ExternalID = [], cd_FIPS = False, cd_BaseDomain = [], cd_ConsoleURL = [], cd_APIURL = [], cd_ProvisionShard = None\<rparr>"

definition kms_env :: "(unit, unit, unit, nat) spec_env" where
  "kms_env = calm_env\<lparr>objects := (\<lambda>k. kms_api),
     aws := (\<lambda>a. \<lparr>DescribeVolumes = (\<lambda>i w. (Inr [kms_volume], w)), DescribeKey = (\<lambda>k w. (Inr None, w)), GetKeyPolicy = (\<lambda>k p w. (Inr None, w)),
        LookupEvents = (\<lambda>t p w. (Inr ([], None), w))\<rparr>),
     cluster_Details := (\<lambda>i w. (Inr kms_details, w))\<rparr>"

abbreviation kms_start :: "((unit, unit, unit, nat) test_context, nat) spec_state" where
  "kms_start \<equiv> spec_start (NewTestContext calm_cfg) \<lparr>run_world = 0, run_log = []\<rparr>"

lemma kms_projections [simp]:
  "ctx kms_env = calm_ctx" "Eventually kms_env = two_attempts" "kube kms_env k = booting_client" "objects kms_env k = kms_api" "poll kms_env = two_polls"
  "cluster_Details kms_env i w = (Inr kms_details, w)" "DescribeVolumes (aws kms_env a) q w = (Inr [kms_volume], w)"
  "cd_KMSKeyArn kms_details = ''arn:key''" "cd_Region kms_details = ''eu-west-1''" "vol_Encrypted kms_volume = Some True" "volume_key kms_volume = ''arn:key''"
  by (simp_all add: kms_env_def calm_env_def kms_details_def kms_volume_def volume_key_def)

lemma kms_aws: "InitAWSClients calm_ctx tc w = (None, tc\<lparr>tc_aws := Some ()\<rparr>, w)"
  by (simp add: InitAWSClients_def calm_ctx_def)

lemma kms_objects:
  "CreateTestNamespace two_polls kms_api n w = (None, w)" "CreateKMSStorageClass kms_api n key w = (None, w)"
  "CreateTestPVC kms_api ns sc w = (Inr ''test-pvc'', w)" "CreateTestPodWithPVC kms_api ns c w = (Inr ''test-pod-pvc'', w)"
  "VerifyPVCBound booting_client ns n w = (None, w)"
  by (simp_all add: CreateTestNamespace_def two_polls_def create_namespace_once_def service_account_once_def CreateKMSStorageClass_def CreateTestPVC_def
      CreateTestPodWithPVC_def VerifyPVCBound_def kms_api_def sample_api_def booting_client_def)

lemma kms_lookup: "two_attempts t i (Yields (GetPVCVolumeID kms_api ns n)) 0 = (Some ''vol-1'', 2)"
  by (simp add: two_attempts_def Yields_def GetPVCVolumeID_def kms_api_def)

lemma kms_bound: "two_attempts t i (Succeed (VerifyPVCBound booting_client ns n)) w = (Some [], w)"
  by (simp add: two_attempts_def Succeed_def kms_objects)

lemma kms_steps_pass:
  assumes "world_of s = 0" and "EC2Client (sp_tc s) = Some a"
  shows "\<exists>t. passes_to (kms_storage_steps kms_env ''arn:key'' k) s t \<and> world_of t = 2"
proof -
  have e: "VerifyEBSVolumeEncryptedWithKey (aws kms_env b) i ''arn:key'' w = (None, w)" for b i w
    by (simp add: VerifyEBSVolumeEncryptedWithKey_def)
  show ?thesis by (simp add: kms_storage_steps_def passing kms_objects kms_bound assms kms_lookup e)
qed

lemma kms_prepared:
  assumes "world_of s = 0"
  shows "\<exists>u t. passes_to (hosted_clients kms_env) s u \<and> passes_to (need_namespace kms_env ns) u t
    \<and> world_of t = 0 \<and> EC2Client (sp_tc t) = EC2Client (sp_tc s) \<and> HCKubeClient (sp_tc t) = Some ()"
  using assms by (simp add: hosted_clients_def need_namespace_def passing calm_clients HCKubeClient_def EC2Client_def kms_objects)

lemma kms_setup_passes:
  assumes "\<And>u. world_of u = 0 \<Longrightarrow> EC2Client (sp_tc u) = Some () \<Longrightarrow> \<exists>t. passes_to (k ''arn:key'') u t \<and> P t"
  shows "\<exists>t. passes_to (setupKMS kms_env k) kms_start t \<and> P t"
  by (simp add: setupKMS_def passing kms_aws EC2Client_def) (rule assms, simp_all add: EC2Client_def)

lemma kms_passes: "\<exists>s. passes_to (kms_storage_spec kms_env) kms_start s \<and> world_of s = 2"
proof -
  let ?after = "\<lambda>key. steps [hosted_clients kms_env, need_namespace kms_env ''e2e-kms-storage-test'',
    use_client HCKubeClient (kms_storage_steps kms_env key)]"
  have "\<exists>t. passes_to (setupKMS kms_env ?after) kms_start t \<and> world_of t = 2"
  proof (rule kms_setup_passes)
    fix u :: "((unit, unit, unit, nat) test_context, nat) spec_state"
    assume u: "world_of u = 0" "EC2Client (sp_tc u) = Some ()"
    obtain v w where w: "passes_to (hosted_clients kms_env) u v" "passes_to (need_namespace kms_env ''e2e-kms-storage-test'') v w"
      "world_of w = 0" "EC2Client (sp_tc w) = Some ()" "HCKubeClient (sp_tc w) = Some ()"
      using kms_prepared [OF u(1)] u(2) by metis
    obtain t where "passes_to (kms_storage_steps kms_env ''arn:key'' ()) w t" "world_of t = 2" using kms_steps_pass [OF w(3,4)] by blast
    then show "\<exists>t. passes_to (?after ''arn:key'') u t \<and> world_of t = 2" using w by (auto simp: passing)
  qed
  then show ?thesis by (simp add: kms_storage_spec_def passing new_context_cfg)
qed

theorem kms_storage_passed_witness:
  "\<exists>s k a. passes_to (kms_storage_spec kms_env) kms_start s \<and> volume_has_key (=) kms_env k a ''arn:key'' 0 2"
proof -
  obtain s where s: "passes_to (kms_storage_spec kms_env) kms_start s" "world_of s = 2" using kms_passes by blast
  then show ?thesis using kms_storage_passed [of "(=)" kms_env calm_cfg "\<lparr>run_world = 0, run_log = []\<rparr>" s]
    by (auto simp: two_attempts_ok kms_aws calm_clients kms_objects)
qed

theorem created_objects_removed_witness:
  "\<exists>t. ends (kms_storage_spec kms_env) kms_start None t
    \<and> sp_cleanups t = [\<lambda>failed. storage_class_cleanup kms_api ''e2e-kms-gp3-csi'', \<lambda>failed. namespace_cleanup kms_api ''e2e-kms-storage-test'']"
proof -
  obtain t where t: "ends (kms_storage_spec kms_env) kms_start None t" using kms_passes by (auto simp: passes_to_def ends_def)
  have "(kms_storage_spec kms_env, [(''Creating test namespace'', \<lambda>api failed. namespace_cleanup api ''e2e-kms-storage-test''),
      (''Creating a storage class encrypted with the cluster KMS key'', \<lambda>api failed. storage_class_cleanup api ''e2e-kms-gp3-csi'')])
    \<in> set (object_specs kms_env)" by (simp add: object_specs_def)
  from created_objects_removed [OF this t] t show ?thesis
    by (auto simp: leaves_cleanups_def stops_at_def le_Suc_eq numeral_2_eq_2)
qed

end
