(* ===== verification/Spec2Isabelle.thy ===== *)
theory Spec2Isabelle
  imports Vpc_Cleanup Node_Verifiers Fips Mc_Diagnostics Sippy Config Hcp Suite_Setup
    Aws_Verifiers Ocm_Lifecycle Ocm_Org Test_Context Stability Workloads Rhobs Upgrade_Specs Labels Ci_Status
    Data_Plane_Specs
begin

text \<open>
  A verification development for rosa-e2e, the end-to-end test framework of ROSA clusters (Go, under src/).

  \<^bold>\<open>The program.\<close> A suite loads its configuration from a YAML file and the environment (pkg/config), connects to the
  cluster manager OCM (test/e2e/setup.go, pkg/framework/ocm.go), creates, upgrades and deletes clusters, and keeps the clients
  of the clusters in a test context (pkg/framework/context.go). Specs deploy workloads (pkg/framework) and run verifiers
  (pkg/verifiers) against the hosted, management and service clusters, AWS, OCM and the RHOBS metrics service. Afterwards leftovers of a
  cluster's VPC are removed (pkg/framework/vpc\_cleanup.go), and the results are reported as diagnostics of
  the management cluster and as signals for Sippy (pkg/reporting, test/e2e).

  \<^bold>\<open>Conventions.\<close> The state of everything outside the program is a type variable 'w that is passed through; an external
  client is a record of functions on it, so a call may answer anything and change anything. An error result is a
  \<open>go_error option\<close>, a pair of a value and an error a sum whose left side is the error, and a pair of a flag and an error a
  product. Formatted errors keep the format and the arguments, and \<open>error_text\<close> is what Go prints. Strings are
  lists of bytes. The body of a loop is a definition of its own, named after the loop with the suffix item or body.
  A range over a map visits its entries in an order that a function \<open>shuffle\<close> chooses; \<open>map_range_ok\<close> says only that
  it is a permutation. Integers with a width are words, or are bounded where the source parses them; durations are
  nanoseconds as \<open>int\<close>.

  \<^bold>\<open>Shared theories.\<close>
  \<^item> \<open>Go_Prelude\<close>: errors, fmt, strings, strconv and time as far as the sources use them, and lemmas on which text an error
    contains.
  \<^item> \<open>Item_Checks\<close>: scanning a list with a check per item, the shape of most verifiers; the locale \<open>item_check\<close> gives the
    verdict and the report of such a scan, and is interpreted on each verifier of this shape.
  \<^item> \<open>Polling\<close>: a loop that runs a body until it decides (\<open>poll_loop\<close>, partial: not returning is \<open>None\<close>) and the locales
    for such loops: what the first decisive round is, and that a loop with a bounded number of rounds returns.
  \<^item> \<open>Kube_Api\<close>: the unstructured objects and the dynamic client of Kubernetes.
  \<^item> \<open>Go_Json\<close>: the decoder of encoding/json, with its nesting limit. Its fuel is twice the length of the text plus one;
    \<open>parse_value_fuel\<close> shows that more fuel does not change the answer.
  \<^item> \<open>Go_Float\<close>: 64-bit floats as rationals with rounding to nearest even, infinities and NaN, under the usual operators, and how
    fmt.Sscanf reads them. Proved: results are numbers of the format, the relative error of rounding, small integers are exact.

  \<^bold>\<open>Components.\<close>
  \<^item> \<open>Vpc_Cleanup\<close> (pkg/framework/vpc\_cleanup.go): the three phases that remove network interfaces, security groups and
    subnets, with paging, retries and the event log of all calls. Proved: completeness of a run without error, the
    order of calls in every run, the content of errors, the default group is spared, the number of attempts, termination.
  \<^item> \<open>Verifier_Runner\<close> (pkg/verifiers/verifier.go): RunVerifiers as a step relation over the goroutines, the WaitGroup
    and the channel. Proved by invariants of the reachable states: no panic, no blocked goroutine, no deadlock, a
    bound on the steps, and what the joined error holds in every interleaving. \<open>run_in_order\<close> is one such run, the verifiers one
    after the other, and \<open>schedules\<close> says of any other scheduler that it yields a run of the step relation.
  \<^item> \<open>Node_Verifiers\<close> (nodes.go): the two verifiers that implement the interface; their composition with the runner.
  \<^item> \<open>Operator_Verifiers\<close> (clusteroperators.go, hostedcluster.go, hcp\_namespace.go, managed\_operators.go,
    management\_cluster.go, service\_cluster.go, workload.go, storage.go) and \<open>Fips\<close> (fips.go): for each verifier exactly when
    it accepts and what its error names.
  \<^item> \<open>Aws_Verifiers\<close> (tags.go, kms.go, cloudtrail.go): verdicts on volumes, keys and the CloudTrail log. A nil pointer
    that the source dereferences is a panic value.
  \<^item> \<open>Ocm_Org\<close> (ocm\_role.go, external\_auth.go): linked OCM roles and external authentication, with the HTTP client that
    \<open>Stability\<close> and \<open>Rhobs\<close> use too.
  \<^item> \<open>Rhobs\<close> (rhobs.go): access tokens with retries, probes, metrics, cardinality and recording rules. Proved: the retry loop
    agrees with a reference without a loop, query URLs can be read back, the verdict of each check, that rounding never turns a
    series that did not grow into a failure, and how far a reported percentage can be from the true one.
  \<^item> \<open>Stability\<close> (oauth\_readiness.go, revision.go): two waits with deadlines, which return when the clock runs, and the
    comparison of two snapshots.
  \<^item> \<open>Config\<close> (pkg/config/config.go): Load; precedence of the environment, origin of the secrets, when it succeeds.
  \<^item> \<open>Ocm\<close>, \<open>Ocm_Lifecycle\<close> (ocm.go, upgrade.go, cluster.go, classic.go): the specification of a created cluster, the choice of
    the provision shard, upgrades, waiting for a state.
  \<^item> \<open>Suite_Setup\<close> (test/e2e/setup.go): the hooks around the suite, the composition of \<open>Config\<close> and \<open>Ocm\<close>.
  \<^item> \<open>Hcp\<close> (hcp.go): the namespaces of a hosted control plane.
  \<^item> \<open>Test_Context\<close> (context.go, kube.go): the context as a record, one function per method, and the step
    relation of all calls that change it; its invariant and what is never lost again hold in every reachable state.
  \<^item> \<open>Workloads\<close> (namespace.go, workload.go, storage.go of pkg/framework): the objects that are created and the polls that wait for
    them. The poller of apimachinery is a parameter; \<open>poll_ok\<close> states what its documentation promises, and \<open>polled\<close> in which
    worlds it evaluates its condition.
  \<^item> \<open>Mc_Diagnostics\<close> (pkg/reporting/mc\_diagnostics.go, test/e2e/mc\_diagnostics.go): the bounded and sanitised snapshot of the
    management cluster and how it is written.
  \<^item> \<open>Sippy\<close> (pkg/reporting/sippy.go, test/e2e/sippy\_signals.go): the signals and the JUnit file.
  \<^item> \<open>Lifecycle\<close> (test/e2e/cluster\_lifecycle\_test.go): the specs that create, verify and delete a cluster, a step relation that composes
    \<open>Ocm\<close>, \<open>Ocm_Lifecycle\<close>, \<open>Test_Context\<close> and the steps of \<open>Verifier_Runner\<close>. Proved: every way to end asks for the deletion of
    what was created, a bound on the steps, and a passed spec went through its milestones in order (\<open>visits\<close>).
  \<^item> \<open>Upgrade_Specs\<close> (test/e2e/upgrade\_test.go): the specs that upgrade a whole cluster, and what one that passes has seen.
  \<^item> \<open>Ginkgo\<close>: a spec as a list of steps over a state that keeps the context, the world, the log and the deferred cleanups; a step
    goes on or stops the spec (skipped, failed, or a nil pointer panic). \<open>passes_to\<close> says what a passed list of steps went
    through, \<open>ends\<close> what holds wherever it ends; the rules of each step are collected in \<open>passing\<close> and \<open>ending\<close>.
  \<^item> \<open>Spec_Env\<close>: the clients that the specs call, and the guards they begin with.
  \<^item> \<open>Cluster_Specs\<close> (cluster\_lifecycle\_test.go, upgrade\_test.go): the specs on an existing cluster, the node pool upgrade and the specs
    after an upgrade. Proved: what a passed spec saw, in order.
  \<^item> \<open>Data_Plane_Specs\<close> (kms\_test.go, networking\_test.go, storage\_test.go, workload\_test.go, the network policy spec of
    customer\_features\_test.go): the specs that create objects. Proved: the cleanup of everything that was created is deferred,
    wherever the spec ends, and what a passed KMS spec saw.
  \<^item> \<open>Ci_Status\<close> (pkg/config/ci\_status\_jobs.go and its test): the registry of CI jobs and exactly which registries its checks accept.
  \<^item> \<open>Labels\<close> (pkg/labels/labels.go): the labels, which are distinct and safe in filters.

  \<^bold>\<open>Loops and fuel.\<close> The retries of \<open>Vpc_Cleanup\<close>, the pages of CloudTrail and the token requests have bounds in the source
  and are structural recursions on them. The paginators of EC2 and the waits have none: they are partial functions, and the
  theorems that they return name what they need, paginators that end, a clock that advances, or a decisive round.

  \<^bold>\<open>Assumptions.\<close> A hypothesis about code outside the repository is a named predicate (a paginator that serves pages, a clock that
  advances, a steady web, a poller that keeps its contract, \<open>eventually_ok\<close> for Eventually of Gomega: the last
  attempt decides its answer), and each theorem with hypotheses has a concrete run beside it.

  \<^bold>\<open>Not modelled.\<close> The \_test.go files beside those named above: Ginkgo specs that skip by topology and then call one or two of the
  operations modelled here, and unit tests. Shell scripts, YAML and documentation. Of the modelled files, the deadlines that
  a context puts on single API calls are part of the answers of the clients.
\<close>

end
